(* ===== verification/Prelude.thy ===== *)
theory Prelude
  imports Complex_Main "HOL-Library.Sublist" "HOL-Library.Product_Lexorder"
    "HOL-Library.List_Lexorder" "HOL-Library.Char_ord"
begin

text \<open>
  The shared layer of the GreyQueue development: fallible state transformers (the
  transactions of \<^verbatim>\<open>greyqueue/service.py\<close>, where a raised exception abandons the
  transaction), keyed rows (the tables of \<^verbatim>\<open>greyqueue/models.py\<close>), the rounding of
  Python's \<^verbatim>\<open>timedelta\<close>, and the text helpers (decimal and hexadecimal numerals, ISO
  timestamps) that the Python standard library provides to the program.
\<close>

section \<open>Collections of facts\<close>

named_theorems tx_simps \<open>evaluation and inversion of fallible state transformers\<close>
named_theorems row_simps \<open>reading rows after an update of a table\<close>

section \<open>Exceptions\<close>

text \<open>
  The exceptions the program raises or lets through. \<^verbatim>\<open>Invalid\<close> carries its message and the
  field it names. pydantic's \<^verbatim>\<open>ValidationError\<close> carries its text and its error list, each
  error a type, a location and a message. An \<^verbatim>\<open>IntegrityError\<close> names the violated constraint.
  \<^verbatim>\<open>Invalid\<close> and \<^verbatim>\<open>ValidationError\<close> are subclasses of \<^verbatim>\<open>ValueError\<close>.
\<close>

text \<open>The \<^verbatim>\<open>detail\<close> of an HTTP error: a text, or the errors of a rejected request.\<close>

datatype http_detail = Detail string | Errors "(string \<times> string list \<times> string) list"

datatype exn =
    Conflict string
  | Missing string
  | Saturated string
  | Invalid string string
  | ValidationError string "(string \<times> string list \<times> string) list"
  | ValueError string
  | RetryableTaskError string
  | TypeError string
  | KeyError string
  | IntegrityError string
  | HTTPException nat http_detail

fun is_value_error :: "exn \<Rightarrow> bool" where
  "is_value_error (Invalid _ _) = True"
| "is_value_error (ValidationError _ _) = True"
| "is_value_error (ValueError _) = True"
| "is_value_error _ = False"

section \<open>Fallible state transformers\<close>

text \<open>
  A step of a transaction takes the state and either raises (\<open>Inl\<close>, the state is lost:
  the transaction rolls back) or returns a value and the next state (\<open>Inr\<close>).
\<close>

type_synonym ('e, 's, 'a) tx = "'s \<Rightarrow> 'e + 'a \<times> 's"

definition tx_return :: "'a \<Rightarrow> ('e, 's, 'a) tx" where
  "tx_return x s = Inr (x, s)"

definition tx_raise :: "'e \<Rightarrow> ('e, 's, 'a) tx" where
  "tx_raise e s = Inl e"

definition tx_bind :: "('e, 's, 'a) tx \<Rightarrow> ('a \<Rightarrow> ('e, 's, 'b) tx) \<Rightarrow> ('e, 's, 'b) tx" where
  "tx_bind m f s = (case m s of Inl e \<Rightarrow> Inl e | Inr (x, s') \<Rightarrow> f x s')"

text \<open>\<open>tx_get\<close> reads the state, \<open>tx_modify\<close> writes it.\<close>

definition tx_get :: "('s \<Rightarrow> 'a) \<Rightarrow> ('e, 's, 'a) tx" where
  "tx_get f s = Inr (f s, s)"

definition tx_modify :: "('s \<Rightarrow> 's) \<Rightarrow> ('e, 's, unit) tx" where
  "tx_modify f s = Inr ((), f s)"

text \<open>A Python \<^verbatim>\<open>for\<close> loop over a list of rows, whose body may raise.\<close>

fun tx_for :: "'a list \<Rightarrow> ('a \<Rightarrow> ('e, 's, unit) tx) \<Rightarrow> ('e, 's, unit) tx" where
  "tx_for [] f = tx_return ()"
| "tx_for (x # xs) f = tx_bind (f x) (\<lambda>_. tx_for xs f)"

text \<open>
  \<^verbatim>\<open>with sessions.begin() as session\<close>: a raised exception restores the state the
  transaction started from, a return commits.
\<close>

definition run_tx :: "('e, 's, 'a) tx \<Rightarrow> 's \<Rightarrow> ('e + 'a) \<times> 's" where
  "run_tx m s = (case m s of Inl e \<Rightarrow> (Inl e, s) | Inr (x, s') \<Rightarrow> (Inr x, s'))"

lemma tx_return_iff [tx_simps]: "tx_return x s = r \<longleftrightarrow> r = Inr (x, s)"
  by (auto simp: tx_return_def)

lemma tx_raise_iff [tx_simps]: "tx_raise e s = r \<longleftrightarrow> r = Inl e"
  by (auto simp: tx_raise_def)

lemma tx_get_iff [tx_simps]: "tx_get f s = r \<longleftrightarrow> r = Inr (f s, s)"
  by (auto simp: tx_get_def)

lemma tx_modify_iff [tx_simps]: "tx_modify f s = r \<longleftrightarrow> r = Inr ((), f s)"
  by (auto simp: tx_modify_def)

lemma tx_bind_Inr [tx_simps]:
  "tx_bind m f s = Inr r \<longleftrightarrow> (\<exists>x s'. m s = Inr (x, s') \<and> f x s' = Inr r)"
  by (auto simp: tx_bind_def split: sum.splits)

lemma tx_bind_Inl [tx_simps]:
  "tx_bind m f s = Inl e \<longleftrightarrow> m s = Inl e \<or> (\<exists>x s'. m s = Inr (x, s') \<and> f x s' = Inl e)"
  by (auto simp: tx_bind_def split: sum.splits)

lemma tx_bind_returns: "m s = Inr (x, s') \<Longrightarrow> tx_bind m f s = f x s'"
  by (simp add: tx_bind_def)

lemma tx_bind_raises: "m s = Inl e \<Longrightarrow> tx_bind m f s = Inl e"
  by (simp add: tx_bind_def)

lemma tx_get_bind [tx_simps]: "tx_bind (tx_get g) f s = f (g s) s"
  by (simp add: tx_bind_def tx_get_def)

lemma tx_modify_bind [tx_simps]: "tx_bind (tx_modify g) f s = f () (g s)"
  by (simp add: tx_bind_def tx_modify_def)

lemma run_tx_raise: "m s = Inl e \<Longrightarrow> run_tx m s = (Inl e, s)"
  by (simp add: run_tx_def)

lemma run_tx_return: "m s = Inr (x, s') \<Longrightarrow> run_tx m s = (Inr x, s')"
  by (simp add: run_tx_def)

text \<open>A loop keeps what each round keeps.\<close>

lemma tx_for_invariant:
  assumes "tx_for xs f s = Inr (u, s')" and "P s"
    and "\<And>x s u s'. x \<in> set xs \<Longrightarrow> P s \<Longrightarrow> f x s = Inr (u, s') \<Longrightarrow> P s'"
  shows "P s'"
  using assms
proof (induction xs arbitrary: s)
  case Nil
  then show ?case by (simp add: tx_return_iff)
next
  case (Cons x xs)
  then obtain v t where step: "f x s = Inr (v, t)" and rest: "tx_for xs f t = Inr (u, s')"
    by (auto simp: tx_bind_Inr)
  have "P t" using Cons.prems(2,3) step by auto
  from Cons.IH [OF rest this] Cons.prems(3) show ?case by auto
qed

section \<open>Keyed rows\<close>

text \<open>
  A table is the list of its rows in insertion order. A row is found by its primary key and
  updated in place; the interface below is what the components use of each table.
\<close>

definition find_row :: "('r \<Rightarrow> 'k) \<Rightarrow> 'k \<Rightarrow> 'r list \<Rightarrow> 'r option" where
  "find_row key k rs = find (\<lambda>r. key r = k) rs"

definition set_row :: "('r \<Rightarrow> 'k) \<Rightarrow> 'k \<Rightarrow> ('r \<Rightarrow> 'r) \<Rightarrow> 'r list \<Rightarrow> 'r list" where
  "set_row key k f rs = map (\<lambda>r. if key r = k then f r else r) rs"

locale keyed_rows =
  fixes key :: "'r \<Rightarrow> 'k"
    and lookup :: "'k \<Rightarrow> 'r list \<Rightarrow> 'r option"
    and update :: "'k \<Rightarrow> ('r \<Rightarrow> 'r) \<Rightarrow> 'r list \<Rightarrow> 'r list"
  assumes lookup_Some: "lookup k rs = Some r \<Longrightarrow> r \<in> set rs \<and> key r = k"
    and lookup_None: "lookup k rs = None \<Longrightarrow> k \<notin> key ` set rs"
    and update_rows: "update k f rs = map (\<lambda>r. if key r = k then f r else r) rs"
begin

lemma lookup_unique:
  assumes "distinct (map key rs)" and "r \<in> set rs"
  shows "lookup (key r) rs = Some r"
proof (cases "lookup (key r) rs")
  case None
  with lookup_None [OF None] assms(2) show ?thesis by auto
next
  case (Some r')
  with lookup_Some [OF Some] assms show ?thesis
    by (auto simp: distinct_map dest: inj_onD)
qed

lemma lookup_iff:
  assumes "distinct (map key rs)"
  shows "lookup k rs = Some r \<longleftrightarrow> r \<in> set rs \<and> key r = k"
  using assms lookup_Some lookup_unique by blast

lemma lookup_None_iff: "lookup k rs = None \<longleftrightarrow> k \<notin> key ` set rs"
  using lookup_None lookup_Some by (cases "lookup k rs") force+

lemma update_keys:
  assumes "\<And>r. key (f r) = key r"
  shows "map key (update k f rs) = map key rs"
  by (induction rs) (simp_all add: update_rows assms)

lemma update_set:
  assumes "distinct (map key rs)" and "r \<in> set rs"
  shows "set (update (key r) f rs) = insert (f r) (set rs - {r})"
proof -
  have "key x = key r \<longleftrightarrow> x = r" if "x \<in> set rs" for x
    using that assms by (auto simp: distinct_map dest: inj_onD)
  then show ?thesis using assms(2) by (auto simp: update_rows)
qed

lemma update_same:
  assumes "distinct (map key rs)" and "r \<in> set rs" and "\<And>r. key (f r) = key r"
  shows "lookup (key r) (update (key r) f rs) = Some (f r)"
proof -
  have "distinct (map key (update (key r) f rs))" using assms(1,3) by (simp add: update_keys)
  moreover have "f r \<in> set (update (key r) f rs)" using assms(1,2) by (simp add: update_set)
  ultimately have "lookup (key (f r)) (update (key r) f rs) = Some (f r)"
    by (rule lookup_unique)
  then show ?thesis by (simp add: assms(3))
qed

text \<open>Replacing one row by a row with the same key.\<close>

lemma replace_set:
  assumes "distinct (map key rs)" and "r \<in> set rs" and "key r' = key r"
  shows "set (update (key r) (\<lambda>_. r') rs) = insert r' (set rs - {r})"
  using assms by (simp add: update_set)

lemma replace_map:
  assumes "distinct (map key rs)" and "r \<in> set rs" and "g r' = g r"
  shows "map g (update (key r) (\<lambda>_. r') rs) = map g rs"
proof -
  have "x = r" if "x \<in> set rs" "key x = key r" for x
    using that assms by (auto simp: distinct_map dest: inj_onD)
  then show ?thesis using assms(3) by (auto simp: update_rows)
qed

lemma update_as_replace:
  assumes "distinct (map key rs)" and "r \<in> set rs"
  shows "update (key r) f rs = update (key r) (\<lambda>_. f r) rs"
proof -
  have "x = r" if "x \<in> set rs" "key x = key r" for x
    using that assms by (auto simp: distinct_map dest: inj_onD)
  then show ?thesis by (auto simp: update_rows)
qed

lemma replace_lookup:
  assumes "distinct (map key rs)" and "r \<in> set rs" and "key r' = key r"
  shows "lookup k (update (key r) (\<lambda>_. r') rs) = (if k = key r then Some r' else lookup k rs)"
proof -
  let ?rs = "update (key r) (\<lambda>_. r') rs"
  have keys: "map key ?rs = map key rs" using assms by (intro replace_map)
  then have dist: "distinct (map key ?rs)" using assms(1) by simp
  have rows: "set ?rs = insert r' (set rs - {r})" using assms by (rule replace_set)
  show ?thesis
  proof (cases "k = key r")
    case True
    with lookup_unique [OF dist, of r'] rows assms(3) show ?thesis by simp
  next
    case False
    then have "lookup k ?rs = Some x \<longleftrightarrow> lookup k rs = Some x" for x
      unfolding lookup_iff [OF dist] lookup_iff [OF assms(1)] rows using assms(3) by auto
    then have "lookup k ?rs = lookup k rs" by (metis not_Some_eq)
    with False show ?thesis by simp
  qed
qed

lemma update_absent: "k \<notin> key ` set rs \<Longrightarrow> update k f rs = rs"
  by (auto simp: update_rows intro!: map_idI)

lemma update_length: "length (update k f rs) = length rs"
  by (simp add: update_rows)

end

lemma find_row_Some: "find_row key k rs = Some r \<Longrightarrow> r \<in> set rs \<and> key r = k"
  by (auto simp: find_row_def find_Some_iff)

lemma find_row_None: "find_row key k rs = None \<Longrightarrow> k \<notin> key ` set rs"
  by (auto simp: find_row_def find_None_iff)

section \<open>Step relations and invariants\<close>

text \<open>
  A step relation with an invariant every step keeps. Facts about runs are proved once here:
  the invariant holds along a run, and so does whatever single steps keep under it.
\<close>

locale invariant_system =
  fixes step :: "'s \<Rightarrow> 's \<Rightarrow> bool" and inv :: "'s \<Rightarrow> bool"
  assumes step_inv: "inv s \<Longrightarrow> step s s' \<Longrightarrow> inv s'"
begin

lemma run_inv:
  assumes "step\<^sup>*\<^sup>* s s'" and "inv s"
  shows "inv s'"
  using assms by induction (auto intro: step_inv)

lemma run_keeps:
  assumes "step\<^sup>*\<^sup>* s s'" and "inv s" and "P s"
    and keep: "\<And>s s'. inv s \<Longrightarrow> step s s' \<Longrightarrow> P s \<Longrightarrow> P s'"
  shows "P s'"
  using assms(1)
proof induction
  case base
  show ?case by (rule assms(3))
next
  case (step t u)
  then show ?case using run_inv [OF step.hyps(1) assms(2)] by (blast intro: keep)
qed

end

section \<open>Lists\<close>

lemma filter_map_same:
  assumes "\<And>x. x \<in> set xs \<Longrightarrow> P (f x) = P x"
  shows "filter P (map f xs) = map f (filter P xs)"
  using assms by (induction xs) auto

lemma sorted_hd_least:
  assumes "xs \<noteq> []" and "sorted (map k xs)" and "y \<in> set xs"
  shows "k (hd xs) \<le> k y"
  using assms by (cases xs) auto

lemma find_Some_hd: "find P xs = Some x \<Longrightarrow> filter P xs \<noteq> [] \<and> x = hd (filter P xs)"
  by (induction xs) (auto split: if_splits)

lemma distinct_map_append_single:
  "distinct (map f (xs @ [x])) \<longleftrightarrow> distinct (map f xs) \<and> f x \<notin> f ` set xs"
  by auto

lemma count_filter_le: "(\<And>x. x \<in> set xs \<Longrightarrow> P x \<Longrightarrow> Q x)
  \<Longrightarrow> length (filter P xs) \<le> length (filter Q xs)"
  by (induction xs) (auto simp: le_SucI)

section \<open>Time\<close>

text \<open>
  Timestamps are the microseconds of PostgreSQL's \<^verbatim>\<open>timestamptz\<close> and Python's
  \<^verbatim>\<open>datetime\<close>. Durations in seconds are Python floats, modelled by the rationals they
  denote. \<^verbatim>\<open>timedelta(seconds=x)\<close> rounds to whole microseconds, ties to even.
\<close>

type_synonym timestamp = int
type_synonym seconds = rat

definition round_half_even :: "rat \<Rightarrow> int" where
  "round_half_even x =
     (let f = \<lfloor>x\<rfloor>; d = x - of_int f
      in if d < 1 / 2 then f else if 1 / 2 < d then f + 1 else if even f then f else f + 1)"

definition timedelta :: "seconds \<Rightarrow> int" where
  "timedelta s = round_half_even (s * 1000000)"

lemma round_half_even_near:
  "of_int (round_half_even x) - 1 / 2 \<le> x \<and> x \<le> of_int (round_half_even x) + 1 / 2"
proof -
  have lo: "of_int \<lfloor>x\<rfloor> \<le> x" and hi: "x < of_int \<lfloor>x\<rfloor> + 1"
    by linarith+
  show ?thesis
    unfolding round_half_even_def Let_def using lo hi by (simp split: if_splits) linarith
qed

lemma round_half_even_of_int [simp]: "round_half_even (of_int n) = n"
  by (simp add: round_half_even_def)

lemma round_half_even_mono:
  assumes "x \<le> y"
  shows "round_half_even x \<le> round_half_even y"
proof (rule ccontr)
  let ?a = "of_int (round_half_even x) :: rat" and ?b = "of_int (round_half_even y) :: rat"
  assume less: "\<not> round_half_even x \<le> round_half_even y"
  then have "round_half_even y + 1 \<le> round_half_even x" by simp
  then have "of_int (round_half_even y + 1) \<le> ?a" by (simp only: of_int_le_iff)
  then have "?b + 1 \<le> ?a" by simp
  with round_half_even_near [of x] round_half_even_near [of y] assms have "x = y" by linarith
  with less show False by simp
qed

lemma timedelta_mono: "x \<le> y \<Longrightarrow> timedelta x \<le> timedelta y"
  unfolding timedelta_def by (intro round_half_even_mono mult_right_mono) simp_all

lemma timedelta_0 [simp]: "timedelta 0 = 0"
  using round_half_even_of_int [of 0] by (simp add: timedelta_def)

lemma timedelta_of_int: "timedelta (of_int n) = n * 1000000"
proof -
  have "(of_int n :: rat) * 1000000 = of_int (n * 1000000)" by simp
  then show ?thesis unfolding timedelta_def by (simp only: round_half_even_of_int)
qed

lemma timedelta_numeral [simp]: "timedelta (numeral n) = numeral n * 1000000"
  using timedelta_of_int [of "numeral n"] by simp

lemma timedelta_nonneg: "0 \<le> x \<Longrightarrow> 0 \<le> timedelta x"
  using timedelta_mono [of 0 x] by simp

end
