(* ===== verification/Json.thy ===== *)
theory Json
  imports Prelude
begin

text \<open>
  JSON values as the Python program holds them (\<^verbatim>\<open>dict[str, Any]\<close>), the encoder
  \<^verbatim>\<open>json.dumps\<close> in the two modes the program calls it in, Python's \<^verbatim>\<open>==\<close> on decoded
  values, and \<^verbatim>\<open>storable\<close> of \<^verbatim>\<open>greyqueue/protocol.py\<close>. Strings are lists of code points
  below 256. A float is the rational it denotes, \<open>JNaN\<close> or \<open>JInf\<close>; the shortest
  decimal text of a float (\<^verbatim>\<open>float.__repr__\<close>) is the parameter \<open>fr\<close> of the encoder.
\<close>

section \<open>Numerals, UUIDs and ISO timestamps\<close>

definition digit_char :: "nat \<Rightarrow> char" where
  "digit_char n = ''0123456789abcdef'' ! (n mod 16)"

fun nat_text :: "nat \<Rightarrow> string" where
  "nat_text n = (if n < 10 then [digit_char n] else nat_text (n div 10) @ [digit_char (n mod 10)])"

declare nat_text.simps [simp del]

definition int_text :: "int \<Rightarrow> string" where
  "int_text i = (if i < 0 then ''-'' @ nat_text (nat (- i)) else nat_text (nat i))"

fun padded :: "nat \<Rightarrow> nat \<Rightarrow> nat \<Rightarrow> string" where
  "padded base 0 n = []"
| "padded base (Suc w) n = padded base w (n div base) @ [digit_char (n mod base)]"

type_synonym uuid = nat

text \<open>\<^verbatim>\<open>str(UUID)\<close>: 32 hexadecimal digits in groups of 8, 4, 4, 4 and 12.\<close>

definition uuid_text :: "uuid \<Rightarrow> string" where
  "uuid_text u =
     (let h = padded 16 32 u
      in take 8 h @ ''-'' @ take 4 (drop 8 h) @ ''-'' @ take 4 (drop 12 h) @ ''-''
         @ take 4 (drop 16 h) @ ''-'' @ drop 20 h)"

text \<open>The proleptic Gregorian date of a day number (days since 1970-01-01).\<close>

definition civil_date :: "int \<Rightarrow> int \<times> int \<times> int" where
  "civil_date days =
     (let z = days + 719468; era = z div 146097; doe = z - era * 146097;
          yoe = (doe - doe div 1460 + doe div 36524 - doe div 146096) div 365;
          doy = doe - (365 * yoe + yoe div 4 - yoe div 100);
          mp = (5 * doy + 2) div 153;
          d = doy - (153 * mp + 2) div 5 + 1;
          m = (if mp < 10 then mp + 3 else mp - 9);
          y = yoe + era * 400 + (if m \<le> 2 then 1 else 0)
      in (y, m, d))"

text \<open>\<^verbatim>\<open>datetime.isoformat()\<close> of a UTC datetime.\<close>

definition isoformat :: "timestamp \<Rightarrow> string" where
  "isoformat t =
     (let us = t mod 1000000; secs = t div 1000000; sod = secs mod 86400;
          (y, m, d) = civil_date (secs div 86400)
      in padded 10 4 (nat y) @ ''-'' @ padded 10 2 (nat m) @ ''-'' @ padded 10 2 (nat d) @ ''T''
         @ padded 10 2 (nat (sod div 3600)) @ '':'' @ padded 10 2 (nat (sod div 60 mod 60)) @ '':''
         @ padded 10 2 (nat (sod mod 60))
         @ (if us = 0 then [] else ''.'' @ padded 10 6 (nat us)) @ ''+00:00'')"

section \<open>Values\<close>

datatype json =
    JNull
  | JBool bool
  | JInt int
  | JFloat rat
  | JNaN
  | JInf bool
  | JStr string
  | JArr "json list"
  | JObj "(string \<times> json) list"

text \<open>Python's \<^verbatim>\<open>==\<close> compares booleans, integers and floats by value.\<close>

fun num_value :: "json \<Rightarrow> rat option" where
  "num_value (JBool b) = Some (if b then 1 else 0)"
| "num_value (JInt i) = Some (of_int i)"
| "num_value (JFloat r) = Some r"
| "num_value _ = None"

fun json_eq :: "json \<Rightarrow> json \<Rightarrow> bool"
  and arr_eq :: "json list \<Rightarrow> json list \<Rightarrow> bool"
  and obj_le :: "(string \<times> json) list \<Rightarrow> (string \<times> json) list \<Rightarrow> bool" where
  "json_eq JNull y = (y = JNull)"
| "json_eq (JBool b) y = (num_value y = num_value (JBool b))"
| "json_eq (JInt i) y = (num_value y = num_value (JInt i))"
| "json_eq (JFloat r) y = (num_value y = num_value (JFloat r))"
| "json_eq JNaN y = False"
| "json_eq (JInf b) y = (y = JInf b)"
| "json_eq (JStr s) y = (y = JStr s)"
| "json_eq (JArr xs) y = (case y of JArr ys \<Rightarrow> arr_eq xs ys | _ \<Rightarrow> False)"
| "json_eq (JObj xs) y = (case y of JObj ys \<Rightarrow> length xs = length ys \<and> obj_le xs ys | _ \<Rightarrow> False)"
| "arr_eq [] ys = (ys = [])"
| "arr_eq (x # xs) ys = (case ys of [] \<Rightarrow> False | y # ys' \<Rightarrow> json_eq x y \<and> arr_eq xs ys')"
| "obj_le [] ys = True"
| "obj_le ((k, x) # xs) ys =
     ((case map_of ys k of None \<Rightarrow> False | Some y \<Rightarrow> json_eq x y) \<and> obj_le xs ys)"

text \<open>
  A value a dictionary can hold: no key twice. \<open>nan_free\<close> excludes the one float that is
  not equal to itself.
\<close>

fun nan_free :: "json \<Rightarrow> bool"
  and nan_free_arr :: "json list \<Rightarrow> bool"
  and nan_free_obj :: "(string \<times> json) list \<Rightarrow> bool" where
  "nan_free JNaN = False"
| "nan_free (JArr xs) = nan_free_arr xs"
| "nan_free (JObj xs) = (distinct (map fst xs) \<and> nan_free_obj xs)"
| "nan_free _ = True"
| "nan_free_arr [] = True"
| "nan_free_arr (x # xs) = (nan_free x \<and> nan_free_arr xs)"
| "nan_free_obj [] = True"
| "nan_free_obj ((k, x) # xs) = (nan_free x \<and> nan_free_obj xs)"

lemma nan_free_lists:
  "nan_free_arr xs \<longleftrightarrow> (\<forall>x \<in> set xs. nan_free x)"
  "nan_free_obj ps \<longleftrightarrow> (\<forall>p \<in> set ps. nan_free (snd p))"
  by (induction xs) (auto, (induction ps; auto)+)

lemma obj_le_refl_gen:
  assumes "set xs \<subseteq> set ys" and "distinct (map fst ys)"
    and "\<And>p. p \<in> set xs \<Longrightarrow> json_eq (snd p) (snd p)"
  shows "obj_le xs ys"
  using assms
proof (induction xs)
  case (Cons p xs)
  then have "map_of ys (fst p) = Some (snd p)" and "json_eq (snd p) (snd p)" by auto
  with Cons show ?case by (cases p) auto
qed simp

lemma json_eq_refl: "nan_free v \<Longrightarrow> json_eq v v"
proof (induction v)
  case (JArr xs)
  then have "\<And>x. x \<in> set xs \<Longrightarrow> json_eq x x" by (auto simp: nan_free_lists)
  then have "arr_eq xs xs" by (induction xs) auto
  then show ?case by simp
next
  case (JObj xs)
  then have each: "json_eq (snd p) (snd p)" if "p \<in> set xs" for p
    using that JObj.IH [of p "snd p"] JObj.prems by (cases p) (force simp: nan_free_lists)
  have "obj_le xs xs" by (rule obj_le_refl_gen) (use JObj.prems each in auto)
  then show ?case by simp
qed auto

section \<open>Encoding\<close>

text \<open>
  \<^verbatim>\<open>json.dumps\<close> with its defaults: separators \<^verbatim>\<open>", "\<close> and \<^verbatim>\<open>": "\<close>, every character
  outside the printable ASCII range written as an escape. With \<^verbatim>\<open>allow_nan=False\<close>, the
  only mode the program uses, NaN and the infinities raise (\<open>None\<close>).
\<close>

definition escape_char :: "char \<Rightarrow> string" where
  "escape_char c =
     (let n = of_char c :: nat in
      if c = CHR 0x22 then [CHR 0x5C, CHR 0x22]
      else if c = CHR 0x5C then [CHR 0x5C, CHR 0x5C]
      else if n = 10 then [CHR 0x5C, CHR ''n'']
      else if n = 13 then [CHR 0x5C, CHR ''r'']
      else if n = 9 then [CHR 0x5C, CHR ''t'']
      else if n = 12 then [CHR 0x5C, CHR ''f'']
      else if n = 8 then [CHR 0x5C, CHR ''b'']
      else if 32 \<le> n \<and> n \<le> 126 then [c]
      else CHR 0x5C # CHR ''u'' # padded 16 4 n)"

definition quoted :: "string \<Rightarrow> string" where
  "quoted s = [CHR 0x22] @ concat (map escape_char s) @ [CHR 0x22]"

fun join :: "string \<Rightarrow> string list \<Rightarrow> string" where
  "join sep [] = []"
| "join sep [x] = x"
| "join sep (x # y # xs) = x @ sep @ join sep (y # xs)"

definition encoded_member :: "string \<times> string \<Rightarrow> string" where
  "encoded_member p = quoted (fst p) @ '': '' @ snd p"

fun dumps :: "(rat \<Rightarrow> string) \<Rightarrow> bool \<Rightarrow> json \<Rightarrow> string option"
  and dumps_arr :: "(rat \<Rightarrow> string) \<Rightarrow> bool \<Rightarrow> json list \<Rightarrow> string list option"
  and dumps_obj :: "(rat \<Rightarrow> string) \<Rightarrow> bool \<Rightarrow> (string \<times> json) list \<Rightarrow> (string \<times> string) list option"
  where
  "dumps fr sk JNull = Some ''null''"
| "dumps fr sk (JBool b) = Some (if b then ''true'' else ''false'')"
| "dumps fr sk (JInt i) = Some (int_text i)"
| "dumps fr sk (JFloat r) = Some (fr r)"
| "dumps fr sk JNaN = None"
| "dumps fr sk (JInf b) = None"
| "dumps fr sk (JStr s) = Some (quoted s)"
| "dumps fr sk (JArr xs) = map_option (\<lambda>es. ''['' @ join '', '' es @ '']'') (dumps_arr fr sk xs)"
| "dumps fr sk (JObj xs) =
     map_option (\<lambda>es. [CHR 0x7B]
         @ join '', '' (map encoded_member (if sk then sort_key fst es else es)) @ [CHR 0x7D])
       (dumps_obj fr sk xs)"
| "dumps_arr fr sk [] = Some []"
| "dumps_arr fr sk (x # xs) =
     (case dumps fr sk x of None \<Rightarrow> None | Some e \<Rightarrow> map_option (Cons e) (dumps_arr fr sk xs))"
| "dumps_obj fr sk [] = Some []"
| "dumps_obj fr sk ((k, x) # xs) =
     (case dumps fr sk x of None \<Rightarrow> None | Some e \<Rightarrow> map_option (Cons (k, e)) (dumps_obj fr sk xs))"

text \<open>Whether a string or a key anywhere in the value holds the NUL character.\<close>

fun has_nul :: "json \<Rightarrow> bool"
  and has_nul_arr :: "json list \<Rightarrow> bool"
  and has_nul_obj :: "(string \<times> json) list \<Rightarrow> bool" where
  "has_nul (JStr s) = (CHR 0x00 \<in> set s)"
| "has_nul (JArr xs) = has_nul_arr xs"
| "has_nul (JObj xs) = has_nul_obj xs"
| "has_nul _ = False"
| "has_nul_arr [] = False"
| "has_nul_arr (x # xs) = (has_nul x \<or> has_nul_arr xs)"
| "has_nul_obj [] = False"
| "has_nul_obj ((k, x) # xs) = (CHR 0x00 \<in> set k \<or> has_nul x \<or> has_nul_obj xs)"

text \<open>The text the encoder writes for NUL, which \<^verbatim>\<open>storable\<close> searches for.\<close>

definition nul_escape :: string where
  "nul_escape = CHR 0x5C # ''u0000''"

lemma escape_char_nul: "escape_char (CHR 0x00) = nul_escape"
  by code_simp

lemma quoted_nul: "CHR 0x00 \<in> set s \<Longrightarrow> sublist nul_escape (quoted s)"
proof -
  assume "CHR 0x00 \<in> set s"
  then obtain as bs where "s = as @ CHR 0x00 # bs" by (meson split_list)
  then have "quoted s = ([CHR 0x22] @ concat (map escape_char as)) @ nul_escape
      @ (concat (map escape_char bs) @ [CHR 0x22])"
    by (simp add: quoted_def escape_char_nul)
  then show ?thesis by (metis sublist_appendI)
qed

lemma sublist_wrapped: "sublist x ys \<Longrightarrow> sublist x (a @ ys @ b)"
  unfolding sublist_def by (metis append.assoc)

lemma sublist_join: "x \<in> set xs \<Longrightarrow> sublist x (join sep xs)"
proof (induction sep xs rule: join.induct)
  case (3 sep y z zs)
  show ?case
  proof (cases "x = y")
    case True
    then show ?thesis by (simp add: sublist_appendI [of y "[]", simplified])
  next
    case False
    then have "sublist x (join sep (z # zs))" using 3 by auto
    then show ?thesis by (simp add: sublist_append)
  qed
qed auto

lemma sublist_encoded_member:
  "sublist x (quoted (fst p)) \<or> sublist x (snd p) \<Longrightarrow> sublist x (encoded_member p)"
  using sublist_wrapped [of x "quoted (fst p)" "[]" "'': '' @ snd p"]
    sublist_wrapped [of x "snd p" "quoted (fst p) @ '': ''" "[]"]
  by (auto simp: encoded_member_def)

lemma dumps_nul:
  shows "dumps fr sk v = Some e \<Longrightarrow> has_nul v \<Longrightarrow> sublist nul_escape e"
    and "dumps_arr fr sk xs = Some es \<Longrightarrow> has_nul_arr xs \<Longrightarrow> \<exists>x \<in> set es. sublist nul_escape x"
    and "dumps_obj fr sk ps = Some qs \<Longrightarrow> has_nul_obj ps
      \<Longrightarrow> \<exists>q \<in> set qs. sublist nul_escape (quoted (fst q)) \<or> sublist nul_escape (snd q)"
proof (induction fr sk v and fr sk xs and fr sk ps arbitrary: e and es and qs
    rule: dumps_dumps_arr_dumps_obj.induct)
  case (8 fr sk xs)
  then obtain es x where "e = ''['' @ join '', '' es @ '']''" and "x \<in> set es"
    and "sublist nul_escape x" by auto
  then show ?case
    using sublist_join [of x es "'', ''"] sublist_wrapped sublist_order.order.trans by blast
next
  case (9 fr sk xs)
  then obtain qs where qs: "dumps_obj fr sk xs = Some qs" by auto
  define rs where "rs = map encoded_member (if sk then sort_key fst qs else qs)"
  from qs 9 have e: "e = [CHR 0x7B] @ join '', '' rs @ [CHR 0x7D]" by (simp add: rs_def)
  from qs 9 obtain q where "q \<in> set qs" and "sublist nul_escape (quoted (fst q)) \<or> sublist nul_escape (snd q)"
    by auto
  then have "encoded_member q \<in> set rs" and "sublist nul_escape (encoded_member q)"
    by (auto simp: rs_def intro: sublist_encoded_member)
  then show ?case
    unfolding e using sublist_join sublist_wrapped sublist_order.order.trans by blast
qed (auto simp: quoted_nul split: option.splits)

section \<open>storable\<close>

text \<open>
  \<^verbatim>\<open>storable(value, limit, label)\<close> of \<^verbatim>\<open>protocol.py\<close>: the encoding, or the message of the
  \<^verbatim>\<open>ValueError\<close> it raises.
\<close>

definition storable :: "(rat \<Rightarrow> string) \<Rightarrow> json \<Rightarrow> nat \<Rightarrow> string \<Rightarrow> string + string" where
  "storable fr v limit label =
     (case dumps fr False v of
        None \<Rightarrow> Inl ''Out of range float values are not JSON compliant''
      | Some encoded \<Rightarrow>
          if limit < length encoded then Inl (label @ '' too large'')
          else if sublist nul_escape encoded then Inl (label @ '' must not contain NUL characters'')
          else Inr encoded)"

lemma storable_Inr:
  "storable fr v limit label = Inr e \<longleftrightarrow>
     dumps fr False v = Some e \<and> length e \<le> limit \<and> \<not> sublist nul_escape e"
  by (auto simp: storable_def split: option.splits)

end
