(* ===== verification/Tasks.thy ===== *)
theory Tasks
  imports Json
begin

text \<open>
  \<^verbatim>\<open>greyqueue/tasks.py\<close>: the registry of executable tasks, the validation of their arguments
  and their execution. The argument classes are pydantic models; pydantic itself is not part
  of the repository, so \<open>model_validate\<close> is a field of the environment record and
  \<open>strict_models\<close> names the documented behaviour the program relies on.
\<close>

section \<open>Argument models\<close>

datatype field_type = FloatT | IntT | StrT

record field_spec =
  fs_name :: string
  fs_type :: field_type
  fs_ge :: "rat option"
  fs_le :: "rat option"
  fs_max_length :: "nat option"

text \<open>The declarations \<^verbatim>\<open>SleepArgs\<close>, \<^verbatim>\<open>PiArgs\<close>, \<^verbatim>\<open>HashArgs\<close> and \<^verbatim>\<open>FlakyArgs\<close>.\<close>

definition SleepArgs :: "field_spec list" where
  "SleepArgs = [\<lparr>fs_name = ''seconds'', fs_type = FloatT, fs_ge = Some 0, fs_le = Some 5,
                 fs_max_length = None\<rparr>]"

definition PiArgs :: "field_spec list" where
  "PiArgs = [\<lparr>fs_name = ''iterations'', fs_type = IntT, fs_ge = Some 1, fs_le = Some 1000000,
              fs_max_length = None\<rparr>]"

definition HashArgs :: "field_spec list" where
  "HashArgs = [\<lparr>fs_name = ''text'', fs_type = StrT, fs_ge = None, fs_le = None,
                fs_max_length = Some 10000\<rparr>]"

definition FlakyArgs :: "field_spec list" where
  "FlakyArgs = [\<lparr>fs_name = ''failures'', fs_type = IntT, fs_ge = Some 0, fs_le = Some 10,
                 fs_max_length = None\<rparr>]"

definition REGISTRY :: "(string \<times> field_spec list) list" where
  "REGISTRY = [(''flaky'', FlakyArgs), (''sleep'', SleepArgs), (''calculate_pi'', PiArgs),
               (''hash_text'', HashArgs)]"

text \<open>
  The functions the program calls outside its own sources: \<^verbatim>\<open>hashlib.sha256(...).hexdigest()\<close>,
  the text of a float, the double nearest to a number, the builtin \<^verbatim>\<open>sum\<close> of floats, \<^verbatim>\<open>isoformat()\<close> of a timestamp the database driver returns (in the time
  zone of its connection), and \<^verbatim>\<open>model_validate(args).model_dump()\<close> of a pydantic model.
\<close>

record env =
  sha256 :: "string \<Rightarrow> string"
  float_repr :: "rat \<Rightarrow> string"
  float_of :: "rat \<Rightarrow> rat"
  float_sum :: "rat list \<Rightarrow> rat"
  driver_isoformat :: "timestamp \<Rightarrow> string"
  model_validate :: "field_spec list \<Rightarrow> json \<Rightarrow> exn + json"

text \<open>A dumped model: exactly the declared fields, in order, each of its type and in range.\<close>

definition in_range :: "field_spec \<Rightarrow> rat \<Rightarrow> bool" where
  "in_range f x \<longleftrightarrow> (case fs_ge f of None \<Rightarrow> True | Some b \<Rightarrow> b \<le> x)
     \<and> (case fs_le f of None \<Rightarrow> True | Some b \<Rightarrow> x \<le> b)"

fun field_ok :: "field_spec \<Rightarrow> json \<Rightarrow> bool" where
  "field_ok f (JFloat x) = (fs_type f = FloatT \<and> in_range f x)"
| "field_ok f (JInt i) = (fs_type f = IntT \<and> in_range f (of_int i))"
| "field_ok f (JStr s) =
     (fs_type f = StrT \<and> (case fs_max_length f of None \<Rightarrow> True | Some n \<Rightarrow> length s \<le> n))"
| "field_ok f _ = False"

fun conforms :: "field_spec list \<Rightarrow> json \<Rightarrow> bool" where
  "conforms spec (JObj kvs) =
     (map fst kvs = map fs_name spec \<and> list_all2 (\<lambda>f kv. field_ok f (snd kv)) spec kvs)"
| "conforms spec _ = False"

text \<open>
  What the program relies on of a strict model that forbids extra fields: a dumped model
  conforms to its declaration, a conforming value is accepted unchanged, and a rejection is a
  \<^verbatim>\<open>ValidationError\<close>.
\<close>

definition strict_models :: "env \<Rightarrow> bool" where
  "strict_models env \<longleftrightarrow>
     (\<forall>spec a r. model_validate env spec a = Inr r \<longrightarrow> conforms spec r)
     \<and> (\<forall>spec a. conforms spec a \<longrightarrow> model_validate env spec a = Inr a)
     \<and> (\<forall>spec a e. model_validate env spec a = Inl e \<longrightarrow> (\<exists>t es. e = ValidationError t es))"

section \<open>Operations\<close>

text \<open>\<^verbatim>\<open>str(exc)\<close> and \<^verbatim>\<open>type(exc).__name__\<close>.\<close>

fun exn_text :: "exn \<Rightarrow> string" where
  "exn_text (Conflict m) = m"
| "exn_text (Missing m) = m"
| "exn_text (Saturated m) = m"
| "exn_text (Invalid m f) = m"
| "exn_text (ValidationError t es) = t"
| "exn_text (ValueError m) = m"
| "exn_text (RetryableTaskError m) = m"
| "exn_text (TypeError m) = m"
| "exn_text (KeyError m) = m"
| "exn_text (IntegrityError m) = m"
| "exn_text (HTTPException n d) = nat_text n @ '': '' @ (case d of Detail m \<Rightarrow> m | Errors es \<Rightarrow> [])"

fun exn_name :: "exn \<Rightarrow> string" where
  "exn_name (Conflict m) = ''Conflict''"
| "exn_name (Missing m) = ''Missing''"
| "exn_name (Saturated m) = ''Saturated''"
| "exn_name (Invalid m f) = ''Invalid''"
| "exn_name (ValidationError t es) = ''ValidationError''"
| "exn_name (ValueError m) = ''ValueError''"
| "exn_name (RetryableTaskError m) = ''RetryableTaskError''"
| "exn_name (TypeError m) = ''TypeError''"
| "exn_name (KeyError m) = ''KeyError''"
| "exn_name (IntegrityError m) = ''IntegrityError''"
| "exn_name (HTTPException n m) = ''HTTPException''"

definition message :: "exn \<Rightarrow> string" where
  "message e = take 4000 (if exn_text e = [] then exn_name e else exn_text e)"

definition validate :: "env \<Rightarrow> string \<Rightarrow> json \<Rightarrow> exn + json" where
  "validate env task args =
     (case map_of REGISTRY task of
        None \<Rightarrow> Inl (ValueError (''Unknown task: '' @ task))
      | Some spec \<Rightarrow> model_validate env spec args)"

text \<open>\<^verbatim>\<open>args[name]\<close> of a decoded object.\<close>

definition obj_get :: "json \<Rightarrow> string \<Rightarrow> exn + json" where
  "obj_get v name =
     (case v of JObj kvs \<Rightarrow> (case map_of kvs name of None \<Rightarrow> Inl (KeyError name) | Some x \<Rightarrow> Inr x)
      | _ \<Rightarrow> Inl (TypeError ''not subscriptable''))"

text \<open>The terms of the Leibniz series that \<^verbatim>\<open>calculate_pi\<close> adds up, each a float division.\<close>

definition leibniz_terms :: "env \<Rightarrow> int \<Rightarrow> rat list" where
  "leibniz_terms env n =
     map (\<lambda>k. float_of env ((if odd k then - 1 else 1) / of_int (2 * k + 1))) [0..n - 1]"

text \<open>
  \<^verbatim>\<open>execute(task, args, attempt)\<close>: the exception, or the seconds slept and the output.
\<close>

definition execute :: "env \<Rightarrow> string \<Rightarrow> json \<Rightarrow> int \<Rightarrow> exn + rat \<times> json" where
  "execute env task raw attempt =
     (case validate env task raw of
        Inl e \<Rightarrow> Inl e
      | Inr args \<Rightarrow>
          if task = ''flaky'' then
            (case obj_get args ''failures'' of
               Inl e \<Rightarrow> Inl e
             | Inr v \<Rightarrow> (case num_value v of
                 None \<Rightarrow> Inl (TypeError ''not supported'')
               | Some n \<Rightarrow>
                   if of_int attempt \<le> n
                   then Inl (RetryableTaskError ''Demonstration transient failure'')
                   else Inr (0, JObj [(''attempt'', JInt attempt), (''recovered'', JBool True)])))
          else if task = ''sleep'' then
            (case obj_get args ''seconds'' of
               Inl e \<Rightarrow> Inl e
             | Inr v \<Rightarrow> (case num_value v of
                 None \<Rightarrow> Inl (TypeError ''not a number'')
               | Some s \<Rightarrow> Inr (s, JObj [(''slept_seconds'', v)])))
          else if task = ''calculate_pi'' then
            (case obj_get args ''iterations'' of
               Inl e \<Rightarrow> Inl e
             | Inr (JInt n) \<Rightarrow>
                 Inr (0, JObj [(''pi'', JFloat (float_of env (4 * float_sum env (leibniz_terms env n)))), (''iterations'', JInt n)])
             | Inr v \<Rightarrow> Inl (TypeError ''not an integer''))
          else if task = ''hash_text'' then
            (case obj_get args ''text'' of
               Inl e \<Rightarrow> Inl e
             | Inr (JStr t) \<Rightarrow> Inr (0, JObj [(''sha256'', JStr (sha256 env t))])
             | Inr v \<Rightarrow> Inl (TypeError ''not a string''))
          else Inl (ValueError ''Unsupported task''))"

section \<open>Lemmas\<close>

lemmas args_defs = SleepArgs_def PiArgs_def HashArgs_def FlakyArgs_def

lemma registry_cases:
  "map_of REGISTRY task = Some spec \<longleftrightarrow>
     task = ''flaky'' \<and> spec = FlakyArgs \<or> task = ''sleep'' \<and> spec = SleepArgs
     \<or> task = ''calculate_pi'' \<and> spec = PiArgs \<or> task = ''hash_text'' \<and> spec = HashArgs"
  by (auto simp: REGISTRY_def)

lemma validate_Inr:
  "validate env task args = Inr r \<longleftrightarrow>
     (\<exists>spec. map_of REGISTRY task = Some spec \<and> model_validate env spec args = Inr r)"
  by (auto simp: validate_def split: option.splits)

lemma field_ok_cases:
  "field_ok f v \<longleftrightarrow> (case fs_type f of
      FloatT \<Rightarrow> (\<exists>x. v = JFloat x \<and> in_range f x)
    | IntT \<Rightarrow> (\<exists>i. v = JInt i \<and> in_range f (of_int i))
    | StrT \<Rightarrow> (\<exists>s. v = JStr s \<and> (case fs_max_length f of None \<Rightarrow> True | Some n \<Rightarrow> length s \<le> n)))"
  by (cases v) (auto split: field_type.splits)

lemma conforms_single:
  "conforms [f] v \<longleftrightarrow> (\<exists>x. v = JObj [(fs_name f, x)] \<and> field_ok f x)"
  by (cases v) (auto simp: list_all2_Cons1)

lemma validate_conforms:
  "strict_models env \<Longrightarrow> validate env task args = Inr r
     \<Longrightarrow> \<exists>spec. map_of REGISTRY task = Some spec \<and> conforms spec r"
  unfolding validate_Inr strict_models_def by blast

lemma message_bounded: "length (message e) \<le> 4000"
  by (simp add: message_def)

lemma message_nonempty: "message e \<noteq> []"
  by (cases e) (auto simp: message_def)

section \<open>Properties\<close>

text \<open>
  Arguments that passed validation pass it again unchanged, so what \<^verbatim>\<open>admit\<close> stores
  in the job row is what the worker's \<^verbatim>\<open>execute\<close> runs on.
\<close>

lemma validate_idempotent:
  assumes "strict_models env" and "validate env task args = Inr stored"
  shows "validate env task stored = Inr stored"
  using assms unfolding validate_Inr strict_models_def by blast

text \<open>A strict checker as a concrete instance of the assumed behaviour.\<close>

definition demo_env :: env where
  "demo_env = \<lparr>sha256 = (\<lambda>s. s), float_repr = (\<lambda>r. ''0.0''),
     float_of = (\<lambda>r. r), float_sum = sum_list, driver_isoformat = isoformat,
     model_validate = (\<lambda>spec a. if conforms spec a then Inr a
        else Inl (ValidationError ''1 validation error'' []))\<rparr>"

lemma demo_env_strict: "strict_models demo_env"
  by (simp add: strict_models_def demo_env_def)

text \<open>
  C33: on stored arguments \<^verbatim>\<open>execute\<close> never raises a permanent error: it returns an output,
  or raises the retryable error of the \<^verbatim>\<open>flaky\<close> task, and that exactly while the attempt
  number is at most the requested number of failures.
\<close>

theorem execute_stored_args:
  assumes strict: "strict_models env" and stored: "validate env task args = Inr stored"
  shows "(\<exists>slept out. execute env task stored attempt = Inr (slept, out) \<and> 0 \<le> slept \<and> slept \<le> 5)
    \<or> (\<exists>n. task = ''flaky'' \<and> stored = JObj [(''failures'', JInt n)] \<and> attempt \<le> n
         \<and> execute env task stored attempt
             = Inl (RetryableTaskError ''Demonstration transient failure''))"
proof -
  have again: "validate env task stored = Inr stored"
    using strict stored unfolding validate_Inr strict_models_def by blast
  obtain spec where spec: "map_of REGISTRY task = Some spec" and conf: "conforms spec stored"
    using validate_conforms [OF strict stored] by blast
  from spec consider (flaky) "task = ''flaky''" "spec = FlakyArgs"
    | (sleep) "task = ''sleep''" "spec = SleepArgs"
    | (pi) "task = ''calculate_pi''" "spec = PiArgs"
    | (hash) "task = ''hash_text''" "spec = HashArgs"
    unfolding registry_cases by blast
  then show ?thesis
  proof cases
    case flaky
    with conf obtain n where "stored = JObj [(''failures'', JInt n)]"
      by (auto simp: args_defs conforms_single field_ok_cases)
    with flaky again show ?thesis by (auto simp: execute_def obj_get_def)
  next
    case sleep
    with conf obtain s where "stored = JObj [(''seconds'', JFloat s)]" "0 \<le> s" "s \<le> 5"
      by (auto simp: args_defs conforms_single field_ok_cases in_range_def)
    with sleep again show ?thesis by (simp add: execute_def obj_get_def)
  next
    case pi
    with conf obtain n where "stored = JObj [(''iterations'', JInt n)]"
      by (auto simp: args_defs conforms_single field_ok_cases)
    with pi again show ?thesis by (simp add: execute_def obj_get_def)
  next
    case hash
    with conf obtain t where "stored = JObj [(''text'', JStr t)]"
      by (auto simp: args_defs conforms_single field_ok_cases)
    with hash again show ?thesis by (simp add: execute_def obj_get_def)
  qed
qed

theorem execute_stored_args_witness:
  "(\<exists>slept out. execute demo_env ''flaky'' (JObj [(''failures'', JInt 2)]) 1 = Inr (slept, out)
      \<and> 0 \<le> slept \<and> slept \<le> 5)
    \<or> (\<exists>n. ''flaky'' = ''flaky'' \<and> JObj [(''failures'', JInt 2)] = JObj [(''failures'', JInt n)] \<and> 1 \<le> n
         \<and> execute demo_env ''flaky'' (JObj [(''failures'', JInt 2)]) 1
             = Inl (RetryableTaskError ''Demonstration transient failure''))"
proof (rule execute_stored_args [OF demo_env_strict])
  show "validate demo_env ''flaky'' (JObj [(''failures'', JInt 2)])
      = Inr (JObj [(''failures'', JInt 2)])"
    by (simp add: validate_def REGISTRY_def demo_env_def args_defs in_range_def)
qed

end
