(* ===== verification/Models.thy ===== *)
theory Models
  imports Tasks
begin

text \<open>
  \<^verbatim>\<open>greyqueue/models.py\<close>: the rows of the six tables, the database, and inserting and updating
  rows under the declared keys, unique (partial) indexes and foreign keys. Enumerated columns
  bounded by a CHECK constraint are datatypes. The state of a transaction (\<open>world\<close>) adds
  what the program reads from outside: the database clock, fresh UUIDs, random numbers, and
  the rows and advisory lock that concurrent transactions hold.
\<close>

section \<open>Rows\<close>

datatype worker_state = HEALTHY | SUSPECT | DEAD | DRAINING

datatype job_status =
  QUEUED | LEASED | RUNNING | SUCCEEDED | FAILED | CANCELLED | RETRY_WAIT | DEAD_LETTER

text \<open>Job events record the submission and every status the job takes.\<close>

datatype event_state = SUBMITTED | Entered job_status

datatype attempt_outcome = OutSucceeded | OutFailed | OutLeaseExpired

record worker_row =
  w_id :: string
  w_state :: worker_state
  w_capacity :: int
  w_capabilities :: "string list"
  w_session_hash :: "string option"
  w_drain_requested :: bool
  w_registered_at :: timestamp
  w_last_seen :: timestamp

record job_row =
  j_id :: uuid
  j_priority :: int
  j_timeout :: seconds
  j_max_retries :: int
  j_retry_delay :: seconds
  j_retry_jitter :: bool
  j_attempt_count :: int
  j_idempotency_key :: "string option"
  j_request_hash :: "string option"
  j_metadata_json :: json
  j_available_at :: timestamp
  j_depends_on :: "uuid option"
  j_task :: string
  j_args :: json
  j_status :: job_status
  j_created_at :: timestamp
  j_updated_at :: timestamp

record attempt_row =
  a_id :: uuid
  a_job_id :: uuid
  a_worker_id :: string
  a_created_at :: timestamp
  a_slot :: int
  a_claim_id :: uuid
  a_fence :: int
  a_expires_at :: timestamp
  a_outcome :: "attempt_outcome option"
  a_output :: "json option"
  a_error :: "string option"
  a_started_at :: "timestamp option"
  a_finished_at :: "timestamp option"

record result_row =
  r_job_id :: uuid
  r_output :: "json option"
  r_error :: "string option"

record event_row =
  e_id :: int
  e_job_id :: uuid
  e_state :: event_state
  e_created_at :: timestamp

record system_event_row =
  se_id :: int
  se_kind :: string
  se_worker_id :: "string option"
  se_detail :: json
  se_created_at :: timestamp

record database =
  workers :: "worker_row list"
  jobs :: "job_row list"
  attempts :: "attempt_row list"
  results :: "result_row list"
  events :: "event_row list"
  system_events :: "system_event_row list"

text \<open>
  \<open>clk n\<close> is what the n-th next call of \<^verbatim>\<open>clock_timestamp()\<close> returns, \<open>uuids\<close> and
  \<open>randoms\<close> likewise for \<^verbatim>\<open>uuid4()\<close> and \<^verbatim>\<open>random.random()\<close>; \<open>tx_now\<close> is the transaction's
  start time (\<^verbatim>\<open>now()\<close>, the server default of the timestamp columns). \<open>row_scan\<close> and
  \<open>worker_scan\<close> are the orders in which queries without \<^verbatim>\<open>ORDER BY\<close> deliver job and
  worker rows.
\<close>

record world =
  db :: database
  clk :: "nat \<Rightarrow> timestamp"
  uuids :: "nat \<Rightarrow> uuid"
  randoms :: "nat \<Rightarrow> rat"
  tx_now :: timestamp
  locked_jobs :: "uuid list"
  locked_workers :: "string list"
  recovery_lock_taken :: bool
  row_scan :: "job_row list \<Rightarrow> job_row list"
  worker_scan :: "worker_row list \<Rightarrow> worker_row list"

type_synonym 'a dbtx = "(exn, world, 'a) tx"

section \<open>Reading from outside\<close>

definition next_uuid :: "uuid dbtx" where
  "next_uuid w = Inr (uuids w 0, w\<lparr>uuids := (\<lambda>n. uuids w (Suc n))\<rparr>)"

definition next_random :: "rat dbtx" where
  "next_random w = Inr (randoms w 0, w\<lparr>randoms := (\<lambda>n. randoms w (Suc n))\<rparr>)"

definition tick :: "world \<Rightarrow> world" where
  "tick w = w\<lparr>clk := (\<lambda>n. clk w (Suc n))\<rparr>"

definition next_clock :: "timestamp dbtx" where
  "next_clock w = Inr (clk w 0, tick w)"

section \<open>Finding and changing rows\<close>

definition job_by_id :: "uuid \<Rightarrow> database \<Rightarrow> job_row option" where
  "job_by_id i d = find_row j_id i (jobs d)"

definition attempt_by_id :: "uuid \<Rightarrow> database \<Rightarrow> attempt_row option" where
  "attempt_by_id i d = find_row a_id i (attempts d)"

definition attempt_by_claim :: "uuid \<Rightarrow> database \<Rightarrow> attempt_row option" where
  "attempt_by_claim c d = find_row a_claim_id c (attempts d)"

definition worker_by_id :: "string \<Rightarrow> database \<Rightarrow> worker_row option" where
  "worker_by_id i d = find_row w_id i (workers d)"

definition result_by_job :: "uuid \<Rightarrow> database \<Rightarrow> result_row option" where
  "result_by_job i d = find_row r_job_id i (results d)"

abbreviation active :: "attempt_row \<Rightarrow> bool" where
  "active a \<equiv> a_finished_at a = None"

text \<open>The unfinished attempt of a slot, and of a job (unique by the partial indexes).\<close>

definition slot_attempt :: "string \<Rightarrow> int \<Rightarrow> database \<Rightarrow> attempt_row option" where
  "slot_attempt wid slot d =
     find (\<lambda>a. a_worker_id a = wid \<and> a_slot a = slot \<and> active a) (attempts d)"

definition active_attempt :: "uuid \<Rightarrow> database \<Rightarrow> attempt_row option" where
  "active_attempt jid d = find (\<lambda>a. a_job_id a = jid \<and> active a) (attempts d)"

definition set_job :: "uuid \<Rightarrow> (job_row \<Rightarrow> job_row) \<Rightarrow> database \<Rightarrow> database" where
  "set_job i f d = d\<lparr>jobs := set_row j_id i f (jobs d)\<rparr>"

definition set_attempt :: "uuid \<Rightarrow> (attempt_row \<Rightarrow> attempt_row) \<Rightarrow> database \<Rightarrow> database" where
  "set_attempt i f d = d\<lparr>attempts := set_row a_id i f (attempts d)\<rparr>"

definition set_worker :: "string \<Rightarrow> (worker_row \<Rightarrow> worker_row) \<Rightarrow> database \<Rightarrow> database" where
  "set_worker i f d = d\<lparr>workers := set_row w_id i f (workers d)\<rparr>"

definition update_job :: "uuid \<Rightarrow> (job_row \<Rightarrow> job_row) \<Rightarrow> unit dbtx" where
  "update_job i f = tx_modify (\<lambda>w. w\<lparr>db := set_job i f (db w)\<rparr>)"

definition update_attempt :: "uuid \<Rightarrow> (attempt_row \<Rightarrow> attempt_row) \<Rightarrow> unit dbtx" where
  "update_attempt i f = tx_modify (\<lambda>w. w\<lparr>db := set_attempt i f (db w)\<rparr>)"

definition update_worker :: "string \<Rightarrow> (worker_row \<Rightarrow> worker_row) \<Rightarrow> unit dbtx" where
  "update_worker i f = tx_modify (\<lambda>w. w\<lparr>db := set_worker i f (db w)\<rparr>)"

section \<open>Inserting rows\<close>

definition insert_job :: "job_row \<Rightarrow> unit dbtx" where
  "insert_job j w =
     (let d = db w in
      if j_id j \<in> j_id ` set (jobs d) then Inl (IntegrityError ''jobs_pkey'')
      else if j_idempotency_key j \<noteq> None
              \<and> j_idempotency_key j \<in> j_idempotency_key ` set (jobs d)
        then Inl (IntegrityError ''jobs_idempotency_key_key'')
      else if (case j_depends_on j of None \<Rightarrow> False
               | Some p \<Rightarrow> p \<notin> insert (j_id j) (j_id ` set (jobs d)))
        then Inl (IntegrityError ''jobs_depends_on_fkey'')
      else Inr ((), w\<lparr>db := d\<lparr>jobs := jobs d @ [j]\<rparr>\<rparr>))"

definition insert_attempt :: "attempt_row \<Rightarrow> unit dbtx" where
  "insert_attempt a w =
     (let d = db w in
      if a_id a \<in> a_id ` set (attempts d) then Inl (IntegrityError ''attempts_pkey'')
      else if a_claim_id a \<in> a_claim_id ` set (attempts d)
        then Inl (IntegrityError ''attempts_claim_id_key'')
      else if active a \<and> slot_attempt (a_worker_id a) (a_slot a) d \<noteq> None
        then Inl (IntegrityError ''ix_attempt_active_slot'')
      else if active a \<and> active_attempt (a_job_id a) d \<noteq> None
        then Inl (IntegrityError ''ix_attempt_active_job'')
      else if a_job_id a \<notin> j_id ` set (jobs d) then Inl (IntegrityError ''attempts_job_id_fkey'')
      else if a_worker_id a \<notin> w_id ` set (workers d)
        then Inl (IntegrityError ''attempts_worker_id_fkey'')
      else Inr ((), w\<lparr>db := d\<lparr>attempts := attempts d @ [a]\<rparr>\<rparr>))"

definition insert_result :: "result_row \<Rightarrow> unit dbtx" where
  "insert_result r w =
     (let d = db w in
      if r_job_id r \<in> r_job_id ` set (results d) then Inl (IntegrityError ''results_pkey'')
      else if r_job_id r \<notin> j_id ` set (jobs d) then Inl (IntegrityError ''results_job_id_fkey'')
      else Inr ((), w\<lparr>db := d\<lparr>results := results d @ [r]\<rparr>\<rparr>))"

text \<open>Event ids come from a sequence; rows are appended in sequence order.\<close>

definition log_event :: "timestamp \<Rightarrow> uuid \<Rightarrow> event_state \<Rightarrow> database \<Rightarrow> database" where
  "log_event t jid st d =
     d\<lparr>events := events d @ [\<lparr>e_id = int (length (events d)) + 1, e_job_id = jid, e_state = st,
                              e_created_at = t\<rparr>]\<rparr>"

definition log_system_event ::
    "timestamp \<Rightarrow> string \<Rightarrow> string option \<Rightarrow> json \<Rightarrow> database \<Rightarrow> database" where
  "log_system_event t kind wid detail d =
     d\<lparr>system_events := system_events d @ [\<lparr>se_id = int (length (system_events d)) + 1,
         se_kind = kind, se_worker_id = wid, se_detail = detail, se_created_at = t\<rparr>]\<rparr>"

definition add_event :: "uuid \<Rightarrow> event_state \<Rightarrow> unit dbtx" where
  "add_event jid st w =
     (if jid \<notin> j_id ` set (jobs (db w)) then Inl (IntegrityError ''events_job_id_fkey'')
      else Inr ((), w\<lparr>db := log_event (tx_now w) jid st (db w)\<rparr>))"

definition add_system_event :: "string \<Rightarrow> string option \<Rightarrow> json \<Rightarrow> unit dbtx" where
  "add_system_event kind wid detail =
     tx_modify (\<lambda>w. w\<lparr>db := log_system_event (tx_now w) kind wid detail (db w)\<rparr>)"

section \<open>The tables are keyed rows\<close>

interpretation job_table: keyed_rows j_id "find_row j_id" "set_row j_id"
  by unfold_locales (auto dest: find_row_Some find_row_None simp: set_row_def)

interpretation attempt_table: keyed_rows a_id "find_row a_id" "set_row a_id"
  by unfold_locales (auto dest: find_row_Some find_row_None simp: set_row_def)

interpretation worker_table: keyed_rows w_id "find_row w_id" "set_row w_id"
  by unfold_locales (auto dest: find_row_Some find_row_None simp: set_row_def)

interpretation result_table: keyed_rows r_job_id "find_row r_job_id" "set_row r_job_id"
  by unfold_locales (auto dest: find_row_Some find_row_None simp: set_row_def)

section \<open>What each primitive does when it returns\<close>

lemma next_uuid_iff [tx_simps]:
  "next_uuid w = Inr (u, w') \<longleftrightarrow> u = uuids w 0 \<and> w' = w\<lparr>uuids := (\<lambda>n. uuids w (Suc n))\<rparr>"
  by (auto simp: next_uuid_def)

lemma next_random_iff [tx_simps]:
  "next_random w = Inr (u, w') \<longleftrightarrow>
     u = randoms w 0 \<and> w' = w\<lparr>randoms := (\<lambda>n. randoms w (Suc n))\<rparr>"
  by (auto simp: next_random_def)

lemma next_clock_iff [tx_simps]:
  "next_clock w = Inr (t, w') \<longleftrightarrow> t = clk w 0 \<and> w' = tick w"
  by (auto simp: next_clock_def)

lemma tick_simps [simp]:
  "db (tick w) = db w" "clk (tick w) n = clk w (Suc n)" "tx_now (tick w) = tx_now w"
  "uuids (tick w) = uuids w" "randoms (tick w) = randoms w"
  "locked_jobs (tick w) = locked_jobs w" "locked_workers (tick w) = locked_workers w"
  "recovery_lock_taken (tick w) = recovery_lock_taken w" "row_scan (tick w) = row_scan w"
  "worker_scan (tick w) = worker_scan w"
  "tick (w\<lparr>db := d\<rparr>) = (tick w)\<lparr>db := d\<rparr>" "w\<lparr>db := d\<rparr> = w\<lparr>db := d'\<rparr> \<longleftrightarrow> d = d'"
  by (auto simp: tick_def dest: arg_cong [of _ _ db])

lemma next_total [simp]:
  "next_uuid w \<noteq> Inl e" "next_random w \<noteq> Inl e" "next_clock w \<noteq> Inl e"
  by (simp_all add: next_uuid_def next_random_def next_clock_def)

lemma update_iff [tx_simps]:
  "update_job i f w = r \<longleftrightarrow> r = Inr ((), w\<lparr>db := set_job i f (db w)\<rparr>)"
  "update_attempt i g w = r \<longleftrightarrow> r = Inr ((), w\<lparr>db := set_attempt i g (db w)\<rparr>)"
  "update_worker k h w = r \<longleftrightarrow> r = Inr ((), w\<lparr>db := set_worker k h (db w)\<rparr>)"
  by (auto simp: update_job_def update_attempt_def update_worker_def tx_modify_iff)

lemma insert_job_iff [tx_simps]:
  "insert_job j w = Inr (u, w') \<longleftrightarrow>
     j_id j \<notin> j_id ` set (jobs (db w))
     \<and> (j_idempotency_key j \<noteq> None \<longrightarrow> j_idempotency_key j \<notin> j_idempotency_key ` set (jobs (db w)))
     \<and> (\<forall>p. j_depends_on j = Some p \<longrightarrow> p = j_id j \<or> p \<in> j_id ` set (jobs (db w)))
     \<and> w' = w\<lparr>db := (db w)\<lparr>jobs := jobs (db w) @ [j]\<rparr>\<rparr>"
  by (auto simp: insert_job_def Let_def split: option.splits)

lemma insert_attempt_iff [tx_simps]:
  "insert_attempt a w = Inr (u, w') \<longleftrightarrow>
     a_id a \<notin> a_id ` set (attempts (db w)) \<and> a_claim_id a \<notin> a_claim_id ` set (attempts (db w))
     \<and> (active a \<longrightarrow> slot_attempt (a_worker_id a) (a_slot a) (db w) = None
          \<and> active_attempt (a_job_id a) (db w) = None)
     \<and> a_job_id a \<in> j_id ` set (jobs (db w)) \<and> a_worker_id a \<in> w_id ` set (workers (db w))
     \<and> w' = w\<lparr>db := (db w)\<lparr>attempts := attempts (db w) @ [a]\<rparr>\<rparr>"
  by (auto simp: insert_attempt_def Let_def)

lemma insert_result_iff [tx_simps]:
  "insert_result r w = Inr (u, w') \<longleftrightarrow>
     r_job_id r \<notin> r_job_id ` set (results (db w)) \<and> r_job_id r \<in> j_id ` set (jobs (db w))
     \<and> w' = w\<lparr>db := (db w)\<lparr>results := results (db w) @ [r]\<rparr>\<rparr>"
  by (auto simp: insert_result_def Let_def)

lemma add_event_iff [tx_simps]:
  "add_event jid st w = Inr (u, w') \<longleftrightarrow>
     jid \<in> j_id ` set (jobs (db w)) \<and> w' = w\<lparr>db := log_event (tx_now w) jid st (db w)\<rparr>"
  by (auto simp: add_event_def)

lemma add_system_event_iff [tx_simps]:
  "add_system_event kind wid detail w = r \<longleftrightarrow>
     r = Inr ((), w\<lparr>db := log_system_event (tx_now w) kind wid detail (db w)\<rparr>)"
  by (auto simp: add_system_event_def tx_modify_iff)

text \<open>Reading a table after a change of the same or of another table.\<close>

lemma frame_jobs [row_simps]:
  "jobs (set_attempt i f d) = jobs d" "jobs (set_worker k h d) = jobs d"
  "jobs (log_event t jid st d) = jobs d" "jobs (log_system_event t kind wid detail d) = jobs d"
  "jobs (set_job i g d) = set_row j_id i g (jobs d)"
  by (simp_all add: set_attempt_def set_worker_def log_event_def log_system_event_def set_job_def)

lemma frame_attempts [row_simps]:
  "attempts (set_job i g d) = attempts d" "attempts (set_worker k h d) = attempts d"
  "attempts (log_event t jid st d) = attempts d"
  "attempts (log_system_event t kind wid detail d) = attempts d"
  "attempts (set_attempt i f d) = set_row a_id i f (attempts d)"
  by (simp_all add: set_attempt_def set_worker_def log_event_def log_system_event_def set_job_def)

lemma frame_workers [row_simps]:
  "workers (set_job i g d) = workers d" "workers (set_attempt i f d) = workers d"
  "workers (log_event t jid st d) = workers d"
  "workers (log_system_event t kind wid detail d) = workers d"
  "workers (set_worker k h d) = set_row w_id k h (workers d)"
  by (simp_all add: set_attempt_def set_worker_def log_event_def log_system_event_def set_job_def)

lemma frame_results [row_simps]:
  "results (set_job i g d) = results d" "results (set_attempt i f d) = results d"
  "results (set_worker k h d) = results d" "results (log_event t jid st d) = results d"
  "results (log_system_event t kind wid detail d) = results d"
  by (simp_all add: set_attempt_def set_worker_def log_event_def log_system_event_def set_job_def)

lemma frame_events [row_simps]:
  "events (set_job i g d) = events d" "events (set_attempt i f d) = events d"
  "events (set_worker k h d) = events d"
  "events (log_system_event t kind wid detail d) = events d"
  "events (log_event t jid st d) = events d @ [\<lparr>e_id = int (length (events d)) + 1,
     e_job_id = jid, e_state = st, e_created_at = t\<rparr>]"
  by (simp_all add: set_attempt_def set_worker_def log_event_def log_system_event_def set_job_def)

lemma job_by_id_Some: "job_by_id i d = Some j \<Longrightarrow> j \<in> set (jobs d) \<and> j_id j = i"
  unfolding job_by_id_def by (rule job_table.lookup_Some)

lemma attempt_by_id_Some: "attempt_by_id i d = Some a \<Longrightarrow> a \<in> set (attempts d) \<and> a_id a = i"
  unfolding attempt_by_id_def by (rule attempt_table.lookup_Some)

lemma worker_by_id_Some: "worker_by_id i d = Some v \<Longrightarrow> v \<in> set (workers d) \<and> w_id v = i"
  unfolding worker_by_id_def by (rule worker_table.lookup_Some)

lemma slot_attempt_Some:
  "slot_attempt wid slot d = Some a \<Longrightarrow>
     a \<in> set (attempts d) \<and> a_worker_id a = wid \<and> a_slot a = slot \<and> active a"
  by (auto simp: slot_attempt_def find_Some_iff)

lemma slot_attempt_None:
  "slot_attempt wid slot d = None \<longleftrightarrow>
     (\<forall>a \<in> set (attempts d). active a \<longrightarrow> a_worker_id a = wid \<longrightarrow> a_slot a \<noteq> slot)"
  by (auto simp: slot_attempt_def find_None_iff)

lemma active_attempt_Some:
  "active_attempt jid d = Some a \<Longrightarrow> a \<in> set (attempts d) \<and> a_job_id a = jid \<and> active a"
  by (auto simp: active_attempt_def find_Some_iff)

lemma active_attempt_None:
  "active_attempt jid d = None \<longleftrightarrow> (\<forall>a \<in> set (attempts d). active a \<longrightarrow> a_job_id a \<noteq> jid)"
  by (auto simp: active_attempt_def find_None_iff)

end
