(* ===== verification/Scheduler.thy ===== *)
theory Scheduler
  imports Models
begin

text \<open>
  \<^verbatim>\<open>greyqueue/scheduler.py\<close> and \<^verbatim>\<open>greyqueue/sql.py\<close>: the queue queries of the three policies. A query is the list
  of rows it delivers, in its order. The claim path locks the first row that no concurrent
  transaction holds (\<^verbatim>\<open>FOR UPDATE SKIP LOCKED ... LIMIT 1\<close>).
\<close>

section \<open>Literal status lists\<close>

definition lower_char :: "char \<Rightarrow> char" where
  "lower_char c = (let n = of_char c :: nat in if 65 \<le> n \<and> n \<le> 90 then char_of (n + 32) else c)"

text \<open>\<^verbatim>\<open>statuses(values)\<close>: the name of the expanding bind parameter and its sorted values.\<close>

definition statuses :: "string list \<Rightarrow> string \<times> string list" where
  "statuses values =
     (let ordered = sort values
      in (''statuses_'' @ map lower_char (join ''_'' ordered), ordered))"

section \<open>Queries\<close>

definition ready_parent :: "database \<Rightarrow> job_row \<Rightarrow> bool" where
  "ready_parent d j \<longleftrightarrow>
     (\<exists>p \<in> set (jobs d). j_depends_on j = Some (j_id p) \<and> j_status p = SUCCEEDED)"

definition eligible :: "worker_row \<Rightarrow> timestamp \<Rightarrow> database \<Rightarrow> job_row \<Rightarrow> bool" where
  "eligible worker t d j \<longleftrightarrow>
     j_status j \<in> {QUEUED, RETRY_WAIT} \<and> j_available_at j \<le> t
     \<and> j_task j \<in> set (w_capabilities worker)
     \<and> (j_depends_on j = None \<or> ready_parent d j)"

definition fifo_rank :: "job_row \<Rightarrow> timestamp \<times> uuid" where
  "fifo_rank j = (j_created_at j, j_id j)"

definition priority_rank :: "job_row \<Rightarrow> int \<times> timestamp \<times> uuid" where
  "priority_rank j = (- j_priority j, j_created_at j, j_id j)"

definition FIFOScheduler_query :: "worker_row \<Rightarrow> timestamp \<Rightarrow> database \<Rightarrow> job_row list" where
  "FIFOScheduler_query worker t d = sort_key fifo_rank (filter (eligible worker t d) (jobs d))"

text \<open>\<^verbatim>\<open>order_by(None).order_by(...)\<close> replaces the order of the inherited query.\<close>

definition PriorityScheduler_query :: "worker_row \<Rightarrow> timestamp \<Rightarrow> database \<Rightarrow> job_row list" where
  "PriorityScheduler_query worker t d =
     sort_key priority_rank (FIFOScheduler_query worker t d)"

definition CapacityAwareScheduler_query ::
    "worker_row \<Rightarrow> timestamp \<Rightarrow> database \<Rightarrow> job_row list" where
  "CapacityAwareScheduler_query = PriorityScheduler_query"

definition scheduler ::
    "string \<Rightarrow> exn + (worker_row \<Rightarrow> timestamp \<Rightarrow> database \<Rightarrow> job_row list)" where
  "scheduler name =
     (if name = ''fifo'' then Inr FIFOScheduler_query
      else if name = ''priority'' then Inr PriorityScheduler_query
      else if name = ''capacity'' then Inr CapacityAwareScheduler_query
      else Inl (KeyError name))"

text \<open>\<^verbatim>\<open>with_for_update(skip_locked=True).limit(1)\<close>.\<close>

definition first_unlocked :: "uuid list \<Rightarrow> job_row list \<Rightarrow> job_row option" where
  "first_unlocked locked rows = find (\<lambda>j. j_id j \<notin> set locked) rows"

section \<open>The scheduling contract\<close>

text \<open>
  What the claim path relies on of a policy: its query delivers exactly the eligible rows,
  in the order of the policy's rank.
\<close>

locale scheduling_policy =
  fixes query :: "worker_row \<Rightarrow> timestamp \<Rightarrow> database \<Rightarrow> job_row list"
    and rank :: "job_row \<Rightarrow> 'k::linorder"
  assumes query_rows: "set (query worker t d) = {j \<in> set (jobs d). eligible worker t d j}"
    and query_sorted: "sorted (map rank (query worker t d))"
begin

lemma head_is_best:
  assumes "first_unlocked locked (query worker t d) = Some j"
  shows "j \<in> set (jobs d)" and "eligible worker t d j" and "j_id j \<notin> set locked"
    and "\<forall>j' \<in> set (jobs d). eligible worker t d j' \<longrightarrow> j_id j' \<notin> set locked \<longrightarrow> rank j \<le> rank j'"
proof -
  let ?rows = "filter (\<lambda>j. j_id j \<notin> set locked) (query worker t d)"
  from assms have head: "?rows \<noteq> []" "j = hd ?rows"
    unfolding first_unlocked_def by (auto dest: find_Some_hd)
  then have "j \<in> set ?rows" by (metis hd_in_set)
  then show "j \<in> set (jobs d)" "eligible worker t d j" "j_id j \<notin> set locked"
    using query_rows by auto
  have "sorted (map rank ?rows)" using query_sorted by (rule sorted_filter)
  then show "\<forall>j' \<in> set (jobs d). eligible worker t d j' \<longrightarrow> j_id j' \<notin> set locked \<longrightarrow> rank j \<le> rank j'"
    using head query_rows by (auto intro!: sorted_hd_least [of ?rows])
qed

lemma no_head:
  assumes "first_unlocked locked (query worker t d) = None"
  shows "\<forall>j \<in> set (jobs d). eligible worker t d j \<longrightarrow> j_id j \<in> set locked"
  using assms query_rows [of worker t d] by (auto simp: first_unlocked_def find_None_iff)

end

interpretation fifo: scheduling_policy FIFOScheduler_query fifo_rank
  by unfold_locales (auto simp: FIFOScheduler_query_def)

interpretation priority: scheduling_policy PriorityScheduler_query priority_rank
  by unfold_locales (auto simp: PriorityScheduler_query_def FIFOScheduler_query_def)

interpretation capacity: scheduling_policy CapacityAwareScheduler_query priority_rank
  unfolding CapacityAwareScheduler_query_def by (rule priority.scheduling_policy_axioms)

lemma scheduler_cases:
  assumes "scheduler name = Inr query"
  shows "query = FIFOScheduler_query \<or> query = PriorityScheduler_query"
  using assms by (auto simp: scheduler_def CapacityAwareScheduler_query_def split: if_splits)

text \<open>Whatever the policy, the row chosen is an eligible, unlocked row of the table.\<close>

lemma scheduler_choice:
  assumes "scheduler name = Inr query" and "first_unlocked locked (query worker t d) = Some j"
  shows "j \<in> set (jobs d) \<and> eligible worker t d j \<and> j_id j \<notin> set locked"
  using scheduler_cases [OF assms(1)] fifo.head_is_best priority.head_is_best assms(2) by metis

end
