(* ===== verification/Service.thy ===== *)
theory Service
  imports Scheduler
begin

text \<open>
  \<^verbatim>\<open>greyqueue/service.py\<close>: the transactional operations on jobs and attempts, one definition per
  function. ORM objects are rows of the transaction's state; assigning to an attribute updates
  the row. Messages are the program's.
\<close>

section \<open>Job states\<close>

fun status_name :: "job_status \<Rightarrow> string" where
  "status_name QUEUED = ''QUEUED''"
| "status_name LEASED = ''LEASED''"
| "status_name RUNNING = ''RUNNING''"
| "status_name SUCCEEDED = ''SUCCEEDED''"
| "status_name FAILED = ''FAILED''"
| "status_name CANCELLED = ''CANCELLED''"
| "status_name RETRY_WAIT = ''RETRY_WAIT''"
| "status_name DEAD_LETTER = ''DEAD_LETTER''"

definition TERMINAL :: "job_status set" where
  "TERMINAL = {SUCCEEDED, FAILED, CANCELLED, DEAD_LETTER}"

definition ACTIVE :: "job_status set" where
  "ACTIVE = {QUEUED, RETRY_WAIT, LEASED, RUNNING}"

fun TRANSITIONS :: "job_status \<Rightarrow> job_status set" where
  "TRANSITIONS QUEUED = {LEASED, CANCELLED}"
| "TRANSITIONS RETRY_WAIT = {LEASED, CANCELLED}"
| "TRANSITIONS LEASED = {RUNNING, RETRY_WAIT, DEAD_LETTER}"
| "TRANSITIONS RUNNING = {SUCCEEDED, FAILED, RETRY_WAIT, DEAD_LETTER}"
| "TRANSITIONS _ = {}"

definition database_time :: "timestamp dbtx" where
  "database_time = next_clock"

definition transition :: "job_row \<Rightarrow> job_status \<Rightarrow> unit dbtx" where
  "transition job state =
     (if state \<notin> TRANSITIONS (j_status job)
      then tx_raise (Conflict (''Illegal transition '' @ status_name (j_status job) @ '' -> ''
             @ status_name state))
      else tx_bind database_time (\<lambda>t.
           tx_bind (update_job (j_id job) (\<lambda>j. j\<lparr>j_status := state, j_updated_at := t\<rparr>)) (\<lambda>_.
           add_event (j_id job) (Entered state))))"

section \<open>Admission\<close>

record submission =
  sub_task :: string
  sub_args :: json
  sub_priority :: int
  sub_timeout :: seconds
  sub_max_retries :: int
  sub_retry_delay :: seconds
  sub_retry_jitter :: bool
  sub_idempotency_key :: "string option"
  sub_metadata :: "json option"
  sub_scheduled_at :: "timestamp option"
  sub_depends_on :: "uuid option"

text \<open>\<^verbatim>\<open>metadata or {}\<close>.\<close>

definition metadata_or_empty :: "json option \<Rightarrow> json" where
  "metadata_or_empty m = (case m of None \<Rightarrow> JObj [] | Some v \<Rightarrow> v)"

text \<open>Validating the arguments: a \<^verbatim>\<open>ValidationError\<close> passes, another \<^verbatim>\<open>ValueError\<close> is re-raised.\<close>

definition admit_args :: "env \<Rightarrow> string \<Rightarrow> json \<Rightarrow> exn + json" where
  "admit_args env task args =
     (case validate env task args of
        Inr a \<Rightarrow> Inr a
      | Inl (ValidationError t es) \<Rightarrow> Inl (ValidationError t es)
      | Inl e \<Rightarrow> if is_value_error e then Inl (Invalid (exn_text e) ''task'') else Inl e)"

definition request_definition :: "submission \<Rightarrow> json \<Rightarrow> json" where
  "request_definition s args = JObj [
     (''task'', JStr (sub_task s)),
     (''args'', args),
     (''priority'', JInt (sub_priority s)),
     (''timeout'', JFloat (sub_timeout s)),
     (''max_retries'', JInt (sub_max_retries s)),
     (''retry_delay'', JFloat (sub_retry_delay s)),
     (''retry_jitter'', JBool (sub_retry_jitter s)),
     (''metadata'', metadata_or_empty (sub_metadata s)),
     (''scheduled_at'', case sub_scheduled_at s of None \<Rightarrow> JNull | Some t \<Rightarrow> JStr (isoformat t)),
     (''depends_on'', case sub_depends_on s of None \<Rightarrow> JNull | Some u \<Rightarrow> JStr (uuid_text u))]"

definition request_digest :: "env \<Rightarrow> submission \<Rightarrow> json \<Rightarrow> string option" where
  "request_digest env s args =
     map_option (sha256 env) (dumps (float_repr env) True (request_definition s args))"

text \<open>\<^verbatim>\<open>if idempotency_key:\<close> skips the lookup for \<^verbatim>\<open>None\<close> and the empty string.\<close>

definition job_for_key :: "string option \<Rightarrow> database \<Rightarrow> job_row option" where
  "job_for_key key d =
     (if key = None \<or> key = Some [] then None else find (\<lambda>j. j_idempotency_key j = key) (jobs d))"

definition admitted_active :: "database \<Rightarrow> int" where
  "admitted_active d = int (length (filter (\<lambda>j. j_status j \<in> ACTIVE) (jobs d)))"

definition recent_submissions :: "timestamp \<Rightarrow> database \<Rightarrow> int" where
  "recent_submissions t d =
     int (length (filter (\<lambda>j. t - timedelta 60 \<le> j_created_at j) (jobs d)))"

definition get_job :: "uuid \<Rightarrow> job_row dbtx" where
  "get_job i =
     tx_bind (tx_get (\<lambda>w. job_by_id i (db w))) (\<lambda>found.
       case found of None \<Rightarrow> tx_raise (Missing ''Job not found'') | Some job \<Rightarrow> tx_return job)"

definition check_parent :: "uuid option \<Rightarrow> unit dbtx" where
  "check_parent depends_on =
     (case depends_on of
        None \<Rightarrow> tx_return ()
      | Some p \<Rightarrow> (\<lambda>w. case get_job p w of
            Inl (Missing m) \<Rightarrow> Inl (Invalid ''Dependency job not found'' ''depends_on'')
          | Inl e \<Rightarrow> Inl e
          | Inr (parent, w') \<Rightarrow>
              if j_status parent \<in> TERMINAL - {SUCCEEDED}
              then Inl (Conflict ''Dependency already failed or was cancelled'')
              else Inr ((), w')))"

definition new_job :: "submission \<Rightarrow> json \<Rightarrow> string \<Rightarrow> uuid \<Rightarrow> timestamp \<Rightarrow> job_row" where
  "new_job s args digest u t =
     \<lparr>j_id = u, j_priority = sub_priority s, j_timeout = sub_timeout s,
      j_max_retries = sub_max_retries s, j_retry_delay = sub_retry_delay s,
      j_retry_jitter = sub_retry_jitter s, j_attempt_count = 0,
      j_idempotency_key = sub_idempotency_key s, j_request_hash = Some digest,
      j_metadata_json = metadata_or_empty (sub_metadata s),
      j_available_at = (case sub_scheduled_at s of None \<Rightarrow> t | Some t' \<Rightarrow> t'),
      j_depends_on = sub_depends_on s, j_task = sub_task s, j_args = args, j_status = QUEUED,
      j_created_at = t, j_updated_at = t\<rparr>"

definition admit :: "env \<Rightarrow> submission \<Rightarrow> int \<Rightarrow> int \<Rightarrow> (job_row \<times> bool) dbtx" where
  "admit env s queue_limit submissions_per_minute =
     (case admit_args env (sub_task s) (sub_args s) of
        Inl e \<Rightarrow> tx_raise e
      | Inr args \<Rightarrow>
     (case request_digest env s args of
        None \<Rightarrow> tx_raise (ValueError ''Out of range float values are not JSON compliant'')
      | Some digest \<Rightarrow>
     tx_bind (tx_get (\<lambda>w. job_for_key (sub_idempotency_key s) (db w))) (\<lambda>found.
     case found of
        Some existing \<Rightarrow>
          if j_request_hash existing \<noteq> Some digest
          then tx_raise (Conflict ''Idempotency key already used for a different definition'')
          else tx_return (existing, False)
      | None \<Rightarrow>
     tx_bind database_time (\<lambda>t.
     tx_bind (tx_get (\<lambda>w. (admitted_active (db w), recent_submissions t (db w)))) (\<lambda>(count, rate).
     if queue_limit \<le> count \<or> submissions_per_minute \<le> rate
     then tx_raise (Saturated ''Admission limit reached; retry later with the same idempotency key'')
     else
     tx_bind (check_parent (sub_depends_on s)) (\<lambda>_.
     tx_bind next_uuid (\<lambda>u.
     tx_bind (insert_job (new_job s args digest u t)) (\<lambda>_.
     tx_bind (add_event u SUBMITTED) (\<lambda>_.
     tx_bind (add_event u (Entered QUEUED)) (\<lambda>_.
     tx_return (new_job s args digest u t, True)))))))))))"

definition submit :: "env \<Rightarrow> submission \<Rightarrow> int \<Rightarrow> int \<Rightarrow> job_row dbtx" where
  "submit env s queue_limit submissions_per_minute =
     tx_bind (admit env s queue_limit submissions_per_minute) (\<lambda>r. tx_return (fst r))"

section \<open>Claiming\<close>

text \<open>The part of \<^verbatim>\<open>claim\<close> after the replay checks: choose a job and lease it.\<close>

definition new_attempt ::
    "uuid \<Rightarrow> job_row \<Rightarrow> string \<Rightarrow> int \<Rightarrow> uuid \<Rightarrow> timestamp \<Rightarrow> timestamp \<Rightarrow> attempt_row" where
  "new_attempt u job wid slot cid created expires =
     \<lparr>a_id = u, a_job_id = j_id job, a_worker_id = wid, a_created_at = created, a_slot = slot,
      a_claim_id = cid, a_fence = j_attempt_count job, a_expires_at = expires, a_outcome = None,
      a_output = None, a_error = None, a_started_at = None, a_finished_at = None\<rparr>"

definition lease_job ::
    "worker_row \<Rightarrow> int \<Rightarrow> uuid option \<Rightarrow> string \<Rightarrow> seconds \<Rightarrow> (job_row \<times> attempt_row) option dbtx"
  where
  "lease_job worker slot claim_id policy lease_seconds =
     (if w_state worker \<noteq> HEALTHY then tx_return None
      else
     tx_bind database_time (\<lambda>t.
     case scheduler policy of
        Inl e \<Rightarrow> tx_raise e
      | Inr query \<Rightarrow>
     tx_bind (tx_get (\<lambda>w. first_unlocked (locked_jobs w) (query worker t (db w)))) (\<lambda>found.
     case found of
        None \<Rightarrow> tx_return None
      | Some job0 \<Rightarrow>
     let job = job0\<lparr>j_attempt_count := j_attempt_count job0 + 1\<rparr> in
     tx_bind (update_job (j_id job) (\<lambda>j. j\<lparr>j_attempt_count := j_attempt_count job\<rparr>)) (\<lambda>_.
     tx_bind (case claim_id of None \<Rightarrow> next_uuid | Some c \<Rightarrow> tx_return c) (\<lambda>cid.
     tx_bind next_uuid (\<lambda>u.
     tx_bind (tx_get tx_now) (\<lambda>created.
     let attempt = new_attempt u job (w_id worker) slot cid created (t + timedelta lease_seconds) in
     tx_bind (insert_attempt attempt) (\<lambda>_.
     tx_bind (transition job LEASED) (\<lambda>_.
     tx_bind (get_job (j_id job)) (\<lambda>leased.
     tx_return (Some (leased, attempt))))))))))))"

definition claim ::
    "string \<Rightarrow> int \<Rightarrow> uuid option \<Rightarrow> string \<Rightarrow> seconds \<Rightarrow> (job_row \<times> attempt_row) option dbtx"
  where
  "claim worker_id slot claim_id policy lease_seconds =
     tx_bind (tx_get (\<lambda>w. worker_by_id worker_id (db w))) (\<lambda>found.
     case found of
        None \<Rightarrow> tx_raise (Missing ''Register worker first'')
      | Some worker \<Rightarrow>
     if slot < 0 \<or> w_capacity worker \<le> slot
     then tx_raise (Invalid (''Slot is outside this worker'' @ CHR 0x27 # ''s capacity'') ''slot'')
     else
     tx_bind (tx_get (\<lambda>w. case claim_id of None \<Rightarrow> None | Some c \<Rightarrow> attempt_by_claim c (db w)))
       (\<lambda>replayed.
     case replayed of
        Some existing \<Rightarrow>
          if a_worker_id existing \<noteq> worker_id \<or> a_slot existing \<noteq> slot
          then tx_raise (Conflict ''Claim ID belongs to another slot'')
          else if a_finished_at existing \<noteq> None
          then tx_raise (Conflict ''Claim is already finished'')
          else tx_bind (get_job (a_job_id existing)) (\<lambda>job. tx_return (Some (job, existing)))
      | None \<Rightarrow>
     tx_bind (tx_get (\<lambda>w. slot_attempt worker_id slot (db w))) (\<lambda>occupied.
     case occupied of
        Some attempt \<Rightarrow>
          if claim_id \<noteq> None \<and> claim_id \<noteq> Some (a_claim_id attempt)
          then tx_raise (Conflict ''Slot is occupied'')
          else tx_bind (get_job (a_job_id attempt)) (\<lambda>job. tx_return (Some (job, attempt)))
      | None \<Rightarrow> lease_job worker slot claim_id policy lease_seconds)))"

section \<open>Owned assignments\<close>

definition owned :: "uuid \<Rightarrow> string \<Rightarrow> uuid \<Rightarrow> bool \<Rightarrow> (job_row \<times> attempt_row) dbtx" where
  "owned job_id worker_id token allow_finished =
     tx_bind (get_job job_id) (\<lambda>job.
     tx_bind (tx_get (\<lambda>w. attempt_by_id token (db w))) (\<lambda>found.
     case found of
        None \<Rightarrow> tx_raise (Conflict ''Assignment does not belong to this worker'')
      | Some attempt \<Rightarrow>
     if a_job_id attempt \<noteq> job_id \<or> a_worker_id attempt \<noteq> worker_id
     then tx_raise (Conflict ''Assignment does not belong to this worker'')
     else if allow_finished \<and> a_finished_at attempt \<noteq> None then tx_return (job, attempt)
     else if a_finished_at attempt \<noteq> None \<or> a_fence attempt \<noteq> j_attempt_count job
     then tx_raise (Conflict ''Expired or fenced assignment'')
     else tx_bind database_time (\<lambda>t.
       if a_expires_at attempt \<le> t then tx_raise (Conflict ''Expired or fenced assignment'')
       else tx_return (job, attempt))))"

definition start :: "uuid \<Rightarrow> string \<Rightarrow> uuid \<Rightarrow> unit dbtx" where
  "start job_id worker_id token =
     tx_bind (owned job_id worker_id token False) (\<lambda>(job, attempt).
     if j_status job = RUNNING then tx_return ()
     else if j_status job \<noteq> LEASED then tx_raise (Conflict ''Job is not assigned'')
     else
     tx_bind database_time (\<lambda>t.
     tx_bind (update_attempt (a_id attempt) (\<lambda>a. a\<lparr>a_started_at := Some t\<rparr>)) (\<lambda>_.
     transition job RUNNING)))"

definition renew :: "uuid \<Rightarrow> string \<Rightarrow> uuid \<Rightarrow> seconds \<Rightarrow> timestamp dbtx" where
  "renew job_id worker_id token lease_seconds =
     tx_bind (owned job_id worker_id token False) (\<lambda>(job, attempt).
     case a_started_at attempt of
        None \<Rightarrow> tx_raise (Conflict ''Start the assignment before renewing it'')
      | Some started \<Rightarrow>
     tx_bind database_time (\<lambda>t.
     let expiry = min (t + timedelta lease_seconds) (started + timedelta (j_timeout job + 5)) in
     if expiry \<le> t then tx_raise (Conflict ''Execution deadline passed'')
     else
     tx_bind (update_attempt (a_id attempt) (\<lambda>a. a\<lparr>a_expires_at := expiry\<rparr>)) (\<lambda>_.
     tx_return expiry)))"

text \<open>\<^verbatim>\<open>random.uniform(0.5, 1.5)\<close>.\<close>

definition jitter_factor :: "rat dbtx" where
  "jitter_factor = tx_bind next_random (\<lambda>r. tx_return (1 / 2 + (3 / 2 - 1 / 2) * r))"

definition base_delay :: "job_row \<Rightarrow> seconds" where
  "base_delay job = min (j_retry_delay job * 2 powi (j_attempt_count job - 1)) 3600"

definition fail_attempt ::
    "job_row \<Rightarrow> attempt_row \<Rightarrow> string \<Rightarrow> bool \<Rightarrow> attempt_outcome \<Rightarrow> unit dbtx" where
  "fail_attempt job attempt error retryable outcome =
     tx_bind database_time (\<lambda>t.
     tx_bind (update_attempt (a_id attempt)
         (\<lambda>a. a\<lparr>a_finished_at := Some t, a_outcome := Some outcome, a_error := Some error\<rparr>)) (\<lambda>_.
     if retryable \<and> j_attempt_count job \<le> j_max_retries job
     then
       tx_bind (if j_retry_jitter job then jitter_factor else tx_return 1) (\<lambda>factor.
       tx_bind (update_job (j_id job)
           (\<lambda>j. j\<lparr>j_available_at := t + timedelta (base_delay job * factor)\<rparr>)) (\<lambda>_.
       transition job RETRY_WAIT))
     else
       tx_bind (transition job (if retryable then DEAD_LETTER else FAILED)) (\<lambda>_.
       insert_result \<lparr>r_job_id = j_id job, r_output = None, r_error = Some error\<rparr>)))"

text \<open>\<^verbatim>\<open>attempt.output == output\<close> on optional decoded objects.\<close>

definition same_output :: "json option \<Rightarrow> json option \<Rightarrow> bool" where
  "same_output x y =
     (case (x, y) of (None, None) \<Rightarrow> True | (Some a, Some b) \<Rightarrow> json_eq a b | _ \<Rightarrow> False)"

definition finish ::
    "uuid \<Rightarrow> string \<Rightarrow> uuid \<Rightarrow> json option \<Rightarrow> string option \<Rightarrow> bool \<Rightarrow> unit dbtx" where
  "finish job_id worker_id token output error retryable =
     tx_bind (owned job_id worker_id token True) (\<lambda>(job, attempt).
     if a_finished_at attempt \<noteq> None then
       (if a_outcome attempt \<in> {Some OutSucceeded, Some OutFailed}
           \<and> same_output (a_output attempt) output \<and> a_error attempt = error
        then tx_return ()
        else tx_raise (Conflict ''Conflicting or expired completion replay''))
     else if a_fence attempt \<noteq> j_attempt_count job
     then tx_raise (Conflict ''Expired or fenced assignment'')
     else
     tx_bind database_time (\<lambda>t.
     if a_expires_at attempt \<le> t then tx_raise (Conflict ''Expired or fenced assignment'')
     else if j_status job \<noteq> RUNNING
     then tx_raise (Conflict ''Job must be running before completion'')
     else
     (case error of
        Some msg \<Rightarrow> fail_attempt job attempt msg retryable OutFailed
      | None \<Rightarrow>
     tx_bind database_time (\<lambda>t'.
     tx_bind (update_attempt (a_id attempt) (\<lambda>a. a\<lparr>a_output := output,
         a_outcome := Some OutSucceeded, a_finished_at := Some t'\<rparr>)) (\<lambda>_.
     tx_bind (insert_result \<lparr>r_job_id = j_id job, r_output = output, r_error = None\<rparr>) (\<lambda>_.
     transition job SUCCEEDED))))))"

definition cancel :: "uuid \<Rightarrow> unit dbtx" where
  "cancel job_id =
     tx_bind (get_job job_id) (\<lambda>job.
     if j_status job = CANCELLED then tx_return ()
     else if j_status job \<notin> {QUEUED, RETRY_WAIT}
     then tx_raise (Conflict ''Only waiting jobs can be cancelled'')
     else transition job CANCELLED)"

section \<open>Serialization\<close>

record job_out =
  jo_id :: string
  jo_task :: string
  jo_args :: json
  jo_status :: string
  jo_priority :: int
  jo_timeout :: seconds
  jo_max_retries :: int
  jo_attempt_count :: int
  jo_metadata :: json
  jo_available_at :: string
  jo_depends_on :: "string option"
  jo_created_at :: string
  jo_updated_at :: string
  jo_result :: "json option"
  jo_error :: "string option"

definition serialize_with :: "env \<Rightarrow> result_row option \<Rightarrow> job_row \<Rightarrow> job_out" where
  "serialize_with env result job =
     \<lparr>jo_id = uuid_text (j_id job), jo_task = j_task job, jo_args = j_args job,
      jo_status = status_name (j_status job), jo_priority = j_priority job,
      jo_timeout = j_timeout job, jo_max_retries = j_max_retries job,
      jo_attempt_count = j_attempt_count job, jo_metadata = j_metadata_json job,
      jo_available_at = driver_isoformat env (j_available_at job),
      jo_depends_on = map_option uuid_text (j_depends_on job),
      jo_created_at = driver_isoformat env (j_created_at job),
      jo_updated_at = driver_isoformat env (j_updated_at job),
      jo_result = Option.bind result r_output, jo_error = Option.bind result r_error\<rparr>"

text \<open>With a batch of preloaded results, or by a lookup of the row.\<close>

definition serialize ::
    "env \<Rightarrow> database \<Rightarrow> (uuid \<rightharpoonup> result_row) option \<Rightarrow> job_row \<Rightarrow> job_out" where
  "serialize env d batch job =
     serialize_with env
       (case batch of Some m \<Rightarrow> m (j_id job) | None \<Rightarrow> result_by_job (j_id job) d) job"

section \<open>What each operation does when it returns\<close>

text \<open>The effect of a legal transition on the tables.\<close>

definition moved :: "timestamp \<Rightarrow> timestamp \<Rightarrow> uuid \<Rightarrow> job_status \<Rightarrow> database \<Rightarrow> database" where
  "moved tn t jid st d =
     log_event tn jid (Entered st) (set_job jid (\<lambda>j. j\<lparr>j_status := st, j_updated_at := t\<rparr>) d)"

lemma set_row_keys_image [simp]:
  assumes "\<And>r. key (f r) = key r"
  shows "key ` set (set_row key k f rs) = key ` set rs"
proof -
  have "map key (set_row key k f rs) = map key rs" by (simp add: set_row_def assms)
  then show ?thesis by (metis list.set_map)
qed

text \<open>Running an operation on a state whose rows are known.\<close>

lemmas tx_eval = tx_bind_def tx_get_def tx_raise_def tx_return_def tx_modify_def
  database_time_def next_clock_def next_uuid_def next_random_def update_job_def update_attempt_def
  update_worker_def add_system_event_def get_job_def

lemma database_time_iff [tx_simps]:
  "database_time w = Inr (t, w') \<longleftrightarrow> t = clk w 0 \<and> w' = tick w"
  by (auto simp: database_time_def next_clock_iff)

lemma database_time_total [simp]: "database_time w \<noteq> Inl e"
  by (simp add: database_time_def)

lemma get_job_iff [tx_simps]:
  "get_job i w = Inr (job, w') \<longleftrightarrow> job_by_id i (db w) = Some job \<and> w' = w"
  by (auto simp: get_job_def tx_simps split: option.splits)

lemma transition_eval:
  "transition job st w =
     (if st \<notin> TRANSITIONS (j_status job)
      then Inl (Conflict (''Illegal transition '' @ status_name (j_status job) @ '' -> ''
             @ status_name st))
      else if j_id job \<notin> j_id ` set (jobs (db w)) then Inl (IntegrityError ''events_job_id_fkey'')
      else Inr ((), (tick w)\<lparr>db := moved (tx_now w) (clk w 0) (j_id job) st (db w)\<rparr>))"
  by (simp add: transition_def tx_eval add_event_def moved_def row_simps)

lemma transition_iff [tx_simps]:
  "transition job st w = Inr (u, w') \<longleftrightarrow>
     st \<in> TRANSITIONS (j_status job) \<and> j_id job \<in> j_id ` set (jobs (db w))
     \<and> w' = (tick w)\<lparr>db := moved (tx_now w) (clk w 0) (j_id job) st (db w)\<rparr>"
  by (auto simp: transition_eval)

lemma owned_iff:
  "owned jid wid tok fin w = Inr ((job, att), w') \<longleftrightarrow>
     job_by_id jid (db w) = Some job \<and> attempt_by_id tok (db w) = Some att
     \<and> a_job_id att = jid \<and> a_worker_id att = wid
     \<and> (if fin \<and> \<not> active att then w' = w
        else active att \<and> a_fence att = j_attempt_count job \<and> clk w 0 < a_expires_at att
             \<and> w' = tick w)"
  by (cases "job_by_id jid (db w)"; cases "attempt_by_id tok (db w)")
    (auto simp: owned_def tx_eval)

lemma owned_rows:
  assumes "owned jid wid tok fin w = Inr ((job, att), w')"
  shows "job \<in> set (jobs (db w))" "j_id job = jid" "att \<in> set (attempts (db w))" "a_id att = tok"
    "a_job_id att = jid" "a_worker_id att = wid"
  using assms by (auto simp: owned_iff dest: job_by_id_Some attempt_by_id_Some)

text \<open>The rows an unfinished assignment is checked against, and the readings it leaves behind.\<close>

lemma owned_cases:
  obtains (refused) e where "owned jid wid tok False w = Inl e"
  | (held) job att where "owned jid wid tok False w = Inr ((job, att), tick w)"
      and "job \<in> set (jobs (db w))" and "j_id job = jid"
proof (cases "owned jid wid tok False w")
  case (Inl e)
  then show ?thesis by (rule refused)
next
  case (Inr r)
  obtain job att w' where "r = ((job, att), w')" by (metis surj_pair)
  with Inr have own: "owned jid wid tok False w = Inr ((job, att), w')" by simp
  then have "w' = tick w" by (simp add: owned_iff)
  with own owned_rows [OF own] show ?thesis by (intro held) auto
qed

lemma start_iff:
  "start jid wid tok w = Inr (u, w') \<longleftrightarrow>
     (\<exists>job att. owned jid wid tok False w = Inr ((job, att), tick w)
        \<and> (j_status job = RUNNING \<and> w' = tick w
           \<or> j_status job = LEASED
              \<and> w' = (tick (tick (tick w)))\<lparr>db := moved (tx_now w) (clk w (Suc (Suc 0))) (j_id job) RUNNING
                   (set_attempt (a_id att) (\<lambda>a. a\<lparr>a_started_at := Some (clk w (Suc 0))\<rparr>) (db w))\<rparr>))"
  by (rule owned_cases [of jid wid tok w])
    (auto simp: start_def tx_eval transition_eval row_simps)

lemma renew_iff:
  "renew jid wid tok lease w = Inr (e, w') \<longleftrightarrow>
     (\<exists>job att s. owned jid wid tok False w = Inr ((job, att), tick w)
        \<and> a_started_at att = Some s
        \<and> e = min (clk w (Suc 0) + timedelta lease) (s + timedelta (j_timeout job + 5))
        \<and> clk w (Suc 0) < e
        \<and> w' = (tick (tick w))\<lparr>db := set_attempt (a_id att) (\<lambda>a. a\<lparr>a_expires_at := e\<rparr>) (db w)\<rparr>)"
proof (rule owned_cases [of jid wid tok w])
  fix job att
  assume own: "owned jid wid tok False w = Inr ((job, att), tick w)"
  then show ?thesis
    by (cases "a_started_at att") (auto simp: renew_def tx_eval Let_def)
qed (simp add: renew_def tx_eval)

lemma cancel_iff:
  "cancel jid w = Inr (u, w') \<longleftrightarrow>
     (\<exists>job. job_by_id jid (db w) = Some job
        \<and> (j_status job = CANCELLED \<and> w' = w
           \<or> j_status job \<in> {QUEUED, RETRY_WAIT}
              \<and> w' = (tick w)\<lparr>db := moved (tx_now w) (clk w 0) (j_id job) CANCELLED (db w)\<rparr>))"
  by (cases "job_by_id jid (db w)")
    (auto simp: cancel_def tx_eval transition_eval dest!: job_by_id_Some)

text \<open>The effects of the composite operations on the tables.\<close>

definition closed_attempt ::
    "timestamp \<Rightarrow> attempt_outcome \<Rightarrow> string \<Rightarrow> uuid \<Rightarrow> database \<Rightarrow> database" where
  "closed_attempt t out err i d = set_attempt i
     (\<lambda>a. a\<lparr>a_finished_at := Some t, a_outcome := Some out, a_error := Some err\<rparr>) d"

definition with_result :: "uuid \<Rightarrow> json option \<Rightarrow> string option \<Rightarrow> database \<Rightarrow> database" where
  "with_result i out err d =
     d\<lparr>results := results d @ [\<lparr>r_job_id = i, r_output = out, r_error = err\<rparr>]\<rparr>"

definition retry_factor :: "job_row \<Rightarrow> world \<Rightarrow> rat" where
  "retry_factor job w = (if j_retry_jitter job then 1 / 2 + randoms w 0 else 1)"

definition drawn :: "job_row \<Rightarrow> world \<Rightarrow> world" where
  "drawn job w = (if j_retry_jitter job then w\<lparr>randoms := (\<lambda>n. randoms w (Suc n))\<rparr> else w)"

definition retried :: "job_row \<Rightarrow> attempt_row \<Rightarrow> attempt_outcome \<Rightarrow> string \<Rightarrow> world \<Rightarrow> database" where
  "retried job att out err w =
     moved (tx_now w) (clk w (Suc 0)) (j_id job) RETRY_WAIT
       (set_job (j_id job)
         (\<lambda>j. j\<lparr>j_available_at := clk w 0 + timedelta (base_delay job * retry_factor job w)\<rparr>)
         (closed_attempt (clk w 0) out err (a_id att) (db w)))"

definition buried ::
    "job_status \<Rightarrow> job_row \<Rightarrow> attempt_row \<Rightarrow> attempt_outcome \<Rightarrow> string \<Rightarrow> world \<Rightarrow> database" where
  "buried st job att out err w =
     with_result (j_id job) None (Some err)
       (moved (tx_now w) (clk w (Suc 0)) (j_id job) st
         (closed_attempt (clk w 0) out err (a_id att) (db w)))"

lemma frame_composite [row_simps]:
  "jobs (moved tn t i st d) = set_row j_id i (\<lambda>j. j\<lparr>j_status := st, j_updated_at := t\<rparr>) (jobs d)"
  "attempts (moved tn t i st d) = attempts d" "results (moved tn t i st d) = results d"
  "workers (moved tn t i st d) = workers d" "system_events (moved tn t i st d) = system_events d"
  "jobs (closed_attempt t out err k d) = jobs d" "results (closed_attempt t out err k d) = results d"
  "workers (closed_attempt t out err k d) = workers d"
  "events (closed_attempt t out err k d) = events d"
  "jobs (with_result i o' err' d) = jobs d" "attempts (with_result i o' err' d) = attempts d"
  "workers (with_result i o' err' d) = workers d" "events (with_result i o' err' d) = events d"
  by (simp_all add: moved_def closed_attempt_def with_result_def row_simps)
    (simp_all add: log_event_def set_job_def)

lemma drawn_simps [simp]:
  "db (drawn job w) = db w" "clk (drawn job w) = clk w" "tx_now (drawn job w) = tx_now w"
  "locked_jobs (drawn job w) = locked_jobs w"
  "drawn job (w\<lparr>db := d\<rparr>) = (drawn job w)\<lparr>db := d\<rparr>"
  by (simp_all add: drawn_def)

lemma fail_attempt_eval:
  assumes "j_id job \<in> j_id ` set (jobs (db w))"
  shows "fail_attempt job att err retryable out w =
    (if retryable \<and> j_attempt_count job \<le> j_max_retries job
     then if RETRY_WAIT \<in> TRANSITIONS (j_status job)
       then Inr ((), (tick (drawn job (tick w)))\<lparr>db := retried job att out err w\<rparr>)
       else Inl (Conflict (''Illegal transition '' @ status_name (j_status job) @ '' -> RETRY_WAIT''))
     else let st = (if retryable then DEAD_LETTER else FAILED) in
       if st \<notin> TRANSITIONS (j_status job)
       then Inl (Conflict (''Illegal transition '' @ status_name (j_status job) @ '' -> ''
              @ status_name st))
       else if j_id job \<in> r_job_id ` set (results (db w)) then Inl (IntegrityError ''results_pkey'')
       else Inr ((), (tick (tick w))\<lparr>db := buried st job att out err w\<rparr>))"
  using assms
  by (simp add: fail_attempt_def tx_eval transition_eval jitter_factor_def row_simps
      retried_def buried_def with_result_def closed_attempt_def retry_factor_def drawn_def
      insert_result_def Let_def moved_def tick_def)

lemma finish_iff:
  "finish jid wid tok output error retryable w = Inr (u, w') \<longleftrightarrow>
     (\<exists>job att w1. owned jid wid tok True w = Inr ((job, att), w1)
        \<and> (\<not> active att \<and> a_outcome att \<in> {Some OutSucceeded, Some OutFailed}
             \<and> same_output (a_output att) output \<and> a_error att = error \<and> w' = w
           \<or> active att \<and> clk w (Suc 0) < a_expires_at att \<and> j_status job = RUNNING
             \<and> (case error of
                  Some msg \<Rightarrow> fail_attempt job att msg retryable OutFailed (tick (tick w)) = Inr ((), w')
                | None \<Rightarrow> j_id job \<notin> r_job_id ` set (results (db w))
                    \<and> w' = (tick (tick (tick (tick w))))\<lparr>db :=
                        moved (tx_now w) (clk w (Suc (Suc (Suc 0)))) (j_id job) SUCCEEDED
                          (with_result (j_id job) output None
                            (set_attempt (a_id att) (\<lambda>a. a\<lparr>a_output := output,
                               a_outcome := Some OutSucceeded,
                               a_finished_at := Some (clk w (Suc (Suc 0)))\<rparr>) (db w)))\<rparr>)))"
proof (cases "owned jid wid tok True w")
  case (Inl e)
  then show ?thesis by (simp add: finish_def tx_eval)
next
  case (Inr r)
  obtain job att w1 where r: "r = ((job, att), w1)" by (metis surj_pair)
  with Inr have own: "owned jid wid tok True w = Inr ((job, att), w1)" by simp
  note rows = owned_rows [OF own]
  show ?thesis
  proof (cases "active att")
    case False
    with own have "w1 = w" by (simp add: owned_iff)
    with False own show ?thesis by (auto simp: finish_def tx_eval)
  next
    case True
    with own have "w1 = tick w" "a_fence att = j_attempt_count job" by (simp_all add: owned_iff)
    with True own rows show ?thesis
      by (cases error) (auto simp: finish_def tx_eval transition_eval insert_result_def row_simps
          with_result_def Let_def split: if_splits)
  qed
qed

definition admitted :: "timestamp \<Rightarrow> job_row \<Rightarrow> database \<Rightarrow> database" where
  "admitted tn j d = log_event tn (j_id j) (Entered QUEUED)
     (log_event tn (j_id j) SUBMITTED (d\<lparr>jobs := jobs d @ [j]\<rparr>))"

lemma check_parent_iff [tx_simps]:
  "check_parent dep w = Inr (u, w') \<longleftrightarrow>
     w' = w \<and> (\<forall>p. dep = Some p \<longrightarrow>
       (\<exists>parent. job_by_id p (db w) = Some parent \<and> j_status parent \<in> insert SUCCEEDED ACTIVE))"
proof (cases dep)
  case None
  then show ?thesis by (auto simp: check_parent_def tx_eval)
next
  case (Some p)
  have "st \<in> TERMINAL - {SUCCEEDED} \<longleftrightarrow> st \<notin> insert SUCCEEDED ACTIVE" for st
    by (cases st) (auto simp: TERMINAL_def ACTIVE_def)
  with Some show ?thesis
    by (cases "job_by_id p (db w)") (auto simp: check_parent_def tx_eval)
qed

lemma admit_iff:
  "admit env s limit rate w = Inr ((job, created), w') \<longleftrightarrow>
     (\<exists>args digest. admit_args env (sub_task s) (sub_args s) = Inr args
        \<and> request_digest env s args = Some digest
        \<and> (\<not> created \<and> job_for_key (sub_idempotency_key s) (db w) = Some job
             \<and> j_request_hash job = Some digest \<and> w' = w
           \<or> created \<and> job_for_key (sub_idempotency_key s) (db w) = None
             \<and> admitted_active (db w) < limit \<and> recent_submissions (clk w 0) (db w) < rate
             \<and> check_parent (sub_depends_on s) (tick w) = Inr ((), tick w)
             \<and> job = new_job s args digest (uuids w 0) (clk w 0)
             \<and> insert_job job (tick w) = Inr ((), (tick w)\<lparr>db := (db w)\<lparr>jobs := jobs (db w) @ [job]\<rparr>\<rparr>)
             \<and> w' = (tick w)\<lparr>uuids := (\<lambda>n. uuids w (Suc n)), db := admitted (tx_now w) job (db w)\<rparr>))"
proof (cases "admit_args env (sub_task s) (sub_args s)")
  case (Inl e)
  then show ?thesis by (simp add: admit_def tx_raise_def)
next
  case args: (Inr args)
  show ?thesis
  proof (cases "request_digest env s args")
    case None
    with args show ?thesis by (simp add: admit_def tx_raise_def)
  next
    case digest: (Some digest)
    show ?thesis
    proof (cases "job_for_key (sub_idempotency_key s) (db w)")
      case (Some existing)
      with args digest show ?thesis by (auto simp: admit_def tx_eval)
    next
      case None
      have j: "j_id (new_job s args digest u t) = u" for u t by (simp add: new_job_def)
      from None args digest show ?thesis
        by (auto simp: admit_def tx_get_bind tx_bind_Inr database_time_iff next_uuid_iff
            check_parent_iff insert_job_iff add_event_iff admitted_def tx_return_def tx_raise_def j
            row_simps not_le split: if_splits)
    qed
  qed
qed

definition leased :: "timestamp \<Rightarrow> timestamp \<Rightarrow> job_row \<Rightarrow> attempt_row \<Rightarrow> database \<Rightarrow> database" where
  "leased tn t job att d =
     moved tn t (j_id job) LEASED
       ((set_job (j_id job) (\<lambda>j. j\<lparr>j_attempt_count := j_attempt_count job\<rparr>) d)
          \<lparr>attempts := attempts d @ [att]\<rparr>)"

text \<open>The unique and foreign keys an inserted lease has been checked against.\<close>

definition insertable :: "attempt_row \<Rightarrow> database \<Rightarrow> bool" where
  "insertable a d \<longleftrightarrow>
     a_id a \<notin> a_id ` set (attempts d) \<and> a_claim_id a \<notin> a_claim_id ` set (attempts d)
     \<and> slot_attempt (a_worker_id a) (a_slot a) d = None \<and> active_attempt (a_job_id a) d = None
     \<and> a_job_id a \<in> j_id ` set (jobs d) \<and> a_worker_id a \<in> w_id ` set (workers d)"

lemma lease_job_cases:
  assumes "lease_job worker slot cid policy lease w = Inr (r, w')"
  obtains (unhealthy) "w_state worker \<noteq> HEALTHY" "r = None" "w' = w"
  | (empty) query where "w_state worker = HEALTHY" "scheduler policy = Inr query"
      "first_unlocked (locked_jobs w) (query worker (clk w 0) (db w)) = None"
      "r = None" "w' = tick w"
  | (leased) query job0 job att row u c where
      "w_state worker = HEALTHY" "scheduler policy = Inr query"
      "first_unlocked (locked_jobs w) (query worker (clk w 0) (db w)) = Some job0"
      "job = job0\<lparr>j_attempt_count := j_attempt_count job0 + 1\<rparr>"
      "att = new_attempt u job (w_id worker) slot c (tx_now w) (clk w 0 + timedelta lease)"
      "cid \<noteq> None \<longrightarrow> cid = Some c" "insertable att (db w)"
      "LEASED \<in> TRANSITIONS (j_status job)"
      "db w' = leased (tx_now w) (clk w (Suc 0)) job att (db w)"
      "clk w' = (\<lambda>n. clk w (n + 2))" "tx_now w' = tx_now w"
      "job_by_id (j_id job) (db w') = Some row" "r = Some (row, att)"
proof (cases "w_state worker = HEALTHY")
  case False
  with assms show ?thesis by (intro unhealthy) (auto simp: lease_job_def tx_eval)
next
  case healthy: True
  with assms obtain query where query: "scheduler policy = Inr query"
    by (cases "scheduler policy") (auto simp: lease_job_def tx_eval)
  show ?thesis
  proof (cases "first_unlocked (locked_jobs w) (query worker (clk w 0) (db w))")
    case None
    with assms healthy query show ?thesis
      by (intro empty [of query]) (auto simp: lease_job_def tx_eval)
  next
    case (Some job0)
    define job where "job = job0\<lparr>j_attempt_count := j_attempt_count job0 + 1\<rparr>"
    let ?att = "\<lambda>u c. new_attempt u job (w_id worker) slot c (tx_now w) (clk w 0 + timedelta lease)"
    from assms healthy query Some obtain u c row where
      ins: "insertable (?att u c) (db w)" and c: "cid \<noteq> None \<longrightarrow> cid = Some c"
      and st: "LEASED \<in> TRANSITIONS (j_status job)"
      and d': "db w' = leased (tx_now w) (clk w (Suc 0)) job (?att u c) (db w)"
      and k: "clk w' = (\<lambda>n. clk w (n + 2))" "tx_now w' = tx_now w"
      and r: "job_by_id (j_id job) (db w') = Some row" "r = Some (row, ?att u c)"
      by (cases cid) (auto simp: lease_job_def tx_get_bind tx_bind_Inr database_time_iff tx_return_def
          update_iff next_uuid_iff tx_get_def insert_attempt_iff transition_iff get_job_iff Let_def
          insertable_def leased_def row_simps new_attempt_def job_def slot_attempt_def
          active_attempt_def tick_def simp del: image_iff del: imageE)
    from healthy query Some job_def refl c ins st d' k r show ?thesis by (rule leased)
  qed
qed

lemma attempt_by_claim_Some:
  "attempt_by_claim c d = Some a \<Longrightarrow> a \<in> set (attempts d) \<and> a_claim_id a = c"
  unfolding attempt_by_claim_def by (rule find_row_Some)

lemma claim_cases:
  assumes "claim wid slot cid policy lease w = Inr (r, w')"
  obtains (replay) worker att row where "worker_by_id wid (db w) = Some worker"
      "0 \<le> slot" "slot < w_capacity worker" "att \<in> set (attempts (db w))" "active att"
      "a_worker_id att = wid" "a_slot att = slot" "cid = None \<or> cid = Some (a_claim_id att)"
      "job_by_id (a_job_id att) (db w) = Some row" "r = Some (row, att)" "w' = w"
  | (fresh) worker where "worker_by_id wid (db w) = Some worker"
      "0 \<le> slot" "slot < w_capacity worker" "slot_attempt wid slot (db w) = None"
      "cid \<noteq> None \<longrightarrow> attempt_by_claim (the cid) (db w) = None"
      "lease_job worker slot cid policy lease w = Inr (r, w')"
proof -
  obtain worker where worker: "worker_by_id wid (db w) = Some worker"
    and slot: "0 \<le> slot" "slot < w_capacity worker"
    using assms by (cases "worker_by_id wid (db w)")
      (auto simp: claim_def tx_get_bind tx_raise_def split: if_splits)
  define known where "known = (case cid of None \<Rightarrow> None | Some c \<Rightarrow> attempt_by_claim c (db w))"
  show ?thesis
  proof (cases known)
    case (Some att)
    then have c: "cid = Some (a_claim_id att)" and att: "att \<in> set (attempts (db w))"
      by (auto simp: known_def dest: attempt_by_claim_Some split: option.splits)
    from assms worker slot Some obtain row where
      "active att" "a_worker_id att = wid" "a_slot att = slot"
      "job_by_id (a_job_id att) (db w) = Some row" "r = Some (row, att)" "w' = w"
      by (auto simp: claim_def tx_get_bind tx_bind_Inr get_job_iff tx_raise_def tx_return_def
          known_def [symmetric] split: if_splits)
    with worker slot c att show ?thesis by (intro replay) auto
  next
    case unknown: None
    then have n: "cid \<noteq> None \<longrightarrow> attempt_by_claim (the cid) (db w) = None"
      by (auto simp: known_def split: option.splits)
    show ?thesis
    proof (cases "slot_attempt wid slot (db w)")
      case None
      with assms worker slot unknown have "lease_job worker slot cid policy lease w = Inr (r, w')"
        by (simp add: claim_def tx_get_bind known_def [symmetric])
      with worker slot None n show ?thesis by (intro fresh) auto
    next
      case (Some att)
      with assms worker slot unknown obtain row where
        "cid = None \<or> cid = Some (a_claim_id att)"
        "job_by_id (a_job_id att) (db w) = Some row" "r = Some (row, att)" "w' = w"
        by (auto simp: claim_def tx_get_bind tx_bind_Inr get_job_iff tx_raise_def tx_return_def
            known_def [symmetric] split: if_splits)
      with worker slot slot_attempt_Some [OF Some] show ?thesis by (intro replay) auto
    qed
  qed
qed

end
