(* ===== verification/Protocol.thy ===== *)
theory Protocol
  imports Service
begin

text \<open>
  \<^verbatim>\<open>greyqueue/protocol.py\<close> and \<^verbatim>\<open>greyqueue/config.py\<close>: the bounds the declared fields put on request
  bodies and on the settings, and their \<^verbatim>\<open>model_validator\<close> methods. Parsing a body into its
  fields is pydantic's; what is modelled is which parsed values pass. A validator returns the
  message of the \<^verbatim>\<open>ValueError\<close> it raises on the left.
\<close>

section \<open>Limits\<close>

definition METADATA_LIMIT :: nat where "METADATA_LIMIT = 8000"

definition OUTPUT_LIMIT :: nat where "OUTPUT_LIMIT = 64000"

definition TEXT_LIMIT :: nat where "TEXT_LIMIT = 131072"

definition STATUSES :: "job_status list" where
  "STATUSES = [QUEUED, LEASED, RUNNING, SUCCEEDED, FAILED, CANCELLED, RETRY_WAIT, DEAD_LETTER]"

text \<open>The pattern \<^verbatim>\<open>^[a-zA-Z0-9_-]+$\<close>.\<close>

definition id_char :: "char \<Rightarrow> bool" where
  "id_char c =
     (let n = of_char c :: nat
      in 97 \<le> n \<and> n \<le> 122 \<or> 65 \<le> n \<and> n \<le> 90 \<or> 48 \<le> n \<and> n \<le> 57 \<or> n = 95 \<or> n = 45)"

definition WORKER_ID :: "string \<Rightarrow> bool" where
  "WORKER_ID s \<longleftrightarrow> s \<noteq> [] \<and> list_all id_char s"

section \<open>Request bodies\<close>

text \<open>An optional string as the JSON value \<^verbatim>\<open>json.dumps\<close> receives.\<close>

definition opt_str :: "string option \<Rightarrow> json" where
  "opt_str s = (case s of None \<Rightarrow> JNull | Some t \<Rightarrow> JStr t)"

definition opt_json :: "json option \<Rightarrow> json" where
  "opt_json v = (case v of None \<Rightarrow> JNull | Some x \<Rightarrow> x)"

definition Submit_fields :: "submission \<Rightarrow> bool" where
  "Submit_fields s \<longleftrightarrow>
     length (sub_task s) \<le> 64
     \<and> (\<exists>kvs. sub_args s = JObj kvs)
     \<and> - 100 \<le> sub_priority s \<and> sub_priority s \<le> 100
     \<and> 5 / 100 \<le> sub_timeout s \<and> sub_timeout s \<le> 300
     \<and> 0 \<le> sub_max_retries s \<and> sub_max_retries s \<le> 10
     \<and> 0 \<le> sub_retry_delay s \<and> sub_retry_delay s \<le> 300
     \<and> (case sub_idempotency_key s of None \<Rightarrow> True | Some k \<Rightarrow> 1 \<le> length k \<and> length k \<le> 128)
     \<and> (\<exists>kvs. sub_metadata s = Some (JObj kvs))"

fun chain :: "('e + 'a) list \<Rightarrow> 'e + unit" where
  "chain [] = Inr ()"
| "chain (Inl e # xs) = Inl e"
| "chain (Inr x # xs) = chain xs"

definition bounded_metadata :: "env \<Rightarrow> submission \<Rightarrow> string + unit" where
  "bounded_metadata env s =
     chain [storable (float_repr env) (metadata_or_empty (sub_metadata s)) METADATA_LIMIT ''Metadata'',
            storable (float_repr env) (sub_args s) TEXT_LIMIT ''Arguments'',
            storable (float_repr env) (opt_str (sub_idempotency_key s)) TEXT_LIMIT ''Idempotency key'']"

definition Submit_accepted :: "env \<Rightarrow> submission \<Rightarrow> bool" where
  "Submit_accepted env s \<longleftrightarrow> Submit_fields s \<and> bounded_metadata env s = Inr ()"

definition Identity_fields :: "string \<Rightarrow> bool" where
  "Identity_fields worker_id \<longleftrightarrow>
     1 \<le> length worker_id \<and> length worker_id \<le> 100 \<and> WORKER_ID worker_id"

record registration =
  reg_worker_id :: string
  reg_capacity :: int
  reg_capabilities :: "string list"
  reg_session_token :: string

definition known_capabilities :: "registration \<Rightarrow> string + unit" where
  "known_capabilities r =
     (if reg_capabilities r = [] \<or> \<not> set (reg_capabilities r) \<subseteq> fst ` set REGISTRY
      then Inl ''Unknown or empty task capabilities'' else Inr ())"

definition Registration_accepted :: "registration \<Rightarrow> bool" where
  "Registration_accepted r \<longleftrightarrow>
     Identity_fields (reg_worker_id r) \<and> 1 \<le> reg_capacity r \<and> reg_capacity r \<le> 32
     \<and> length (reg_capabilities r) \<le> 32
     \<and> 32 \<le> length (reg_session_token r) \<and> length (reg_session_token r) \<le> 128
     \<and> known_capabilities r = Inr ()"

record claim_body =
  cl_worker_id :: string
  cl_slot :: int
  cl_claim_id :: uuid

definition Claim_accepted :: "claim_body \<Rightarrow> bool" where
  "Claim_accepted c \<longleftrightarrow> Identity_fields (cl_worker_id c) \<and> 0 \<le> cl_slot c \<and> cl_slot c \<le> 31"

record assignment_body =
  as_worker_id :: string
  as_token :: uuid

definition Assignment_accepted :: "assignment_body \<Rightarrow> bool" where
  "Assignment_accepted a \<longleftrightarrow> Identity_fields (as_worker_id a)"

record completion = assignment_body +
  co_output :: "json option"
  co_error :: "string option"
  co_retryable :: bool

definition result_shape :: "env \<Rightarrow> completion \<Rightarrow> string + unit" where
  "result_shape env c =
     (if (co_output c = None) = (co_error c = None) then Inl ''Provide exactly one of output or error''
      else chain [storable (float_repr env) (opt_json (co_output c)) OUTPUT_LIMIT ''Output'',
                  storable (float_repr env) (opt_str (co_error c)) TEXT_LIMIT ''Error''])"

definition Completion_accepted :: "env \<Rightarrow> completion \<Rightarrow> bool" where
  "Completion_accepted env c \<longleftrightarrow>
     Identity_fields (as_worker_id c)
     \<and> (case co_output c of None \<Rightarrow> True | Some v \<Rightarrow> \<exists>kvs. v = JObj kvs)
     \<and> (case co_error c of None \<Rightarrow> True | Some e \<Rightarrow> 1 \<le> length e \<and> length e \<le> 4000)
     \<and> result_shape env c = Inr ()"

section \<open>Settings\<close>

record worker_settings =
  ws_worker_token :: string
  ws_coordinator_url :: string
  ws_worker_id :: string
  ws_poll_interval :: seconds
  ws_capacity :: int
  ws_capabilities :: "string list"
  ws_executor :: string

definition WorkerSettings_fields :: "worker_settings \<Rightarrow> bool" where
  "WorkerSettings_fields s \<longleftrightarrow>
     16 \<le> length (ws_worker_token s)
     \<and> length (ws_worker_id s) \<le> 100 \<and> list_all id_char (ws_worker_id s)
     \<and> 5 / 100 \<le> ws_poll_interval s \<and> ws_poll_interval s \<le> 30
     \<and> 1 \<le> ws_capacity s \<and> ws_capacity s \<le> 32
     \<and> ws_executor s \<in> {''subprocess'', ''thread'', ''process'', ''hybrid''}"

record settings = worker_settings +
  cfg_database_url :: string
  cfg_client_token :: string
  cfg_scheduler :: string
  cfg_heartbeat_interval :: seconds
  cfg_suspect_after :: seconds
  cfg_dead_after :: seconds
  cfg_lease_seconds :: seconds
  cfg_maintenance_interval :: seconds
  cfg_queue_limit :: int
  cfg_submissions_per_minute :: int
  cfg_require_tls :: bool
  cfg_allowed_hosts :: "string list"

definition Settings_fields :: "settings \<Rightarrow> bool" where
  "Settings_fields c \<longleftrightarrow>
     WorkerSettings_fields (worker_settings.truncate c) \<and> 16 \<le> length (cfg_client_token c)
     \<and> cfg_scheduler c \<in> {''fifo'', ''priority'', ''capacity''}
     \<and> 2 / 10 \<le> cfg_heartbeat_interval c \<and> cfg_heartbeat_interval c \<le> 60
     \<and> 5 / 10 \<le> cfg_suspect_after c \<and> cfg_suspect_after c \<le> 600
     \<and> 1 \<le> cfg_dead_after c \<and> cfg_dead_after c \<le> 3600
     \<and> 1 \<le> cfg_lease_seconds c \<and> cfg_lease_seconds c \<le> 300
     \<and> 1 / 10 \<le> cfg_maintenance_interval c \<and> cfg_maintenance_interval c \<le> 30
     \<and> 1 \<le> cfg_queue_limit c \<and> cfg_queue_limit c \<le> 1000000
     \<and> 1 \<le> cfg_submissions_per_minute c \<and> cfg_submissions_per_minute c \<le> 1000000
     \<and> 1 \<le> length (cfg_allowed_hosts c) \<and> length (cfg_allowed_hosts c) \<le> 32"

definition timings :: "settings \<Rightarrow> string + unit" where
  "timings c =
     (if cfg_client_token c = ws_worker_token c
      then Inl ''Client and worker credentials must differ''
      else if \<not> (cfg_heartbeat_interval c < cfg_suspect_after c
                  \<and> cfg_suspect_after c < cfg_dead_after c)
      then Inl ''Require heartbeat_interval < suspect_after < dead_after''
      else Inr ())"

definition Settings_accepted :: "settings \<Rightarrow> bool" where
  "Settings_accepted c \<longleftrightarrow> Settings_fields c \<and> timings c = Inr ()"

section \<open>What accepted values satisfy\<close>

lemma chain_Inr: "chain xs = Inr () \<longleftrightarrow> (\<forall>x \<in> set xs. \<exists>y. x = Inr y)"
  by (induction xs rule: chain.induct) auto

text \<open>A storable value has no NUL, whatever the text of its floats.\<close>

lemma storable_sound:
  assumes "storable fr v limit label = Inr e"
  shows "\<not> has_nul v" and "length e \<le> limit" and "dumps fr False v = Some e"
  using assms dumps_nul(1) [of fr False v e] by (auto simp: storable_Inr)

lemma scheduler_accepted:
  assumes "Settings_fields c"
  obtains query where "scheduler (cfg_scheduler c) = Inr query"
  using assms by (auto simp: Settings_fields_def scheduler_def)

lemma max_retries_accepted: "Submit_accepted env s \<Longrightarrow> 0 \<le> sub_max_retries s"
  by (simp add: Submit_accepted_def Submit_fields_def)

text \<open>
  The NUL check is stricter than its message: the six characters of the escape sequence
  written out (a backslash, u and four zeros) hold no NUL character, yet \<^verbatim>\<open>storable\<close> refuses them as
  if they did, since the encoder's doubled backslash still contains the escape.
\<close>

lemma storable_rejects_clean_text:
  "\<not> has_nul (JStr nul_escape)
   \<and> storable fr (JStr nul_escape) TEXT_LIMIT label = Inl (label @ '' must not contain NUL characters'')"
  by (simp add: storable_def nul_escape_def quoted_def escape_char_def TEXT_LIMIT_def sublist_code)

end
