(* ===== verification/Lifecycle.thy ===== *)
theory Lifecycle
  imports Service
begin

text \<open>
  The contract of the queue tables: an abstract step relation on databases, one rule per thing
  that may happen to a job (submission, lease, start, renewal, success, retry, permanent end,
  cancellation) or to the workers and the system log, and the invariant every step keeps. The
  operations of the program are shown to refine these steps in the theories that follow.
\<close>

section \<open>Abstract steps\<close>

definition put_job :: "job_row \<Rightarrow> database \<Rightarrow> database" where
  "put_job j d = d\<lparr>jobs := set_row j_id (j_id j) (\<lambda>_. j) (jobs d)\<rparr>"

definition put_attempt :: "attempt_row \<Rightarrow> database \<Rightarrow> database" where
  "put_attempt a d = d\<lparr>attempts := set_row a_id (a_id a) (\<lambda>_. a) (attempts d)\<rparr>"

text \<open>The attempt that currently owns a job.\<close>

definition holds :: "attempt_row \<Rightarrow> job_row \<Rightarrow> database \<Rightarrow> bool" where
  "holds a j d \<longleftrightarrow> j \<in> set (jobs d) \<and> a \<in> set (attempts d) \<and> a_job_id a = j_id j \<and> active a
     \<and> a_fence a = j_attempt_count j"

text \<open>
  A registered worker: bounded capacity, known capabilities, a session, and an operator's drain
  request recorded in the flag and in the state (unless the worker is dead).
\<close>

definition worker_ok :: "worker_row \<Rightarrow> bool" where
  "worker_ok v \<longleftrightarrow> 1 \<le> w_capacity v \<and> w_capacity v \<le> 32
     \<and> w_capabilities v \<noteq> [] \<and> set (w_capabilities v) \<subseteq> fst ` set REGISTRY
     \<and> w_session_hash v \<noteq> None
     \<and> (w_state v = DRAINING \<longrightarrow> w_drain_requested v)
     \<and> (w_drain_requested v \<longrightarrow> w_state v \<in> {DRAINING, DEAD})"

inductive db_step :: "database \<Rightarrow> database \<Rightarrow> bool" where
  submitted: "\<lbrakk> j_id j \<notin> j_id ` set (jobs d);
      j_idempotency_key j \<noteq> None \<longrightarrow> j_idempotency_key j \<notin> j_idempotency_key ` set (jobs d);
      \<forall>p. j_depends_on j = Some p \<longrightarrow> p \<in> j_id ` set (jobs d);
      j_status j = QUEUED; j_attempt_count j = 0; 0 \<le> j_max_retries j \<rbrakk>
    \<Longrightarrow> db_step d (admitted tn j d)"
| leased: "\<lbrakk> j \<in> set (jobs d); j_status j \<in> {QUEUED, RETRY_WAIT};
      j_depends_on j = None \<or> ready_parent d j;
      j' = j\<lparr>j_attempt_count := j_attempt_count j + 1, j_status := LEASED, j_updated_at := t\<rparr>;
      a_job_id a = j_id j; a_fence a = j_attempt_count j + 1; insertable a d; active a;
      a_outcome a = None; a_started_at a = None; a_output a = None; a_error a = None \<rbrakk>
    \<Longrightarrow> db_step d (log_event tn (j_id j) (Entered LEASED)
          ((put_job j' d)\<lparr>attempts := attempts d @ [a]\<rparr>))"
| started: "\<lbrakk> holds a j d; j_status j = LEASED; a' = a\<lparr>a_started_at := Some s\<rparr>;
      j' = j\<lparr>j_status := RUNNING, j_updated_at := t\<rparr> \<rbrakk>
    \<Longrightarrow> db_step d (log_event tn (j_id j) (Entered RUNNING) (put_job j' (put_attempt a' d)))"
| renewed: "\<lbrakk> holds a j d; a_started_at a \<noteq> None; a' = a\<lparr>a_expires_at := e\<rparr> \<rbrakk>
    \<Longrightarrow> db_step d (put_attempt a' d)"
| succeeded: "\<lbrakk> holds a j d; j_status j = RUNNING;
      a' = a\<lparr>a_output := out, a_outcome := Some OutSucceeded, a_finished_at := Some f\<rparr>;
      j' = j\<lparr>j_status := SUCCEEDED, j_updated_at := t\<rparr> \<rbrakk>
    \<Longrightarrow> db_step d (log_event tn (j_id j) (Entered SUCCEEDED)
          (put_job j' (with_result (j_id j) out None (put_attempt a' d))))"
| retried: "\<lbrakk> holds a j d; j_status j \<in> {LEASED, RUNNING}; j_attempt_count j \<le> j_max_retries j;
      oc \<noteq> OutSucceeded;
      a' = a\<lparr>a_finished_at := Some f, a_outcome := Some oc, a_error := Some err\<rparr>;
      j' = j\<lparr>j_available_at := av, j_status := RETRY_WAIT, j_updated_at := t\<rparr> \<rbrakk>
    \<Longrightarrow> db_step d (log_event tn (j_id j) (Entered RETRY_WAIT) (put_job j' (put_attempt a' d)))"
| buried: "\<lbrakk> holds a j d; st \<in> {FAILED, DEAD_LETTER}; st \<in> TRANSITIONS (j_status j);
      st = DEAD_LETTER \<longrightarrow> j_max_retries j < j_attempt_count j; oc \<noteq> OutSucceeded;
      a' = a\<lparr>a_finished_at := Some f, a_outcome := Some oc, a_error := Some err\<rparr>;
      j' = j\<lparr>j_status := st, j_updated_at := t\<rparr> \<rbrakk>
    \<Longrightarrow> db_step d (log_event tn (j_id j) (Entered st)
          (put_job j' (with_result (j_id j) None (Some err) (put_attempt a' d))))"
| cancelled: "\<lbrakk> j \<in> set (jobs d); j_status j \<in> {QUEUED, RETRY_WAIT};
      j' = j\<lparr>j_status := CANCELLED, j_updated_at := t\<rparr> \<rbrakk>
    \<Longrightarrow> db_step d (log_event tn (j_id j) (Entered CANCELLED) (put_job j' d))"
| workers_changed: "\<lbrakk> distinct (map w_id ws); w_id ` set (workers d) \<subseteq> w_id ` set ws;
      \<forall>v \<in> set ws. worker_ok v \<rbrakk>
    \<Longrightarrow> db_step d (d\<lparr>workers := ws\<rparr>)"
| noted: "db_step d (d\<lparr>system_events := es\<rparr>)"

section \<open>The invariant\<close>

definition keys_ok :: "database \<Rightarrow> bool" where
  "keys_ok d \<longleftrightarrow> distinct (map j_id (jobs d)) \<and> distinct (map a_id (attempts d))
     \<and> distinct (map a_claim_id (attempts d)) \<and> distinct (map w_id (workers d))
     \<and> distinct (map r_job_id (results d))
     \<and> distinct (filter (\<lambda>k. k \<noteq> None) (map j_idempotency_key (jobs d)))"

definition refs_ok :: "database \<Rightarrow> bool" where
  "refs_ok d \<longleftrightarrow> (\<forall>a \<in> set (attempts d). a_job_id a \<in> j_id ` set (jobs d)
        \<and> a_worker_id a \<in> w_id ` set (workers d))
     \<and> (\<forall>r \<in> set (results d). r_job_id r \<in> j_id ` set (jobs d))
     \<and> (\<forall>e \<in> set (events d). e_job_id e \<in> j_id ` set (jobs d))"

text \<open>A job depends only on jobs submitted before it.\<close>

definition parents_first :: "(uuid \<times> uuid option) list \<Rightarrow> bool" where
  "parents_first xs \<longleftrightarrow>
     (\<forall>i < length xs. \<forall>p. snd (xs ! i) = Some p \<longrightarrow> p \<in> fst ` set (take i xs))"

definition forest_ok :: "database \<Rightarrow> bool" where
  "forest_ok d \<longleftrightarrow> parents_first (map (\<lambda>j. (j_id j, j_depends_on j)) (jobs d))"

text \<open>The fences of a job's attempts, in the order they were created.\<close>

definition fences :: "uuid \<Rightarrow> attempt_row list \<Rightarrow> int list" where
  "fences i as = map a_fence (filter (\<lambda>a. a_job_id a = i) as)"

definition fences_ok :: "database \<Rightarrow> bool" where
  "fences_ok d \<longleftrightarrow>
     (\<forall>j \<in> set (jobs d). 0 \<le> j_attempt_count j
        \<and> fences (j_id j) (attempts d) = [1..j_attempt_count j])"

text \<open>
  An attempt against its job: it is unfinished exactly while the job is leased or running under
  its fence, and it succeeded exactly when the job did under its fence.
\<close>

definition lease_ok :: "job_row \<Rightarrow> attempt_row \<Rightarrow> bool" where
  "lease_ok j a \<longleftrightarrow>
     (active a \<longleftrightarrow> j_status j \<in> {LEASED, RUNNING} \<and> a_fence a = j_attempt_count j)
     \<and> (active a \<longleftrightarrow> a_outcome a = None)
     \<and> (active a \<longrightarrow> (a_started_at a = None \<longleftrightarrow> j_status j = LEASED)
          \<and> a_output a = None \<and> a_error a = None)
     \<and> (a_outcome a = Some OutSucceeded \<longleftrightarrow> j_status j = SUCCEEDED \<and> a_fence a = j_attempt_count j)"

definition owner_ok :: "database \<Rightarrow> bool" where
  "owner_ok d \<longleftrightarrow>
     (\<forall>j \<in> set (jobs d). (j_status j \<in> {LEASED, RUNNING} \<longrightarrow> 1 \<le> j_attempt_count j)
        \<and> (\<forall>a \<in> set (attempts d). a_job_id a = j_id j \<longrightarrow> lease_ok j a))"

definition slots_ok :: "database \<Rightarrow> bool" where
  "slots_ok d \<longleftrightarrow>
     (\<forall>a \<in> set (attempts d). \<forall>b \<in> set (attempts d). active a \<longrightarrow> active b
        \<longrightarrow> a_worker_id a = a_worker_id b \<longrightarrow> a_slot a = a_slot b \<longrightarrow> a = b)"

definition results_ok :: "database \<Rightarrow> bool" where
  "results_ok d \<longleftrightarrow>
     (\<forall>j \<in> set (jobs d). j_id j \<in> r_job_id ` set (results d)
        \<longleftrightarrow> j_status j \<in> {SUCCEEDED, FAILED, DEAD_LETTER})"

definition budget_ok :: "database \<Rightarrow> bool" where
  "budget_ok d \<longleftrightarrow>
     (\<forall>j \<in> set (jobs d). 0 \<le> j_max_retries j \<and> j_attempt_count j \<le> j_max_retries j + 1
        \<and> (j_status j = QUEUED \<longrightarrow> j_attempt_count j = 0)
        \<and> (j_status j = RETRY_WAIT \<longrightarrow> j_attempt_count j \<le> j_max_retries j)
        \<and> (j_status j = DEAD_LETTER \<longrightarrow> j_attempt_count j = j_max_retries j + 1))"

text \<open>A job that was ever leased has no parent or a parent that succeeded.\<close>

definition deps_ok :: "database \<Rightarrow> bool" where
  "deps_ok d \<longleftrightarrow>
     (\<forall>j \<in> set (jobs d). 1 \<le> j_attempt_count j \<longrightarrow> j_depends_on j = None \<or> ready_parent d j)"

text \<open>The events of a job spell a walk through \<open>TRANSITIONS\<close> that ends in its status.\<close>

definition history :: "uuid \<Rightarrow> database \<Rightarrow> event_state list" where
  "history i d = map e_state (filter (\<lambda>e. e_job_id e = i) (events d))"

fun walk :: "job_status \<Rightarrow> event_state list \<Rightarrow> job_status option" where
  "walk s [] = Some s"
| "walk s (Entered s' # h) = (if s' \<in> TRANSITIONS s then walk s' h else None)"
| "walk s (SUBMITTED # h) = None"

fun lawful_history :: "event_state list \<Rightarrow> job_status \<Rightarrow> bool" where
  "lawful_history (SUBMITTED # Entered QUEUED # h) s = (walk QUEUED h = Some s)"
| "lawful_history _ s = False"

definition history_ok :: "database \<Rightarrow> bool" where
  "history_ok d \<longleftrightarrow> (\<forall>j \<in> set (jobs d). lawful_history (history (j_id j) d) (j_status j))"

definition fleet_ok :: "database \<Rightarrow> bool" where
  "fleet_ok d \<longleftrightarrow> (\<forall>v \<in> set (workers d). worker_ok v)"

definition db_inv :: "database \<Rightarrow> bool" where
  "db_inv d \<longleftrightarrow> keys_ok d \<and> refs_ok d \<and> forest_ok d \<and> fences_ok d \<and> owner_ok d \<and> slots_ok d
     \<and> results_ok d \<and> budget_ok d \<and> deps_ok d \<and> history_ok d \<and> fleet_ok d"

definition empty_db :: database where
  "empty_db = \<lparr>workers = [], jobs = [], attempts = [], results = [], events = [], system_events = []\<rparr>"

lemma empty_db_inv: "db_inv empty_db"
  by (simp add: db_inv_def empty_db_def keys_ok_def refs_ok_def forest_ok_def parents_first_def
      fences_ok_def owner_ok_def slots_ok_def results_ok_def budget_ok_def deps_ok_def history_ok_def fleet_ok_def)

section \<open>The shape of a step\<close>

lemma frame_put [row_simps]:
  "jobs (put_job j d) = set_row j_id (j_id j) (\<lambda>_. j) (jobs d)" "attempts (put_job j d) = attempts d"
  "results (put_job j d) = results d" "workers (put_job j d) = workers d"
  "events (put_job j d) = events d"
  "attempts (put_attempt a d) = set_row a_id (a_id a) (\<lambda>_. a) (attempts d)"
  "jobs (put_attempt a d) = jobs d" "results (put_attempt a d) = results d"
  "workers (put_attempt a d) = workers d" "events (put_attempt a d) = events d"
  "results (with_result i out err d) = results d @ [\<lparr>r_job_id = i, r_output = out, r_error = err\<rparr>]"
  by (simp_all add: put_job_def put_attempt_def with_result_def)

lemma frame_admitted [row_simps]:
  "jobs (admitted tn j d) = jobs d @ [j]" "attempts (admitted tn j d) = attempts d"
  "results (admitted tn j d) = results d" "workers (admitted tn j d) = workers d"
  "history i (admitted tn j d)
     = history i d @ (if i = j_id j then [SUBMITTED, Entered QUEUED] else [])"
  by (simp_all add: admitted_def row_simps history_def)

text \<open>The columns a submission fixes.\<close>

definition same_request :: "job_row \<Rightarrow> job_row \<Rightarrow> bool" where
  "same_request j j' \<longleftrightarrow> j_id j' = j_id j \<and> j_priority j' = j_priority j \<and> j_timeout j' = j_timeout j
     \<and> j_max_retries j' = j_max_retries j \<and> j_retry_delay j' = j_retry_delay j
     \<and> j_retry_jitter j' = j_retry_jitter j \<and> j_idempotency_key j' = j_idempotency_key j
     \<and> j_request_hash j' = j_request_hash j \<and> j_metadata_json j' = j_metadata_json j
     \<and> j_depends_on j' = j_depends_on j \<and> j_task j' = j_task j \<and> j_args j' = j_args j
     \<and> j_created_at j' = j_created_at j"

text \<open>What a step does to the jobs and the job events.\<close>

lemma job_shape:
  assumes "db_step d d'"
  obtains (new) tn j where "d' = admitted tn j d" "j_id j \<notin> j_id ` set (jobs d)"
      "j_idempotency_key j \<noteq> None \<longrightarrow> j_idempotency_key j \<notin> j_idempotency_key ` set (jobs d)"
      "\<forall>p. j_depends_on j = Some p \<longrightarrow> p \<in> j_id ` set (jobs d)" "j_status j = QUEUED"
  | (move) j j' e where "j \<in> set (jobs d)" "jobs d' = set_row j_id (j_id j) (\<lambda>_. j') (jobs d)"
      "j_id j' = j_id j" "j_depends_on j' = j_depends_on j"
      "j_idempotency_key j' = j_idempotency_key j" "j_status j' \<in> TRANSITIONS (j_status j)"
      "events d' = events d @ [e]" "e_job_id e = j_id j" "e_state e = Entered (j_status j')"
      "same_request j j'"
  | (same) "jobs d' = jobs d" "events d' = events d"
  using assms
proof cases
  case (submitted j tn)
  then show ?thesis by (intro new) auto
next
  case (leased j j' t a tn)
  then show ?thesis by (intro move [of j j']) (auto simp: row_simps same_request_def)
next
  case (started a j a' s j' t tn)
  then show ?thesis by (intro move [of j j']) (auto simp: row_simps same_request_def holds_def)
next
  case (renewed a j a' e)
  then show ?thesis by (intro same) (auto simp: row_simps same_request_def)
next
  case (succeeded a j a' out f j' t tn)
  then show ?thesis by (intro move [of j j']) (auto simp: row_simps same_request_def holds_def)
next
  case (retried a j oc a' f err j' av t tn)
  then show ?thesis by (intro move [of j j']) (auto simp: row_simps same_request_def holds_def)
next
  case (buried a j st oc a' f err j' t tn)
  then show ?thesis by (intro move [of j j']) (auto simp: row_simps same_request_def holds_def)
next
  case (cancelled j j' t tn)
  then show ?thesis by (intro move [of j j']) (auto simp: row_simps same_request_def)
next
  case (workers_changed ws)
  then show ?thesis by (intro same) auto
next
  case (noted es)
  then show ?thesis by (intro same) auto
qed

text \<open>What a step does to the attempts: append a lease, change one unfinished attempt, or nothing.\<close>

definition same_lease :: "attempt_row \<Rightarrow> attempt_row \<Rightarrow> bool" where
  "same_lease a a' \<longleftrightarrow> a_id a' = a_id a \<and> a_job_id a' = a_job_id a \<and> a_worker_id a' = a_worker_id a
     \<and> a_slot a' = a_slot a \<and> a_claim_id a' = a_claim_id a \<and> a_fence a' = a_fence a"

lemma attempt_shape:
  assumes "db_step d d'"
  obtains (lease) a where "attempts d' = attempts d @ [a]" "insertable a d" "active a"
      "w_id ` set (workers d) \<subseteq> w_id ` set (workers d')"
  | (touch) a a' where "a \<in> set (attempts d)" "active a"
      "attempts d' = set_row a_id (a_id a) (\<lambda>_. a') (attempts d)" "same_lease a a'"
      "w_id ` set (workers d) \<subseteq> w_id ` set (workers d')"
  | (same) "attempts d' = attempts d" "w_id ` set (workers d) \<subseteq> w_id ` set (workers d')"
  using assms
proof cases
  case (submitted j tn)
  then show ?thesis by (intro same) (auto simp: row_simps)
next
  case (leased j j' t a tn)
  then show ?thesis by (intro lease [of a]) (auto simp: row_simps)
next
  case (started a j a' s j' t tn)
  then show ?thesis by (intro touch [of a a']) (auto simp: row_simps holds_def same_lease_def)
next
  case (renewed a j a' e)
  then show ?thesis by (intro touch [of a a']) (auto simp: row_simps holds_def same_lease_def)
next
  case (succeeded a j a' out f j' t tn)
  then show ?thesis by (intro touch [of a a']) (auto simp: row_simps holds_def same_lease_def)
next
  case (retried a j oc a' f err j' av t tn)
  then show ?thesis by (intro touch [of a a']) (auto simp: row_simps holds_def same_lease_def)
next
  case (buried a j st oc a' f err j' t tn)
  then show ?thesis by (intro touch [of a a']) (auto simp: row_simps holds_def same_lease_def)
next
  case (cancelled j j' t tn)
  then show ?thesis by (intro same) (auto simp: row_simps)
next
  case (workers_changed ws)
  then show ?thesis by (intro same) auto
next
  case (noted es)
  then show ?thesis by (intro same) auto
qed

section \<open>Every step keeps the invariant\<close>

lemma parents_first_snoc:
  assumes "parents_first xs" and "\<forall>p. snd x = Some p \<longrightarrow> p \<in> fst ` set xs"
  shows "parents_first (xs @ [x])"
  unfolding parents_first_def
proof (intro allI impI)
  fix i p
  assume i: "i < length (xs @ [x])" and p: "snd ((xs @ [x]) ! i) = Some p"
  show "p \<in> fst ` set (take i (xs @ [x]))"
  proof (cases "i < length xs")
    case True
    with p assms(1) show ?thesis by (auto simp: nth_append parents_first_def)
  next
    case False
    with i have "i = length xs" by simp
    with p assms(2) show ?thesis by simp
  qed
qed

lemma keep_forest:
  assumes "db_step d d'" and "keys_ok d" and "forest_ok d"
  shows "forest_ok d'"
  using assms(1)
proof (cases rule: job_shape)
  case (new tn j)
  with assms(3) show ?thesis
    by (auto simp: forest_ok_def row_simps image_image intro!: parents_first_snoc)
next
  case (move j j' e)
  have "map (\<lambda>j. (j_id j, j_depends_on j)) (jobs d') = map (\<lambda>j. (j_id j, j_depends_on j)) (jobs d)"
    unfolding move(2) by (rule job_table.replace_map)
      (use assms(2) move in \<open>auto simp: keys_ok_def\<close>)
  with assms(3) show ?thesis by (simp add: forest_ok_def)
next
  case same
  with assms(3) show ?thesis by (simp add: forest_ok_def)
qed

lemma walk_snoc: "walk s (h @ [Entered u]) = (case walk s h of None \<Rightarrow> None
    | Some t \<Rightarrow> if u \<in> TRANSITIONS t then Some u else None)"
  by (induction s h rule: walk.induct) auto

lemma lawful_history_snoc:
  assumes "lawful_history h s" and "u \<in> TRANSITIONS s"
  shows "lawful_history (h @ [Entered u]) u"
  using assms by (cases "(h, s)" rule: lawful_history.cases) (auto simp: walk_snoc)

lemma refs_history_fresh:
  assumes "refs_ok d" and "i \<notin> j_id ` set (jobs d)"
  shows "history i d = []"
  using assms by (auto simp: refs_ok_def history_def filter_empty_conv)

lemma keep_history:
  assumes "db_step d d'" and "keys_ok d" and "refs_ok d" and "history_ok d"
  shows "history_ok d'"
  using assms(1)
proof (cases rule: job_shape)
  case (new tn j)
  have "history (j_id j) d = []" using assms(3) new by (intro refs_history_fresh) auto
  with new assms(4) show ?thesis
    by (auto simp: history_ok_def row_simps)
next
  case (move j j' e)
  have hist: "history i d' = history i d @ (if i = j_id j then [Entered (j_status j')] else [])" for i
    by (simp add: history_def move)
  have "set (jobs d') = insert j' (set (jobs d) - {j})"
    unfolding move(2) by (rule job_table.replace_set)
      (use assms(2) move in \<open>auto simp: keys_ok_def\<close>)
  moreover have "i \<in> set (jobs d) \<Longrightarrow> i \<noteq> j \<Longrightarrow> j_id i \<noteq> j_id j" for i
    using assms(2) move(1) by (auto simp: keys_ok_def distinct_map dest: inj_onD)
  moreover have "lawful_history (history (j_id j) d @ [Entered (j_status j')]) (j_status j')"
    using assms(4) move(1,6) by (intro lawful_history_snoc) (auto simp: history_ok_def)
  ultimately show ?thesis
    using assms(4) move(3) by (auto simp: history_ok_def hist)
next
  case same
  with assms(4) show ?thesis by (simp add: history_ok_def history_def)
qed

lemma keep_keys:
  assumes step: "db_step d d'" and keys: "keys_ok d" and res: "results_ok d"
  shows "keys_ok d'"
proof -
  have j: "distinct (map j_id (jobs d'))
      \<and> distinct (filter (\<lambda>k. k \<noteq> None) (map j_idempotency_key (jobs d')))"
    using step
  proof (cases rule: job_shape)
    case (new tn j)
    with keys show ?thesis by (auto simp: keys_ok_def row_simps)
  next
    case (move j j' e)
    have u: "distinct (map j_id (jobs d))" using keys by (simp add: keys_ok_def)
    have "map j_id (jobs d') = map j_id (jobs d)"
      "map j_idempotency_key (jobs d') = map j_idempotency_key (jobs d)"
      unfolding move(2) using move(1,3,5) by (auto intro!: job_table.replace_map [OF u])
    then show ?thesis using keys by (simp only: keys_ok_def)
  next
    case same
    with keys show ?thesis by (simp add: keys_ok_def)
  qed
  have a: "distinct (map a_id (attempts d')) \<and> distinct (map a_claim_id (attempts d'))"
    using step
  proof (cases rule: attempt_shape)
    case (lease a)
    with keys show ?thesis by (auto simp: keys_ok_def insertable_def)
  next
    case (touch a a')
    have "map g (attempts d') = map g (attempts d)" if "g a' = g a" for g :: "attempt_row \<Rightarrow> uuid"
      unfolding touch(3)
      by (rule attempt_table.replace_map) (use keys touch that in \<open>auto simp: keys_ok_def\<close>)
    with keys touch show ?thesis by (simp add: keys_ok_def same_lease_def)
  next
    case same
    with keys show ?thesis by (simp add: keys_ok_def)
  qed
  have "distinct (map w_id (workers d')) \<and> distinct (map r_job_id (results d'))"
    using step keys res
    by cases (auto simp: keys_ok_def row_simps results_ok_def holds_def)
  with j a show ?thesis by (simp add: keys_ok_def)
qed

lemma step_job_ids:
  assumes "db_step d d'" and "keys_ok d"
  shows "j_id ` set (jobs d) \<subseteq> j_id ` set (jobs d')"
  using assms(1)
proof (cases rule: job_shape)
  case (move j j' e)
  have "map j_id (jobs d') = map j_id (jobs d)"
    unfolding move(2) by (rule job_table.replace_map) (use assms move in \<open>auto simp: keys_ok_def\<close>)
  then have "set (map j_id (jobs d')) = set (map j_id (jobs d))" by simp
  then show ?thesis by simp
qed (auto simp: row_simps)

lemma keep_refs:
  assumes step: "db_step d d'" and keys: "keys_ok d" and refs: "refs_ok d"
  shows "refs_ok d'"
proof -
  note ids = step_job_ids [OF step keys]
  have a: "\<forall>a \<in> set (attempts d'). a_job_id a \<in> j_id ` set (jobs d)
      \<and> a_worker_id a \<in> w_id ` set (workers d')"
    using step
  proof (cases rule: attempt_shape)
    case (lease a)
    with refs show ?thesis by (auto simp: refs_ok_def insertable_def)
  next
    case (touch a a')
    have "set (attempts d') = insert a' (set (attempts d) - {a})"
      unfolding touch(3) by (rule attempt_table.replace_set)
        (use keys touch in \<open>auto simp: keys_ok_def same_lease_def\<close>)
    then have "\<exists>c \<in> set (attempts d). same_lease c b" if "b \<in> set (attempts d')" for b
      using that touch(1,4) by (auto simp: same_lease_def)
    with touch(5) refs show ?thesis unfolding refs_ok_def same_lease_def by (metis subsetD)
  next
    case same
    with refs show ?thesis by (auto simp: refs_ok_def)
  qed
  have "\<forall>r \<in> set (results d'). r_job_id r \<in> j_id ` set (jobs d)"
    using step refs by cases (auto simp: refs_ok_def row_simps holds_def)
  moreover have "\<forall>e \<in> set (events d'). e_job_id e \<in> j_id ` set (jobs d')"
    using step
  proof (cases rule: job_shape)
    case (new tn j)
    with refs show ?thesis by (auto simp: refs_ok_def admitted_def row_simps)
  next
    case (move j j' e)
    with refs ids show ?thesis by (auto simp: refs_ok_def)
  next
    case same
    with refs ids show ?thesis by (auto simp: refs_ok_def)
  qed
  ultimately show ?thesis using a ids by (auto simp: refs_ok_def)
qed

lemma keep_slots:
  assumes step: "db_step d d'" and keys: "keys_ok d" and slots: "slots_ok d"
  shows "slots_ok d'"
  using step
proof (cases rule: attempt_shape)
  case (lease a)
  with slots show ?thesis by (auto simp: slots_ok_def insertable_def slot_attempt_None)
next
  case (touch a a')
  have "set (attempts d') = insert a' (set (attempts d) - {a})"
    unfolding touch(3) by (rule attempt_table.replace_set)
      (use keys touch in \<open>auto simp: keys_ok_def same_lease_def\<close>)
  then have old: "\<exists>c \<in> set (attempts d). active c \<and> same_lease c b
      \<and> (b = (if c = a then a' else c))" if "b \<in> set (attempts d')" "active b" for b
    using that touch(1,2,4) by (cases "b \<in> set (attempts d) - {a}") (auto simp: same_lease_def)
  show ?thesis
    unfolding slots_ok_def
  proof (intro ballI impI)
    fix b c
    assume b: "b \<in> set (attempts d')" "active b" and c: "c \<in> set (attempts d')" "active c"
      and same: "a_worker_id b = a_worker_id c" "a_slot b = a_slot c"
    from old [OF b] old [OF c] obtain b0 c0 where
      "b0 \<in> set (attempts d)" "active b0" "same_lease b0 b" "b = (if b0 = a then a' else b0)"
      "c0 \<in> set (attempts d)" "active c0" "same_lease c0 c" "c = (if c0 = a then a' else c0)"
      by blast
    moreover from this same slots have "b0 = c0" by (simp add: slots_ok_def same_lease_def)
    ultimately show "b = c" by simp
  qed
next
  case same
  with slots show ?thesis by (simp add: slots_ok_def)
qed

text \<open>The rows after one job, or one attempt, is replaced.\<close>

lemma put_job_rows:
  assumes "keys_ok d" and "j \<in> set (jobs d)" and "j_id j' = j_id j"
  shows "set (set_row j_id (j_id j) (\<lambda>_. j') (jobs d)) = insert j' (set (jobs d) - {j})"
  using assms by (intro job_table.replace_set) (auto simp: keys_ok_def)

lemma put_attempt_rows:
  assumes "keys_ok d" and "a \<in> set (attempts d)" and "same_lease a a'"
  shows "set (set_row a_id (a_id a) (\<lambda>_. a') (attempts d)) = insert a' (set (attempts d) - {a})"
  using assms by (intro attempt_table.replace_set) (auto simp: keys_ok_def same_lease_def)

lemma job_id_inj:
  "keys_ok d \<Longrightarrow> i \<in> set (jobs d) \<Longrightarrow> j \<in> set (jobs d) \<Longrightarrow> j_id i = j_id j \<longleftrightarrow> i = j"
  by (auto simp: keys_ok_def distinct_map dest: inj_onD)

lemma fences_touch:
  assumes "keys_ok d" and "a \<in> set (attempts d)" and "same_lease a a'"
  shows "fences i (set_row a_id (a_id a) (\<lambda>_. a') (attempts d)) = fences i (attempts d)"
proof -
  have pairs: "fences i as = map snd (filter (\<lambda>p. fst p = i) (map (\<lambda>a. (a_job_id a, a_fence a)) as))"
    for as by (induction as) (auto simp: fences_def)
  have "map (\<lambda>a. (a_job_id a, a_fence a)) (set_row a_id (a_id a) (\<lambda>_. a') (attempts d))
      = map (\<lambda>a. (a_job_id a, a_fence a)) (attempts d)"
    using assms by (intro attempt_table.replace_map) (auto simp: keys_ok_def same_lease_def)
  then show ?thesis unfolding pairs by simp
qed

lemma step_fences:
  assumes "db_step d d'" and "keys_ok d"
  obtains (lease) a where "attempts d' = attempts d @ [a]"
  | (keep) "\<forall>i. fences i (attempts d') = fences i (attempts d)"
  using assms(1)
proof (cases rule: attempt_shape)
  case (lease a)
  then show ?thesis by (intro that(1))
next
  case (touch a a')
  then show ?thesis using fences_touch [OF assms(2)] by (intro that(2)) simp
next
  case same
  then show ?thesis by (intro that(2)) simp
qed

lemma fence_unique:
  assumes "fences_ok d" and "j \<in> set (jobs d)" and "a \<in> set (attempts d)" and "b \<in> set (attempts d)"
    and "a_job_id a = j_id j" and "a_job_id b = j_id j" and "a_fence a = a_fence b"
  shows "a = b"
proof -
  have "distinct (fences (j_id j) (attempts d))" using assms(1,2) by (auto simp: fences_ok_def)
  then have "inj_on a_fence (set (filter (\<lambda>a. a_job_id a = j_id j) (attempts d)))"
    by (simp add: fences_def distinct_map)
  with assms(3-) show ?thesis by (auto dest: inj_onD)
qed

lemma fence_bounds:
  assumes "fences_ok d" and "j \<in> set (jobs d)" and "a \<in> set (attempts d)" and "a_job_id a = j_id j"
  shows "1 \<le> a_fence a \<and> a_fence a \<le> j_attempt_count j"
proof -
  have "a_fence a \<in> set (fences (j_id j) (attempts d))"
    using assms(3,4) by (auto simp: fences_def)
  then show ?thesis using assms(1,2) by (auto simp: fences_ok_def)
qed

text \<open>What a step does to one job's attempt count and retry budget.\<close>

lemma refs_fences_fresh:
  "refs_ok d \<Longrightarrow> i \<notin> j_id ` set (jobs d) \<Longrightarrow> fences i (attempts d) = []"
  by (auto simp: refs_ok_def fences_def filter_empty_conv)

lemma upto_snoc_count: "0 \<le> n \<Longrightarrow> [1..n + 1] = [1..n] @ [n + (1::int)]"
  by (simp add: upto_rec2)

lemma keep_fences:
  assumes step: "db_step d d'" and keys: "keys_ok d" and refs: "refs_ok d" and fences: "fences_ok d"
  shows "fences_ok d'"
  using step
proof cases
  case (submitted j tn)
  then show ?thesis using fences refs_fences_fresh [OF refs] by (auto simp: fences_ok_def row_simps)
next
  case (leased j j' t a tn)
  have new: "fences i (attempts d @ [a]) = fences i (attempts d)
      @ (if i = j_id j then [j_attempt_count j + 1] else [])" for i
    using leased by (simp add: fences_def)
  have "i \<in> set (jobs d) \<Longrightarrow> j_id i = j_id j \<Longrightarrow> i = j" for i
    using job_id_inj [OF keys _ leased(2)] by blast
  then show ?thesis using leased fences
    by (auto simp: fences_ok_def row_simps put_job_rows [OF keys] new upto_snoc_count)
next
  case (started a j a' s j' t tn)
  then show ?thesis using fences
    by (auto simp: fences_ok_def row_simps holds_def put_job_rows [OF keys] fences_touch [OF keys]
        same_lease_def)
next
  case (renewed a j a' e)
  then show ?thesis using fences
    by (auto simp: fences_ok_def row_simps holds_def fences_touch [OF keys] same_lease_def)
next
  case (succeeded a j a' out f j' t tn)
  then show ?thesis using fences
    by (auto simp: fences_ok_def row_simps holds_def put_job_rows [OF keys] fences_touch [OF keys]
        same_lease_def)
next
  case (retried a j oc a' f err j' av t tn)
  then show ?thesis using fences
    by (auto simp: fences_ok_def row_simps holds_def put_job_rows [OF keys] fences_touch [OF keys]
        same_lease_def)
next
  case (buried a j st oc a' f err j' t tn)
  then show ?thesis using fences
    by (auto simp: fences_ok_def row_simps holds_def put_job_rows [OF keys] fences_touch [OF keys]
        same_lease_def)
next
  case (cancelled j j' t tn)
  then show ?thesis using fences by (auto simp: fences_ok_def row_simps put_job_rows [OF keys])
next
  case (workers_changed ws)
  then show ?thesis using fences by (simp add: fences_ok_def)
next
  case (noted es)
  then show ?thesis using fences by (simp add: fences_ok_def)
qed

lemma holds_running:
  assumes "owner_ok d" and "holds a j d"
  shows "j_status j \<in> {LEASED, RUNNING}" "1 \<le> j_attempt_count j"
  using assms by (auto simp: owner_ok_def lease_ok_def holds_def)

lemma holds_outcome:
  assumes "owner_ok d" and "holds a j d"
  shows "a_outcome a = None" "a_output a = None" "a_error a = None"
  using assms by (auto simp: owner_ok_def lease_ok_def holds_def)

lemma waiting_attempts:
  assumes "owner_ok d" and "j \<in> set (jobs d)" and "j_status j \<notin> {LEASED, RUNNING, SUCCEEDED}"
    and "b \<in> set (attempts d)" and "a_job_id b = j_id j"
  shows "\<not> active b \<and> a_outcome b \<noteq> None \<and> a_outcome b \<noteq> Some OutSucceeded"
proof -
  have "lease_ok j b" using assms by (simp add: owner_ok_def)
  with assms(3) show ?thesis by (auto simp: lease_ok_def)
qed

lemma owner_touch:
  assumes keys: "keys_ok d" and fences: "fences_ok d" and owner: "owner_ok d" and held: "holds a j d"
    and lease: "same_lease a a'" and j': "j_id j' = j_id j" "j_attempt_count j' = j_attempt_count j"
    and ok: "lease_ok j' a'"
    and rows: "set (jobs d') = insert j' (set (jobs d) - {j})"
      "set (attempts d') = insert a' (set (attempts d) - {a})"
  shows "owner_ok d'"
proof -
  have j: "j \<in> set (jobs d)" and a: "a \<in> set (attempts d)" "a_job_id a = j_id j"
    and fence: "a_fence a = j_attempt_count j"
    using held by (auto simp: holds_def)
  have past: "lease_ok j' b" if "b \<in> set (attempts d) - {a}" "a_job_id b = j_id j" for b
  proof -
    have "a_fence b \<noteq> j_attempt_count j"
      using fence_unique [OF fences j _ a(1) that(2) a(2)] that(1) fence by auto
    moreover have "lease_ok j b" using owner j that by (auto simp: owner_ok_def)
    moreover note holds_running [OF owner held]
    ultimately show ?thesis using j' by (auto simp: lease_ok_def)
  qed
  have other: "i = j" if "i \<in> set (jobs d)" "j_id j = j_id i" for i
    using that job_id_inj [OF keys _ j] by auto
  have a': "a_job_id a' = j_id j" using lease a by (simp add: same_lease_def)
  have count: "1 \<le> j_attempt_count j'" using holds_running(2) [OF owner held] j' by simp
  show ?thesis
    unfolding owner_ok_def rows using past a' ok count j' owner
    by (auto simp: owner_ok_def dest: other)
qed

lemma keep_owner:
  assumes step: "db_step d d'" and keys: "keys_ok d" and refs: "refs_ok d" and fences: "fences_ok d"
    and owner: "owner_ok d"
  shows "owner_ok d'"
  using step
proof cases
  case (submitted j tn)
  then have "a_job_id b \<noteq> j_id j" if "b \<in> set (attempts d)" for b
    using refs that unfolding refs_ok_def by metis
  with submitted owner show ?thesis by (auto simp: owner_ok_def row_simps)
next
  case (leased j j' t a tn)
  have past: "lease_ok j' b" if "b \<in> set (attempts d)" "a_job_id b = j_id j" for b
  proof -
    have "\<not> active b \<and> a_outcome b \<noteq> None \<and> a_outcome b \<noteq> Some OutSucceeded"
      using leased that by (intro waiting_attempts [OF owner]) auto
    moreover have "a_fence b \<le> j_attempt_count j"
      using fence_bounds [OF fences leased(2) that] by simp
    ultimately show ?thesis using leased(5) by (auto simp: lease_ok_def)
  qed
  have other: "i = j" if "i \<in> set (jobs d)" "j_id j = j_id i" for i
    using that job_id_inj [OF keys _ leased(2)] by auto
  have "0 \<le> j_attempt_count j" using fences leased by (simp add: fences_ok_def)
  moreover have "lease_ok j' a" using leased by (simp add: lease_ok_def)
  ultimately show ?thesis
    using leased past owner put_job_rows [OF keys leased(2), of j']
    by (auto simp: owner_ok_def row_simps dest: other)
next
  case (started a j a' s j' t tn)
  with holds_outcome [OF owner started(2)] show ?thesis
    by (intro owner_touch [OF keys fences owner, of a j a' j'])
      (auto simp: row_simps holds_def same_lease_def lease_ok_def put_job_rows [OF keys]
        put_attempt_rows [OF keys])
next
  case (renewed a j a' e)
  moreover have "lease_ok j a'" using renewed owner by (auto simp: owner_ok_def lease_ok_def holds_def)
  moreover have "set (jobs d) = insert j (set (jobs d) - {j})" using renewed by (auto simp: holds_def)
  ultimately show ?thesis
    by (intro owner_touch [OF keys fences owner, of a j a' j])
      (auto simp: row_simps holds_def same_lease_def put_attempt_rows [OF keys])
next
  case (succeeded a j a' out f j' t tn)
  then show ?thesis
    by (intro owner_touch [OF keys fences owner, of a j a' j'])
      (auto simp: row_simps holds_def same_lease_def lease_ok_def put_job_rows [OF keys]
        put_attempt_rows [OF keys])
next
  case (retried a j oc a' f err j' av t tn)
  then show ?thesis
    by (intro owner_touch [OF keys fences owner, of a j a' j'])
      (auto simp: row_simps holds_def same_lease_def lease_ok_def put_job_rows [OF keys]
        put_attempt_rows [OF keys])
next
  case (buried a j st oc a' f err j' t tn)
  then show ?thesis
    by (intro owner_touch [OF keys fences owner, of a j a' j'])
      (auto simp: row_simps holds_def same_lease_def lease_ok_def put_job_rows [OF keys]
        put_attempt_rows [OF keys])
next
  case (cancelled j j' t tn)
  have "lease_ok j' b" if "b \<in> set (attempts d)" "a_job_id b = j_id j" for b
    using waiting_attempts [OF owner cancelled(2) _ that] cancelled by (auto simp: lease_ok_def)
  with cancelled owner show ?thesis
    by (auto simp: owner_ok_def row_simps put_job_rows [OF keys])
next
  case (workers_changed ws)
  then show ?thesis using owner by (simp add: owner_ok_def)
next
  case (noted es)
  then show ?thesis using owner by (simp add: owner_ok_def)
qed

lemma keep_results:
  assumes step: "db_step d d'" and keys: "keys_ok d" and refs: "refs_ok d" and owner: "owner_ok d"
    and results: "results_ok d"
  shows "results_ok d'"
proof -
  have other: "i = j" if "i \<in> set (jobs d)" "j \<in> set (jobs d)" "j_id i = j_id j" for i j
    using that job_id_inj [OF keys] by auto
  show ?thesis
    using step
  proof cases
    case (submitted j tn)
    have "j_id j \<notin> r_job_id ` set (results d)"
      using refs submitted(2) unfolding refs_ok_def by (metis imageE)
    with submitted results show ?thesis by (auto simp: results_ok_def row_simps)
  next
    case (succeeded a j a' out f j' t tn)
    then show ?thesis using results
      by (auto simp: results_ok_def row_simps holds_def put_job_rows [OF keys] dest: other)
  next
    case (buried a j st oc a' f err j' t tn)
    then show ?thesis using results
      by (auto simp: results_ok_def row_simps holds_def put_job_rows [OF keys] dest: other)
  qed (use results in \<open>auto simp: results_ok_def row_simps holds_def put_job_rows [OF keys]\<close>)
qed

lemma keep_budget:
  assumes step: "db_step d d'" and keys: "keys_ok d" and fences: "fences_ok d" and owner: "owner_ok d"
    and budget: "budget_ok d"
  shows "budget_ok d'"
  using step
proof cases
  case (submitted j tn)
  then show ?thesis using budget by (auto simp: budget_ok_def row_simps)
next
  case (leased j j' t a tn)
  then show ?thesis using budget by (auto simp: budget_ok_def row_simps put_job_rows [OF keys])
next
  case (buried a j st oc a' f err j' t tn)
  have "j \<in> set (jobs d)" using buried by (simp add: holds_def)
  with buried budget show ?thesis by (auto simp: budget_ok_def row_simps put_job_rows [OF keys])
qed (use budget in \<open>auto simp: budget_ok_def row_simps holds_def put_job_rows [OF keys]\<close>)

text \<open>A parent that succeeded stays so.\<close>

lemma step_ready_parent:
  assumes "db_step d d'" and "keys_ok d" and "ready_parent d i"
  shows "ready_parent d' i"
  using assms(1)
proof (cases rule: job_shape)
  case (new tn j)
  with assms(3) show ?thesis by (auto simp: ready_parent_def row_simps)
next
  case (move j j' e)
  have "set (jobs d') = insert j' (set (jobs d) - {j})"
    unfolding move(2) using assms(2) move by (intro put_job_rows)
  moreover have "j_status j \<noteq> SUCCEEDED" using move(6) by auto
  ultimately show ?thesis using assms(3) by (auto simp: ready_parent_def)
next
  case same
  with assms(3) show ?thesis by (simp add: ready_parent_def)
qed

lemma ready_parent_same: "j_depends_on j' = j_depends_on j \<Longrightarrow> ready_parent d j' = ready_parent d j"
  by (simp add: ready_parent_def)

lemma step_attempted:
  assumes "db_step d d'" and "keys_ok d" and "owner_ok d" and "j' \<in> set (jobs d')" and "1 \<le> j_attempt_count j'"
  obtains (old) j where "j \<in> set (jobs d)" "j_depends_on j' = j_depends_on j" "1 \<le> j_attempt_count j"
  | (ready) j where "j_depends_on j' = j_depends_on j" "j_depends_on j = None \<or> ready_parent d j"
  using assms(1)
proof cases
  case (submitted j tn)
  with assms show ?thesis by (auto simp: row_simps intro: old)
next
  case (leased j i t a tn)
  with assms put_job_rows [OF assms(2), of j i] have "j' = i \<or> j' \<in> set (jobs d)"
    by (auto simp: row_simps)
  with leased assms(5) show ?thesis by (auto intro: old ready [of j])
qed (use assms in \<open>auto simp: row_simps holds_def put_job_rows [OF assms(2)] intro: old\<close>)

lemma keep_deps:
  assumes step: "db_step d d'" and keys: "keys_ok d" and owner: "owner_ok d" and deps: "deps_ok d"
  shows "deps_ok d'"
  unfolding deps_ok_def
proof (intro ballI impI)
  fix j'
  assume "j' \<in> set (jobs d')" and "1 \<le> j_attempt_count j'"
  then have "\<exists>j. j_depends_on j' = j_depends_on j \<and> (j_depends_on j = None \<or> ready_parent d j)"
    using deps by (cases rule: step_attempted [OF step keys owner]) (auto simp: deps_ok_def)
  then show "j_depends_on j' = None \<or> ready_parent d' j'"
    using step_ready_parent [OF step keys] ready_parent_same by metis
qed

lemma keep_fleet:
  assumes "db_step d d'" and "fleet_ok d"
  shows "fleet_ok d'"
  using assms by cases (auto simp: fleet_ok_def row_simps)

lemma db_step_inv:
  assumes "db_inv d" and "db_step d d'"
  shows "db_inv d'"
  using assms unfolding db_inv_def
  by (meson keep_keys keep_refs keep_forest keep_fences keep_owner keep_slots keep_results
      keep_budget keep_deps keep_history keep_fleet)

interpretation lifecycle: invariant_system db_step db_inv
  by unfold_locales (rule db_step_inv)

section \<open>What later steps cannot undo\<close>

text \<open>Jobs keep their request columns, results and finished attempts stay as they are.\<close>

lemma step_keeps_job:
  assumes "db_step d d'" and "keys_ok d" and "j \<in> set (jobs d)"
  obtains j' where "j' \<in> set (jobs d')" "same_request j j'"
    "j_status j' = j_status j \<or> j_status j' \<in> TRANSITIONS (j_status j)"
  using assms(1)
proof (cases rule: job_shape)
  case (new tn i)
  then show ?thesis using assms(3) by (intro that [of j]) (auto simp: row_simps same_request_def)
next
  case (move i i' e)
  have rows: "set (jobs d') = insert i' (set (jobs d) - {i})"
    unfolding move(2) using assms(2) move by (intro put_job_rows)
  show ?thesis
  proof (cases "j = i")
    case True
    with rows move show ?thesis by (intro that [of i']) auto
  next
    case False
    with rows assms(3) show ?thesis by (intro that [of j]) (auto simp: same_request_def)
  qed
next
  case same
  then show ?thesis using assms(3) by (intro that [of j]) (auto simp: same_request_def)
qed

lemma step_keeps_finished:
  assumes "db_step d d'" and "keys_ok d" and "a \<in> set (attempts d)" and "\<not> active a"
  shows "a \<in> set (attempts d')"
  using assms(1)
proof (cases rule: attempt_shape)
  case (touch b b')
  then have "set (attempts d') = insert b' (set (attempts d) - {b})"
    using assms(2) by (simp add: put_attempt_rows)
  moreover have "a \<noteq> b" using touch(2) assms(4) by blast
  ultimately show ?thesis using assms(3) by simp
qed (use assms in simp_all)

lemma step_keeps_results: "db_step d d' \<Longrightarrow> set (results d) \<subseteq> set (results d')"
  by (cases rule: db_step.cases) (auto simp: row_simps)

lemma run_keeps_job:
  assumes "db_step\<^sup>*\<^sup>* d d'" and "db_inv d" and "j \<in> set (jobs d)"
  shows "\<exists>j' \<in> set (jobs d'). same_request j j'
    \<and> (j_status j \<in> TERMINAL \<longrightarrow> j_status j' = j_status j)"
  using assms(1)
proof induction
  case base
  show ?case using assms(3) by (auto simp: same_request_def)
next
  case (step d1 d2)
  then obtain j1 where j1: "j1 \<in> set (jobs d1)" "same_request j j1"
    "j_status j \<in> TERMINAL \<longrightarrow> j_status j1 = j_status j" by auto
  have "keys_ok d1" using lifecycle.run_inv [OF step(1) assms(2)] by (simp add: db_inv_def)
  from step_keeps_job [OF step(2) this j1(1)] obtain j2 where "j2 \<in> set (jobs d2)"
    "same_request j1 j2" "j_status j2 = j_status j1 \<or> j_status j2 \<in> TRANSITIONS (j_status j1)" by blast
  with j1 show ?case by (intro bexI [of _ j2]) (auto simp: same_request_def TERMINAL_def)
qed

lemma run_keeps_finished:
  assumes "db_step\<^sup>*\<^sup>* d d'" and "db_inv d" and "a \<in> set (attempts d)" and "\<not> active a"
  shows "a \<in> set (attempts d')"
  using assms lifecycle.run_keeps [of d d' "\<lambda>d. a \<in> set (attempts d)"] step_keeps_finished
  by (auto simp: db_inv_def)

lemma run_keeps_results:
  assumes "db_step\<^sup>*\<^sup>* d d'" and "r \<in> set (results d)"
  shows "r \<in> set (results d')"
  using assms by induction (auto dest: step_keeps_results)

end
