(* ===== verification/Refinement.thy ===== *)
theory Refinement
  imports Lifecycle
begin

text \<open>
  The operations of \<^verbatim>\<open>greyqueue/service.py\<close> refine the abstract steps of the lifecycle: an
  operation that returns took the tables from a state satisfying the invariant along a run of
  steps, so the invariant and everything proved of runs hold for the program.
\<close>

section \<open>Refining a run of steps\<close>

text \<open>What an operation has to show: whenever it returns, the tables moved along a run of steps.\<close>

definition refines :: "'a dbtx \<Rightarrow> bool" where
  "refines m \<longleftrightarrow> (\<forall>w x w'. db_inv (db w) \<longrightarrow> m w = Inr (x, w') \<longrightarrow> db_step\<^sup>*\<^sup>* (db w) (db w'))"

lemma refinesI:
  assumes "\<And>w x w'. db_inv (db w) \<Longrightarrow> m w = Inr (x, w') \<Longrightarrow> db_step\<^sup>*\<^sup>* (db w) (db w')"
  shows "refines m"
  using assms by (simp add: refines_def)

lemma refines_stepI:
  assumes "\<And>w x w'. db_inv (db w) \<Longrightarrow> m w = Inr (x, w') \<Longrightarrow> db w' = db w \<or> db_step (db w) (db w')"
  shows "refines m"
proof (rule refinesI)
  fix w x w'
  assume "db_inv (db w)" and "m w = Inr (x, w')"
  from assms [OF this] show "db_step\<^sup>*\<^sup>* (db w) (db w')" by auto
qed

lemma refines_run:
  assumes "refines m" and "db_inv (db w)" and "m w = Inr (x, w')"
  shows "db_step\<^sup>*\<^sup>* (db w) (db w')" and "db_inv (db w')"
  using assms lifecycle.run_inv by (auto simp: refines_def)

text \<open>A transaction that raises leaves the tables as they were.\<close>

lemma refines_commit:
  assumes "refines m" and "db_inv (db w)" and "run_tx m w = (r, w')"
  shows "db_step\<^sup>*\<^sup>* (db w) (db w')"
  using assms by (auto simp: run_tx_def refines_def split: sum.splits)

lemma refines_return: "refines (tx_return x)"
  by (auto simp: refines_def tx_return_def)

lemma refines_raise: "refines (tx_raise e)"
  by (auto simp: refines_def tx_raise_def)

lemma refines_get: "refines (tx_get f)"
  by (auto simp: refines_def tx_get_def)

lemma refines_bind:
  assumes "refines m" and "\<And>x. refines (f x)"
  shows "refines (tx_bind m f)"
proof (rule refinesI)
  fix w x w'
  assume inv: "db_inv (db w)" and run: "tx_bind m f w = Inr (x, w')"
  then obtain y w1 where m: "m w = Inr (y, w1)" and f: "f y w1 = Inr (x, w')"
    by (auto simp: tx_bind_Inr)
  have "db_step\<^sup>*\<^sup>* (db w) (db w1)" and "db_inv (db w1)"
    using refines_run [OF assms(1) inv m] by simp_all
  with refines_run(1) [OF assms(2) _ f] show "db_step\<^sup>*\<^sup>* (db w) (db w')" by simp
qed

lemma refines_for:
  assumes "\<And>x. x \<in> set xs \<Longrightarrow> refines (f x)"
  shows "refines (tx_for xs f)"
  using assms by (induction xs) (auto intro: refines_return refines_bind)

lemma refines_next:
  "refines database_time" "refines next_uuid" "refines next_random"
  by (auto simp: refines_def database_time_iff next_uuid_iff next_random_iff)

lemma refines_system_event: "refines (add_system_event kind wid detail)"
  by (auto simp: refines_def add_system_event_iff log_system_event_def intro: db_step.noted)

section \<open>Row updates as replacements\<close>

lemma set_job_put:
  assumes "distinct (map j_id (jobs d))" and "j \<in> set (jobs d)" and "j_id (f j) = j_id j"
  shows "set_job (j_id j) f d = put_job (f j) d"
  using job_table.update_as_replace [OF assms(1,2), of f] assms(3) by (simp add: set_job_def put_job_def)

lemma set_row_twice:
  assumes "\<And>r. key (g r) = key r"
  shows "set_row key k f (set_row key k g rs) = set_row key k (\<lambda>r. f (g r)) rs"
  by (simp add: set_row_def assms)

lemma set_attempt_put:
  assumes "distinct (map a_id (attempts d))" and "a \<in> set (attempts d)" and "a_id (f a) = a_id a"
  shows "set_attempt (a_id a) f d = put_attempt (f a) d"
  using attempt_table.update_as_replace [OF assms(1,2), of f] assms(3)
  by (simp add: set_attempt_def put_attempt_def)

lemma inv_keys:
  assumes "db_inv d"
  shows "keys_ok d" "distinct (map j_id (jobs d))" "distinct (map a_id (attempts d))"
    "distinct (map w_id (workers d))"
  using assms by (simp_all add: db_inv_def keys_ok_def)

lemma moved_put:
  assumes "distinct (map j_id (jobs d))" and "j \<in> set (jobs d)"
  shows "moved tn t (j_id j) st d
    = log_event tn (j_id j) (Entered st) (put_job (j\<lparr>j_status := st, j_updated_at := t\<rparr>) d)"
  by (simp add: moved_def set_job_put [OF assms])

lemma moved_set_job:
  assumes "distinct (map j_id (jobs d))" and "j \<in> set (jobs d)" and "\<And>r. j_id (f r) = j_id r"
  shows "moved tn t (j_id j) st (set_job (j_id j) f d)
    = log_event tn (j_id j) (Entered st) (put_job ((f j)\<lparr>j_status := st, j_updated_at := t\<rparr>) d)"
proof -
  have "set_row j_id (j_id j) (\<lambda>r. (f r)\<lparr>j_status := st, j_updated_at := t\<rparr>) (jobs d)
      = set_row j_id (j_id j) (\<lambda>_. (f j)\<lparr>j_status := st, j_updated_at := t\<rparr>) (jobs d)"
    by (rule job_table.update_as_replace [OF assms(1,2)])
  then show ?thesis by (simp add: moved_def set_job_def put_job_def set_row_twice assms(3))
qed

lemma jobs_attempts_swap: "d\<lparr>jobs := js, attempts := as\<rparr> = d\<lparr>attempts := as, jobs := js\<rparr>"
  by simp

lemma owned_holds:
  assumes "owned jid wid tok fin w = Inr ((job, att), w')" and "active att"
  shows "holds att job (db w)"
  using assms owned_rows [OF assms(1)] by (auto simp: holds_def owned_iff)

section \<open>The operations\<close>

lemma check_parent_known:
  assumes "check_parent dep w = Inr (u, w')" and "dep = Some p"
  shows "p \<in> j_id ` set (jobs (db w))"
  using assms unfolding check_parent_iff by (auto dest!: job_by_id_Some)

lemma admit_refines:
  assumes "0 \<le> sub_max_retries s"
  shows "refines (admit env s limit rate)"
proof (rule refinesI)
  fix w x w'
  assume "admit env s limit rate w = Inr (x, w')"
  then obtain job created where run: "admit env s limit rate w = Inr ((job, created), w')"
    by (cases x) auto
  show "db_step\<^sup>*\<^sup>* (db w) (db w')"
  proof (cases created)
    case False
    with run show ?thesis unfolding admit_iff by auto
  next
    case True
    with run obtain args digest where
      job: "job = new_job s args digest (uuids w 0) (clk w 0)"
      and parent: "check_parent (sub_depends_on s) (tick w) = Inr ((), tick w)"
      and ins: "insert_job job (tick w)
        = Inr ((), (tick w)\<lparr>db := (db w)\<lparr>jobs := jobs (db w) @ [job]\<rparr>\<rparr>)"
      and d': "db w' = admitted (tx_now w) job (db w)"
      unfolding admit_iff by auto
    have fields: "j_status job = QUEUED" "j_attempt_count job = 0" "0 \<le> j_max_retries job"
      "j_depends_on job = sub_depends_on s"
      using job assms by (simp_all add: new_job_def)
    have "db_step (db w) (admitted (tx_now w) job (db w))"
      using ins fields check_parent_known [OF parent]
      unfolding insert_job_iff by (intro db_step.submitted) auto
    with d' show ?thesis by auto
  qed
qed

lemma submit_refines:
  assumes "0 \<le> sub_max_retries s"
  shows "refines (submit env s limit rate)"
  unfolding submit_def by (intro refines_bind admit_refines refines_return assms)

lemma start_refines: "refines (start jid wid tok)"
proof (rule refines_stepI)
  fix w x w'
  assume inv: "db_inv (db w)" and run: "start jid wid tok w = Inr (x, w')"
  then obtain job att where own: "owned jid wid tok False w = Inr ((job, att), tick w)"
    and cases: "db w' = db w \<or> j_status job = LEASED \<and> db w' = moved (tx_now w) (clk w (Suc (Suc 0)))
        (j_id job) RUNNING
        (set_attempt (a_id att) (\<lambda>a. a\<lparr>a_started_at := Some (clk w (Suc 0))\<rparr>) (db w))"
    unfolding start_iff by auto
  have held: "holds att job (db w)" using own by (auto simp: owned_iff intro: owned_holds [OF own])
  then have "att \<in> set (attempts (db w))" "job \<in> set (jobs (db w))" by (auto simp: holds_def)
  with cases inv_keys [OF inv] have "db w' = db w \<or> j_status job = LEASED
      \<and> db w' = log_event (tx_now w) (j_id job) (Entered RUNNING)
          (put_job (job\<lparr>j_status := RUNNING, j_updated_at := clk w (Suc (Suc 0))\<rparr>)
            (put_attempt (att\<lparr>a_started_at := Some (clk w (Suc 0))\<rparr>) (db w)))"
    by (auto simp: set_attempt_put moved_put row_simps)
  then show "db w' = db w \<or> db_step (db w) (db w')"
    using held by (auto intro: db_step.started)
qed

lemma renew_refines: "refines (renew jid wid tok lease)"
proof (rule refines_stepI)
  fix w x w'
  assume inv: "db_inv (db w)" and run: "renew jid wid tok lease w = Inr (x, w')"
  then obtain job att where own: "owned jid wid tok False w = Inr ((job, att), tick w)"
    and started: "a_started_at att \<noteq> None"
    and d': "db w' = set_attempt (a_id att) (\<lambda>a. a\<lparr>a_expires_at := x\<rparr>) (db w)"
    unfolding renew_iff by auto
  have held: "holds att job (db w)" using own by (auto simp: owned_iff intro: owned_holds [OF own])
  with d' inv_keys [OF inv] have "db w' = put_attempt (att\<lparr>a_expires_at := x\<rparr>) (db w)"
    by (simp add: holds_def set_attempt_put)
  with held started show "db w' = db w \<or> db_step (db w) (db w')"
    by (auto intro: db_step.renewed)
qed

lemma cancel_refines: "refines (cancel jid)"
proof (rule refines_stepI)
  fix w x w'
  assume inv: "db_inv (db w)" and run: "cancel jid w = Inr (x, w')"
  then show "db w' = db w \<or> db_step (db w) (db w')"
    using inv_keys [OF inv] unfolding cancel_iff
    by (auto simp: moved_put dest!: job_by_id_Some intro: db_step.cancelled)
qed

text \<open>Failing an attempt that holds its job either schedules a retry or ends the job.\<close>

lemma fail_attempt_step:
  assumes inv: "db_inv (db w)" and held: "holds att job (db w)" and out: "out \<noteq> OutSucceeded"
    and run: "fail_attempt job att err retryable out w = Inr (u, w')"
  shows "db_step (db w) (db w')"
proof -
  have rows: "job \<in> set (jobs (db w))" "att \<in> set (attempts (db w))" using held by (auto simp: holds_def)
  note keys = inv_keys [OF inv]
  define att' where "att' = att\<lparr>a_finished_at := Some (clk w 0), a_outcome := Some out, a_error := Some err\<rparr>"
  have closed: "closed_attempt (clk w 0) out err (a_id att) (db w) = put_attempt att' (db w)"
    using keys rows by (simp add: closed_attempt_def set_attempt_put att'_def)
  have known: "j_id job \<in> j_id ` set (jobs (db w))" using rows by simp
  show ?thesis
  proof (cases "retryable \<and> j_attempt_count job \<le> j_max_retries job")
    case True
    with run have d': "db w' = retried job att out err w"
      and legal: "RETRY_WAIT \<in> TRANSITIONS (j_status job)"
      unfolding fail_attempt_eval [OF known] by (auto split: if_splits)
    define av where "av = clk w 0 + timedelta (base_delay job * retry_factor job w)"
    have "db w' = log_event (tx_now w) (j_id job) (Entered RETRY_WAIT)
        (put_job (job\<lparr>j_available_at := av, j_status := RETRY_WAIT, j_updated_at := clk w (Suc 0)\<rparr>)
          (put_attempt att' (db w)))"
      unfolding d' retried_def closed av_def [symmetric]
      using keys rows by (subst moved_set_job) (simp_all add: row_simps)
    moreover have "j_status job \<in> {LEASED, RUNNING}" using legal by (cases "j_status job") auto
    ultimately show ?thesis using held out True
      by (auto simp: att'_def intro: db_step.retried)
  next
    case False
    define st where "st = (if retryable then DEAD_LETTER else FAILED)"
    from run False have d': "db w' = buried st job att out err w"
      and legal: "st \<in> TRANSITIONS (j_status job)"
      unfolding fail_attempt_eval [OF known] by (auto simp: st_def Let_def split: if_splits)
    have "db w' = log_event (tx_now w) (j_id job) (Entered st)
        (put_job (job\<lparr>j_status := st, j_updated_at := clk w (Suc 0)\<rparr>)
          (with_result (j_id job) None (Some err) (put_attempt att' (db w))))"
      unfolding d' buried_def closed using keys rows
      by (simp add: moved_put row_simps) (simp add: with_result_def log_event_def put_job_def)
    moreover have "st \<in> {FAILED, DEAD_LETTER}"
      "st = DEAD_LETTER \<longrightarrow> j_max_retries job < j_attempt_count job"
      using False by (auto simp: st_def split: if_splits)
    ultimately show ?thesis using held out legal by (auto simp: att'_def intro: db_step.buried)
  qed
qed

lemma finish_refines: "refines (finish jid wid tok output error retryable)"
proof (rule refines_stepI)
  fix w x w'
  assume inv: "db_inv (db w)" and run: "finish jid wid tok output error retryable w = Inr (x, w')"
  then obtain job att w1 where own: "owned jid wid tok True w = Inr ((job, att), w1)"
    and "db w' = db w \<or> active att" unfolding finish_iff by auto
  show "db w' = db w \<or> db_step (db w) (db w')"
  proof (cases "active att")
    case False
    with run own show ?thesis unfolding finish_iff by auto
  next
    case True
    have held: "holds att job (db w)" by (rule owned_holds [OF own True])
    then have rows: "job \<in> set (jobs (db w))" "att \<in> set (attempts (db w))" by (auto simp: holds_def)
    show ?thesis
    proof (cases error)
      case (Some msg)
      with run own True have "fail_attempt job att msg retryable OutFailed (tick (tick w)) = Inr ((), w')"
        unfolding finish_iff by auto
      with fail_attempt_step [of "tick (tick w)" att job OutFailed] inv held show ?thesis by auto
    next
      case None
      with run own True have running: "j_status job = RUNNING"
        and d': "db w' = moved (tx_now w) (clk w (Suc (Suc (Suc 0)))) (j_id job) SUCCEEDED
          (with_result (j_id job) output None (set_attempt (a_id att) (\<lambda>a. a\<lparr>a_output := output,
             a_outcome := Some OutSucceeded, a_finished_at := Some (clk w (Suc (Suc 0)))\<rparr>) (db w)))"
        unfolding finish_iff by auto
      have "db w' = log_event (tx_now w) (j_id job) (Entered SUCCEEDED)
          (put_job (job\<lparr>j_status := SUCCEEDED, j_updated_at := clk w (Suc (Suc (Suc 0)))\<rparr>)
            (with_result (j_id job) output None (put_attempt (att\<lparr>a_output := output,
               a_outcome := Some OutSucceeded, a_finished_at := Some (clk w (Suc (Suc 0)))\<rparr>) (db w))))"
        unfolding d' using inv_keys [OF inv] rows by (simp add: set_attempt_put moved_put row_simps)
      with held running show ?thesis by (auto intro: db_step.succeeded)
    qed
  qed
qed

lemma claim_refines: "refines (claim wid slot cid policy lease)"
proof (rule refines_stepI)
  fix w x w'
  assume inv: "db_inv (db w)" and run: "claim wid slot cid policy lease w = Inr (x, w')"
  from run show "db w' = db w \<or> db_step (db w) (db w')"
  proof (cases rule: claim_cases)
    case (fresh worker)
    from fresh(6) show ?thesis
    proof (cases rule: lease_job_cases)
      case (leased query job0 job att row u c)
      have job0: "job0 \<in> set (jobs (db w))" "eligible worker (clk w 0) (db w) job0"
        using scheduler_choice [OF leased(2,3)] by auto
      define job' where "job' = job0\<lparr>j_attempt_count := j_attempt_count job0 + 1, j_status := LEASED,
        j_updated_at := clk w (Suc 0)\<rparr>"
      have "db w' = log_event (tx_now w) (j_id job0) (Entered LEASED)
          ((put_job job' (db w))\<lparr>attempts := attempts (db w) @ [att]\<rparr>)"
        using moved_set_job [of "(db w)\<lparr>attempts := attempts (db w) @ [att]\<rparr>" job0
            "\<lambda>j. j\<lparr>j_attempt_count := j_attempt_count job0 + 1\<rparr>" "tx_now w" "clk w (Suc 0)" LEASED]
          inv_keys(2) [OF inv] job0(1)
        by (simp add: leased(9) leased_def job'_def leased(4) set_job_def put_job_def jobs_attempts_swap)
      moreover have "db_step (db w) \<dots>"
        by (rule db_step.leased [of job0])
          (use job0 leased(4,5,7) in \<open>auto simp: job'_def eligible_def new_attempt_def\<close>)
      ultimately show ?thesis by simp
    qed auto
  qed auto
qed

lemma service_refines:
  "0 \<le> sub_max_retries s \<Longrightarrow> refines (admit env s limit rate)"
  "refines (claim wid slot cid policy lease)" "refines (start jid wid tok)"
  "refines (renew jid wid tok lease)" "refines (finish jid wid tok output error retryable)"
  "refines (cancel jid)"
  by (rule admit_refines claim_refines start_refines renew_refines finish_refines cancel_refines;
      assumption?)+

end
