(* ===== verification/Recovery.thy ===== *)
theory Recovery
  imports Refinement
begin

text \<open>
  \<^verbatim>\<open>greyqueue/recovery.py\<close>: the maintenance sweep of every coordinator. Objects an earlier
  query of the session loaded are read again from the transaction's state (the identity map
  returns the same object), so a loop sees what earlier rounds changed.
\<close>

section \<open>Recovering expired leases\<close>

text \<open>\<^verbatim>\<open>select(Job).join(Attempt, ...)\<close>: one row of the job per matching attempt.\<close>

definition expired_join :: "timestamp \<Rightarrow> database \<Rightarrow> job_row list" where
  "expired_join t d =
     concat (map (\<lambda>j. map (\<lambda>_. j)
         (filter (\<lambda>a. a_job_id a = j_id j \<and> active a \<and> a_expires_at a \<le> t) (attempts d)))
       (filter (\<lambda>j. j_status j \<in> {LEASED, RUNNING}) (jobs d)))"

text \<open>\<^verbatim>\<open>with_for_update(skip_locked=True).limit(limit)\<close> over an unordered query.\<close>

definition locked_page :: "nat \<Rightarrow> world \<Rightarrow> job_row list \<Rightarrow> job_row list" where
  "locked_page limit w rows =
     take limit (filter (\<lambda>j. j_id j \<notin> set (locked_jobs w)) (row_scan w rows))"

definition refreshed :: "job_row \<Rightarrow> database \<Rightarrow> job_row" where
  "refreshed job d = (case job_by_id (j_id job) d of None \<Rightarrow> job | Some j \<Rightarrow> j)"

text \<open>One round of the loop over the expired jobs.\<close>

definition recover_job :: "job_row \<Rightarrow> unit dbtx" where
  "recover_job job0 =
     tx_bind (tx_get (\<lambda>w. refreshed job0 (db w))) (\<lambda>job.
     tx_bind (tx_get (\<lambda>w. active_attempt (j_id job) (db w))) (\<lambda>found.
     case found of
        None \<Rightarrow> tx_return ()
      | Some attempt \<Rightarrow>
     tx_bind database_time (\<lambda>t.
     if a_expires_at attempt \<le> t
     then
       tx_bind (fail_attempt job attempt ''Lease expired; execution outcome unknown'' True
           OutLeaseExpired) (\<lambda>_.
       add_system_event ''lease_expired'' (Some (a_worker_id attempt))
         (JObj [(''job_id'', JStr (uuid_text (j_id job))),
                (''attempt_id'', JStr (uuid_text (a_id attempt)))]))
     else tx_return ())))"

definition blocked_rows :: "database \<Rightarrow> job_row list" where
  "blocked_rows d =
     filter (\<lambda>j. j_depends_on j \<noteq> None \<and> j_status j \<in> {QUEUED, RETRY_WAIT}
        \<and> (\<exists>p \<in> set (jobs d). Some (j_id p) = j_depends_on j
             \<and> j_status p \<in> {FAILED, DEAD_LETTER, CANCELLED})) (jobs d)"

definition cancel_blocked :: "job_row \<Rightarrow> unit dbtx" where
  "cancel_blocked job0 =
     tx_bind (tx_get (\<lambda>w. refreshed job0 (db w))) (\<lambda>job. transition job CANCELLED)"

definition recover_jobs :: "nat \<Rightarrow> int dbtx" where
  "recover_jobs limit =
     tx_bind (tx_get recovery_lock_taken) (\<lambda>taken.
     if taken then tx_return 0
     else
     tx_bind database_time (\<lambda>t.
     tx_bind (tx_get (\<lambda>w. locked_page limit w (expired_join t (db w)))) (\<lambda>jobs.
     tx_bind (tx_for jobs recover_job) (\<lambda>_.
     tx_bind (tx_get (\<lambda>w. locked_page limit w (blocked_rows (db w)))) (\<lambda>blocked.
     tx_bind (tx_for blocked cancel_blocked) (\<lambda>_.
     tx_return (int (length jobs))))))))"

section \<open>Detecting silent workers\<close>

fun worker_state_name :: "worker_state \<Rightarrow> string" where
  "worker_state_name HEALTHY = ''HEALTHY''"
| "worker_state_name SUSPECT = ''SUSPECT''"
| "worker_state_name DEAD = ''DEAD''"
| "worker_state_name DRAINING = ''DRAINING''"

definition silent_workers :: "seconds \<Rightarrow> timestamp \<Rightarrow> world \<Rightarrow> worker_row list" where
  "silent_workers suspect_after t w =
     filter (\<lambda>v. w_id v \<notin> set (locked_workers w))
       (worker_scan w (filter (\<lambda>v. w_state v \<noteq> DEAD \<and> w_last_seen v < t - timedelta suspect_after)
          (workers (db w))))"

definition verdict :: "seconds \<Rightarrow> timestamp \<Rightarrow> worker_row \<Rightarrow> worker_state" where
  "verdict dead_after t v =
     (if dead_after \<le> of_int (t - w_last_seen v) / 1000000 then DEAD else SUSPECT)"

text \<open>One round of the loop over the silent workers.\<close>

definition judge_worker :: "seconds \<Rightarrow> timestamp \<Rightarrow> worker_row \<Rightarrow> unit dbtx" where
  "judge_worker dead_after t v =
     (let state = verdict dead_after t v in
      if w_state v = DRAINING \<and> state = SUSPECT then tx_return ()
      else if w_state v \<noteq> state then
        tx_bind (update_worker (w_id v) (\<lambda>r. r\<lparr>w_state := state\<rparr>)) (\<lambda>_.
        add_system_event (''worker_'' @ map lower_char (worker_state_name state)) (Some (w_id v))
          (JObj []))
      else tx_return ())"

definition detect_workers :: "seconds \<Rightarrow> seconds \<Rightarrow> unit dbtx" where
  "detect_workers suspect_after dead_after =
     tx_bind database_time (\<lambda>t.
     tx_bind (tx_get (silent_workers suspect_after t)) (\<lambda>vs.
     tx_for vs (judge_worker dead_after t)))"

text \<open>
  \<^verbatim>\<open>tick\<close>: two transactions. \<open>between\<close> is what the world becomes from the end of the first
  to the begin of the second (other transactions commit, the transaction time is read anew).
\<close>

definition maintenance_tick ::
    "(world \<Rightarrow> world) \<Rightarrow> seconds \<Rightarrow> seconds \<Rightarrow> world \<Rightarrow> (exn + unit) \<times> world" where
  "maintenance_tick between suspect_after dead_after w =
     (case run_tx (recover_jobs 100) w of
        (Inl e, w1) \<Rightarrow> (Inl e, w1)
      | (Inr n, w1) \<Rightarrow> run_tx (detect_workers suspect_after dead_after) (between w1))"

section \<open>The sweep refines the lifecycle\<close>

lemma refreshed_id [simp]: "j_id (refreshed job0 d) = j_id job0"
  by (auto simp: refreshed_def dest: job_by_id_Some split: option.splits)

lemma refreshed_row:
  assumes "j_id job0 \<in> j_id ` set (jobs d)"
  shows "refreshed job0 d \<in> set (jobs d)" and "job_by_id (j_id job0) d = Some (refreshed job0 d)"
proof -
  from assms obtain j where j: "job_by_id (j_id job0) d = Some j"
    unfolding job_by_id_def using job_table.lookup_None by (metis option.exhaust)
  then show "job_by_id (j_id job0) d = Some (refreshed job0 d)" by (simp add: refreshed_def)
  with job_by_id_Some [OF this] show "refreshed job0 d \<in> set (jobs d)" by simp
qed

text \<open>Under the invariant an unfinished attempt holds its job.\<close>

lemma active_holds:
  assumes inv: "db_inv d" and "active_attempt (j_id job0) d = Some a"
  shows "holds a (refreshed job0 d) d" and "j_status (refreshed job0 d) \<in> {LEASED, RUNNING}"
proof -
  have a: "a \<in> set (attempts d)" "a_job_id a = j_id job0" "active a"
    using active_attempt_Some [OF assms(2)] by auto
  then have "j_id job0 \<in> j_id ` set (jobs d)"
    using inv unfolding db_inv_def refs_ok_def by metis
  then have row: "refreshed job0 d \<in> set (jobs d)" by (rule refreshed_row)
  moreover have "lease_ok (refreshed job0 d) a"
    using inv row a by (simp add: db_inv_def owner_ok_def)
  ultimately show "holds a (refreshed job0 d) d" "j_status (refreshed job0 d) \<in> {LEASED, RUNNING}"
    using a by (auto simp: holds_def lease_ok_def)
qed

lemma holds_no_result:
  assumes "db_inv d" and "holds a j d"
  shows "j_id j \<notin> r_job_id ` set (results d)"
  using assms holds_running(1) [of d a j] by (auto simp: db_inv_def results_ok_def holds_def)

text \<open>What stays of the world around the tables: scan orders, locks, and the remaining clock readings.\<close>

definition same_env :: "world \<Rightarrow> world \<Rightarrow> bool" where
  "same_env w w' \<longleftrightarrow> row_scan w' = row_scan w \<and> worker_scan w' = worker_scan w
     \<and> locked_jobs w' = locked_jobs w \<and> locked_workers w' = locked_workers w
     \<and> (\<exists>n. \<forall>k. clk w' k = clk w (k + n))"

lemma same_envI:
  assumes "row_scan w' = row_scan w" "worker_scan w' = worker_scan w" "locked_jobs w' = locked_jobs w"
    "locked_workers w' = locked_workers w" "\<And>k. clk w' k = clk w (k + n)"
  shows "same_env w w'"
  using assms by (auto simp: same_env_def)

lemma same_env_refl [simp]: "same_env w w"
  by (rule same_envI [of _ _ 0]) simp_all

lemma same_env_trans:
  assumes "same_env w w1" and "same_env w1 w2"
  shows "same_env w w2"
proof -
  from assms obtain m n where "\<forall>k. clk w1 k = clk w (k + m)" "\<forall>k. clk w2 k = clk w1 (k + n)"
    unfolding same_env_def by blast
  then show ?thesis using assms
    by (intro same_envI [of _ _ "n + m"]) (auto simp: same_env_def add.assoc)
qed

lemma same_env_clock:
  assumes "same_env w w'" and "mono (clk w)"
  shows "clk w 0 \<le> clk w' 0" and "mono (clk w')"
  using assms by (auto simp: same_env_def mono_def)

text \<open>A round of the lease loop: nothing, or one attempt ends with outcome LEASE_EXPIRED.\<close>

lemma recover_job_cases:
  assumes inv: "db_inv (db w)"
  obtains (idle) w' where "recover_job job0 w = Inr ((), w')" "db w' = db w" "same_env w w'"
      "\<forall>a \<in> set (attempts (db w)). active a \<longrightarrow> a_job_id a = j_id job0 \<longrightarrow> clk w 0 < a_expires_at a"
  | (expired) w' a where "recover_job job0 w = Inr ((), w')" "holds a (refreshed job0 (db w)) (db w)"
      "a_expires_at a \<le> clk w 0" "db_step\<^sup>*\<^sup>* (db w) (db w')"
      "attempts (db w') = set_row a_id (a_id a) (\<lambda>a. a\<lparr>a_finished_at := Some (clk w (Suc 0)),
         a_outcome := Some OutLeaseExpired,
         a_error := Some ''Lease expired; execution outcome unknown''\<rparr>) (attempts (db w))"
      "same_env w w'"
proof (cases "active_attempt (j_id job0) (db w)")
  case None
  then have "recover_job job0 w = Inr ((), w)"
    by (simp add: recover_job_def tx_get_bind tx_return_def)
  with None show ?thesis
    by (intro idle [of w]) (auto simp: active_attempt_None)
next
  case (Some a)
  let ?job = "refreshed job0 (db w)"
  note held = active_holds [OF inv Some]
  have job_in: "?job \<in> set (jobs (db w))" using held by (simp add: holds_def)
  then have known: "j_id ?job \<in> j_id ` set (jobs (db (tick w)))" by (auto simp del: refreshed_id)
  show ?thesis
  proof (cases "a_expires_at a \<le> clk w 0")
    case False
    have "b = a" if "b \<in> set (attempts (db w))" "active b" "a_job_id b = j_id job0" for b
    proof -
      have "lease_ok ?job b" using inv job_in that by (simp add: db_inv_def owner_ok_def)
      then have "a_fence b = a_fence a" using held that by (simp add: lease_ok_def holds_def)
      then show "b = a" using inv held that job_in
        by (intro fence_unique [of "db w" ?job]) (auto simp: db_inv_def holds_def)
    qed
    with False Some show ?thesis
      by (intro idle [of "tick w"])
        (auto simp: recover_job_def tx_eval intro: same_envI [of _ _ "Suc 0"])
  next
    case True
    let ?err = "''Lease expired; execution outcome unknown''"
    have fresh: "j_id ?job \<notin> r_job_id ` set (results (db (tick w)))"
      using holds_no_result [OF inv held(1)] by simp
    have "fail_attempt ?job a ?err True OutLeaseExpired (tick w) \<noteq> Inl e" for e
      unfolding fail_attempt_eval [OF known] using held(2) fresh by auto
    then obtain w1 where run: "fail_attempt ?job a ?err True OutLeaseExpired (tick w) = Inr ((), w1)"
      by (cases "fail_attempt ?job a ?err True OutLeaseExpired (tick w)") auto
    have step: "db_step (db w) (db w1)"
      using fail_attempt_step [of "tick w" a ?job OutLeaseExpired] inv held run by simp
    have eff: "attempts (db w1) = set_row a_id (a_id a) (\<lambda>a. a\<lparr>a_finished_at := Some (clk w (Suc 0)),
         a_outcome := Some OutLeaseExpired, a_error := Some ?err\<rparr>) (attempts (db w))"
      "same_env w w1"
      using run unfolding fail_attempt_eval [OF known]
      by (auto simp: retried_def buried_def row_simps closed_attempt_def Let_def drawn_def
          intro!: same_envI [of _ _ "Suc (Suc (Suc 0))"] split: if_splits)
    define w' where "w' = w1\<lparr>db := log_system_event (tx_now w1) ''lease_expired'' (Some (a_worker_id a))
      (JObj [(''job_id'', JStr (uuid_text (j_id ?job))), (''attempt_id'', JStr (uuid_text (a_id a)))])
      (db w1)\<rparr>"
    have "recover_job job0 w = Inr ((), w')"
      using Some True run by (simp add: recover_job_def tx_eval w'_def)
    moreover have "db_step (db w1) (db w')"
      unfolding w'_def log_system_event_def by (auto intro: db_step.noted)
    ultimately show ?thesis
      using held True step eff by (intro expired [of w' a]) (auto simp: w'_def row_simps same_env_def)
  qed
qed

lemma recover_job_refines: "refines (recover_job job0)"
proof (rule refinesI)
  fix w x w'
  assume inv: "db_inv (db w)" and run: "recover_job job0 w = Inr (x, w')"
  show "db_step\<^sup>*\<^sup>* (db w) (db w')"
    by (rule recover_job_cases [OF inv, of job0]) (use run in auto)
qed

lemma cancel_blocked_refines: "refines (cancel_blocked job0)"
proof (rule refines_stepI)
  fix w x w'
  assume inv: "db_inv (db w)" and "cancel_blocked job0 w = Inr (x, w')"
  then have legal: "CANCELLED \<in> TRANSITIONS (j_status (refreshed job0 (db w)))"
    and known: "j_id job0 \<in> j_id ` set (jobs (db w))"
    and w': "db w' = moved (tx_now w) (clk w 0) (j_id (refreshed job0 (db w))) CANCELLED (db w)"
    by (auto simp: cancel_blocked_def tx_get_bind transition_iff del: imageE)
  have "j_status (refreshed job0 (db w)) \<in> {QUEUED, RETRY_WAIT}"
    using legal by (cases "j_status (refreshed job0 (db w))") auto
  with w' show "db w' = db w \<or> db_step (db w) (db w')"
    using inv_keys [OF inv] refreshed_row(1) [OF known]
    by (auto simp only: moved_put intro: db_step.cancelled)
qed

lemma recover_jobs_refines: "refines (recover_jobs limit)"
  unfolding recover_jobs_def
  by (intro refines_bind refines_get refines_next refines_for recover_job_refines
      cancel_blocked_refines refines_return)
    (auto intro!: refines_bind refines_get refines_next refines_for recover_job_refines
      cancel_blocked_refines refines_return)

section \<open>The sweep returns, and what it leaves behind\<close>

text \<open>Every round of the lease loop returns; what was expired when the loop began is closed.\<close>

lemma recover_job_returns:
  assumes inv: "db_inv (db w)" and clock: "t \<le> clk w 0"
  obtains w' where "recover_job job0 w = Inr ((), w')" "same_env w w'" "db_inv (db w')"
    "\<forall>a \<in> set (attempts (db w')). active a \<longrightarrow> a \<in> set (attempts (db w))"
    "\<forall>a \<in> set (attempts (db w')). active a \<longrightarrow> a_job_id a = j_id job0 \<longrightarrow> t < a_expires_at a"
proof (rule recover_job_cases [OF inv, of job0])
  fix w'
  assume run: "recover_job job0 w = Inr ((), w')" "db w' = db w" "same_env w w'"
    and "\<forall>a \<in> set (attempts (db w)). active a \<longrightarrow> a_job_id a = j_id job0 \<longrightarrow> clk w 0 < a_expires_at a"
  with inv clock show thesis by (intro that [of w']) auto
next
  fix w' a
  assume run: "recover_job job0 w = Inr ((), w')" "db_step\<^sup>*\<^sup>* (db w) (db w')" "same_env w w'"
    and held: "holds a (refreshed job0 (db w)) (db w)"
    and rows: "attempts (db w') = set_row a_id (a_id a) (\<lambda>a. a\<lparr>a_finished_at := Some (clk w (Suc 0)),
         a_outcome := Some OutLeaseExpired,
         a_error := Some ''Lease expired; execution outcome unknown''\<rparr>) (attempts (db w))"
  have a: "a \<in> set (attempts (db w))" using held by (simp add: holds_def)
  have left: "b \<in> set (attempts (db w)) - {a}" if b: "b \<in> set (attempts (db w'))" "active b" for b
  proof -
    have "b = a\<lparr>a_finished_at := Some (clk w (Suc 0)), a_outcome := Some OutLeaseExpired,
        a_error := Some ''Lease expired; execution outcome unknown''\<rparr>
        \<or> b \<in> set (attempts (db w)) - {a}"
      using b(1) attempt_table.update_set [OF inv_keys(3) [OF inv] a] by (simp add: rows)
    with b(2) show ?thesis by (elim disjE) simp_all
  qed
  have "a_job_id b \<noteq> j_id job0" if b: "b \<in> set (attempts (db w)) - {a}" "active b" for b
  proof
    assume job: "a_job_id b = j_id job0"
    have row: "refreshed job0 (db w) \<in> set (jobs (db w))" using held by (simp add: holds_def)
    then have "lease_ok (refreshed job0 (db w)) b"
      using inv b job by (simp add: db_inv_def owner_ok_def)
    then have "b = a" using inv b held job row
      by (intro fence_unique [of "db w" "refreshed job0 (db w)"])
        (auto simp: db_inv_def lease_ok_def holds_def)
    with b show False by simp
  qed
  with left run lifecycle.run_inv [OF run(2) inv] show thesis by (intro that [of w']) blast+
qed

lemma recover_loop:
  assumes "db_inv (db w)" and "mono (clk w)" and "t \<le> clk w 0"
  shows "\<exists>w'. tx_for js recover_job w = Inr ((), w') \<and> same_env w w' \<and> db_inv (db w')
    \<and> (\<forall>a \<in> set (attempts (db w')). active a \<longrightarrow> a \<in> set (attempts (db w)))
    \<and> (\<forall>a \<in> set (attempts (db w')). active a \<longrightarrow> a_job_id a \<in> j_id ` set js \<longrightarrow> t < a_expires_at a)"
  using assms
proof (induction js arbitrary: w)
  case Nil
  then show ?case by (auto simp: tx_return_def)
next
  case (Cons j js)
  obtain w1 where w1: "recover_job j w = Inr ((), w1)" "same_env w w1" "db_inv (db w1)"
    "\<forall>a \<in> set (attempts (db w1)). active a \<longrightarrow> a \<in> set (attempts (db w))"
    "\<forall>a \<in> set (attempts (db w1)). active a \<longrightarrow> a_job_id a = j_id j \<longrightarrow> t < a_expires_at a"
    using recover_job_returns [OF Cons.prems(1,3), of j] by blast
  have "t \<le> clk w1 0" "mono (clk w1)"
    using same_env_clock [OF w1(2) Cons.prems(2)] Cons.prems(3) by auto
  from Cons.IH [OF w1(3) this(2,1)] obtain w2 where w2: "tx_for js recover_job w1 = Inr ((), w2)"
    "same_env w1 w2" "db_inv (db w2)"
    "\<forall>a \<in> set (attempts (db w2)). active a \<longrightarrow> a \<in> set (attempts (db w1))"
    "\<forall>a \<in> set (attempts (db w2)). active a \<longrightarrow> a_job_id a \<in> j_id ` set js \<longrightarrow> t < a_expires_at a"
    by blast
  have "tx_for (j # js) recover_job w = Inr ((), w2)" using w1(1) w2(1) by (simp add: tx_bind_def)
  moreover have "same_env w w2" by (rule same_env_trans [OF w1(2) w2(2)])
  ultimately show ?case using w1(4,5) w2(3,4,5) by (intro exI [of _ w2]) auto
qed

text \<open>The loop over the blocked jobs returns, cancelling exactly them.\<close>

lemma cancel_blocked_returns:
  assumes inv: "db_inv (db w)" and row: "r \<in> set (jobs (db w))" "j_id r = j_id j"
    and waiting: "j_status r \<in> {QUEUED, RETRY_WAIT}"
  obtains w' where "cancel_blocked j w = Inr ((), w')" "same_env w w'" "db_inv (db w')"
    "attempts (db w') = attempts (db w)"
    "set (jobs (db w'))
       = insert (r\<lparr>j_status := CANCELLED, j_updated_at := clk w 0\<rparr>) (set (jobs (db w)) - {r})"
proof -
  have "refreshed j (db w) = r"
    using job_table.lookup_unique [OF inv_keys(2) [OF inv] row(1)] row(2)
    by (simp add: refreshed_def job_by_id_def)
  moreover have "j_id j \<in> j_id ` set (jobs (db w))" using row by (metis image_eqI)
  ultimately have run: "cancel_blocked j w
      = Inr ((), (tick w)\<lparr>db := moved (tx_now w) (clk w 0) (j_id r) CANCELLED (db w)\<rparr>)"
    using waiting row(2) by (auto simp: cancel_blocked_def tx_get_bind transition_eval)
  have "db_inv (moved (tx_now w) (clk w 0) (j_id r) CANCELLED (db w))"
    using refines_run(2) [OF cancel_blocked_refines inv run] by simp
  then show thesis using run job_table.update_set [OF inv_keys(2) [OF inv] row(1)]
    by (intro that [of "(tick w)\<lparr>db := moved (tx_now w) (clk w 0) (j_id r) CANCELLED (db w)\<rparr>"])
      (auto simp: row_simps intro!: same_envI [of _ _ "Suc 0"])
qed

lemma cancel_loop:
  assumes "db_inv (db w)" and "distinct (map j_id js)"
    and "\<forall>j \<in> set js. \<exists>r \<in> set (jobs (db w)). j_id r = j_id j \<and> j_status r \<in> {QUEUED, RETRY_WAIT}"
  shows "\<exists>w'. tx_for js cancel_blocked w = Inr ((), w') \<and> same_env w w' \<and> db_inv (db w')
    \<and> attempts (db w') = attempts (db w)
    \<and> (\<forall>r \<in> set (jobs (db w')). if j_id r \<in> j_id ` set js then j_status r = CANCELLED
         else r \<in> set (jobs (db w)))"
  using assms
proof (induction js arbitrary: w)
  case Nil
  then show ?case by (auto simp: tx_return_def)
next
  case (Cons j js)
  then obtain r where r: "r \<in> set (jobs (db w))" "j_id r = j_id j" "j_status r \<in> {QUEUED, RETRY_WAIT}"
    by auto
  obtain w1 where w1: "cancel_blocked j w = Inr ((), w1)" "same_env w w1" "db_inv (db w1)"
    "attempts (db w1) = attempts (db w)" "set (jobs (db w1))
       = insert (r\<lparr>j_status := CANCELLED, j_updated_at := clk w 0\<rparr>) (set (jobs (db w)) - {r})"
    using cancel_blocked_returns [OF Cons.prems(1) r] by blast
  have "\<forall>i \<in> set js. \<exists>r \<in> set (jobs (db w1)). j_id r = j_id i \<and> j_status r \<in> {QUEUED, RETRY_WAIT}"
  proof
    fix i
    assume i: "i \<in> set js"
    then obtain s where "s \<in> set (jobs (db w))" "j_id s = j_id i" "j_status s \<in> {QUEUED, RETRY_WAIT}"
      using Cons.prems(3) by auto
    moreover from this i Cons.prems(2) r(2) have "s \<noteq> r" by auto
    ultimately show "\<exists>r \<in> set (jobs (db w1)). j_id r = j_id i \<and> j_status r \<in> {QUEUED, RETRY_WAIT}"
      using w1(5) by blast
  qed
  from Cons.IH [OF w1(3) _ this] Cons.prems(2) obtain w2 where
    w2: "tx_for js cancel_blocked w1 = Inr ((), w2)" "same_env w1 w2" "db_inv (db w2)"
    "attempts (db w2) = attempts (db w1)" "\<forall>r \<in> set (jobs (db w2)). if j_id r \<in> j_id ` set js
       then j_status r = CANCELLED else r \<in> set (jobs (db w1))" by auto
  have "tx_for (j # js) cancel_blocked w = Inr ((), w2)" using w1(1) w2(1) by (simp add: tx_bind_def)
  moreover have "same_env w w2" by (rule same_env_trans [OF w1(2) w2(2)])
  moreover have "if j_id s \<in> j_id ` set (j # js) then j_status s = CANCELLED else s \<in> set (jobs (db w))"
    if s: "s \<in> set (jobs (db w2))" for s
  proof (cases "j_id s \<in> j_id ` set js")
    case False
    with w2(5) s have "s \<in> set (jobs (db w1))" by auto
    then have "s = r\<lparr>j_status := CANCELLED, j_updated_at := clk w 0\<rparr> \<or> s \<in> set (jobs (db w)) \<and> s \<noteq> r"
      unfolding w1(5) by auto
    then show ?thesis
    proof
      assume "s = r\<lparr>j_status := CANCELLED, j_updated_at := clk w 0\<rparr>"
      then show ?thesis using r(2) by simp
    next
      assume s: "s \<in> set (jobs (db w)) \<and> s \<noteq> r"
      then have "j_id s \<noteq> j_id r"
        using job_id_inj [OF inv_keys(1) [OF Cons.prems(1)] _ r(1), of s] by blast
      with s False r(2) show ?thesis by simp
    qed
  qed (use w2(5) s in auto)
  ultimately show ?case using w1(4) w2(3,4) by (intro exI [of _ w2]) auto
qed

text \<open>A scan delivers every row of the query once.\<close>

definition scan_ok :: "world \<Rightarrow> bool" where
  "scan_ok w \<longleftrightarrow>
     (\<forall>rs. set (row_scan w rs) = set rs \<and> length (row_scan w rs) = length rs)
     \<and> (\<forall>vs. set (worker_scan w vs) = set vs \<and> length (worker_scan w vs) = length vs)"

lemma scan_distinct:
  assumes "set ys = set xs" and "length ys = length xs" and "distinct (map f xs)"
  shows "distinct (map f ys)"
  using assms by (simp add: distinct_map) (metis card_distinct distinct_card)

lemma page_distinct:
  assumes "scan_ok w" and "distinct (map j_id rs)"
  shows "distinct (map j_id (locked_page limit w rs))"
proof -
  have "distinct (map j_id (row_scan w rs))"
    using assms scan_distinct [of "row_scan w rs" rs j_id] by (simp add: scan_ok_def)
  then have "distinct (map j_id (filter P (row_scan w rs)))" for P
    by (simp add: distinct_map_filter)
  then show ?thesis unfolding locked_page_def take_map [symmetric] by (rule distinct_take)
qed

lemma page_subset: "scan_ok w \<Longrightarrow> set (locked_page limit w rs) \<subseteq> set rs"
  unfolding locked_page_def scan_ok_def by (metis (no_types, lifting) filter_is_subset set_take_subset
      subset_trans)

lemma page_all:
  assumes "scan_ok w" and "locked_jobs w = []" and "length rs \<le> limit"
  shows "set (locked_page limit w rs) = set rs"
  using assms by (simp add: locked_page_def scan_ok_def)

lemma recover_jobs_returns:
  assumes inv: "db_inv (db w)" and clock: "mono (clk w)" and scan: "scan_ok w"
    and lock: "\<not> recovery_lock_taken w"
    and page_def: "page = locked_page limit w (expired_join (clk w 0) (db w))"
  shows "\<exists>w'. recover_jobs limit w = Inr (int (length page), w') \<and> db_inv (db w')
    \<and> (\<forall>a \<in> set (attempts (db w')). active a \<longrightarrow> a \<in> set (attempts (db w)))
    \<and> (\<forall>a \<in> set (attempts (db w')). active a \<longrightarrow> a_job_id a \<in> j_id ` set page \<longrightarrow> clk w 0 < a_expires_at a)"
proof -
  have page: "locked_page limit (tick w) (expired_join (clk w 0) (db w)) = page"
    by (simp add: page_def locked_page_def)
  have mono: "mono (clk (tick w))" "clk w 0 \<le> clk (tick w) 0"
    using clock by (auto simp: mono_def)
  from recover_loop [OF _ mono, of page] inv obtain w1 where
    w1: "tx_for page recover_job (tick w) = Inr ((), w1)" "same_env (tick w) w1" "db_inv (db w1)"
    "\<forall>a \<in> set (attempts (db w1)). active a \<longrightarrow> a \<in> set (attempts (db w))"
    "\<forall>a \<in> set (attempts (db w1)). active a \<longrightarrow> a_job_id a \<in> j_id ` set page \<longrightarrow> clk w 0 < a_expires_at a"
    by auto
  let ?blocked = "locked_page limit w1 (blocked_rows (db w1))"
  have scan1: "scan_ok w1" using scan w1(2) by (simp add: scan_ok_def same_env_def)
  have "distinct (map j_id (blocked_rows (db w1)))"
    using inv_keys(2) [OF w1(3)] by (simp add: blocked_rows_def distinct_map_filter)
  then have "distinct (map j_id ?blocked)" by (rule page_distinct [OF scan1])
  moreover have "\<forall>j \<in> set ?blocked. \<exists>r \<in> set (jobs (db w1)). j_id r = j_id j
      \<and> j_status r \<in> {QUEUED, RETRY_WAIT}"
    using page_subset [OF scan1, of limit "blocked_rows (db w1)"] by (auto simp: blocked_rows_def)
  ultimately obtain w2 where w2: "tx_for ?blocked cancel_blocked w1 = Inr ((), w2)"
    "db_inv (db w2)" "attempts (db w2) = attempts (db w1)"
    using cancel_loop [OF w1(3), of ?blocked] by blast
  have "recover_jobs limit w = Inr (int (length page), w2)"
    using lock w1(1) w2(1) page
    by (simp add: recover_jobs_def tx_bind_def tx_get_def tx_return_def database_time_def next_clock_def)
  with w1 w2 show ?thesis by auto
qed

lemma expired_join_covers:
  assumes inv: "db_inv d" and "a \<in> set (attempts d)" and "active a" and "a_expires_at a \<le> t"
  shows "a_job_id a \<in> j_id ` set (expired_join t d)"
proof -
  from assms obtain j where j: "j \<in> set (jobs d)" "j_id j = a_job_id a"
    unfolding db_inv_def refs_ok_def by (metis imageE)
  then have "lease_ok j a" using inv assms(2) by (simp add: db_inv_def owner_ok_def)
  then have "j \<in> set (expired_join t d)"
    using assms j by (auto simp: expired_join_def lease_ok_def)
  with j(2) show ?thesis by (metis image_eqI)
qed

end
