(* ===== verification/Api.thy ===== *)
theory Api
  imports Protocol Recovery
begin

text \<open>
  \<^verbatim>\<open>greyqueue/api.py\<close>: credentials, worker sessions, and the routes of the coordinator. A route
  is a transaction (the \<^verbatim>\<open>session\<close> dependency) that returns its response body; \<open>handle\<close>
  commits it or rolls it back and turns an exception into the response of its handler.
\<close>

section \<open>Errors\<close>

definition unprocessable :: "exn \<Rightarrow> (string \<times> string list \<times> string) list" where
  "unprocessable exc =
     (case exc of
        ValidationError t es \<Rightarrow>
          map (\<lambda>(kind, loc, msg). (kind, ''body'' # ''args'' # loc, msg)) es
      | Invalid msg field \<Rightarrow>
          [(''value_error'', if field = [] then [''body''] else [''body'', field], msg)]
      | _ \<Rightarrow> [(''value_error'', [''body''], exn_text exc)])"

text \<open>The exception handlers: status, detail and extra headers. Any other exception is a 500.\<close>

fun http_error :: "exn \<Rightarrow> nat \<times> http_detail \<times> (string \<times> string) list" where
  "http_error (Conflict m) = (409, Detail m, [])"
| "http_error (Missing m) = (404, Detail m, [])"
| "http_error (Saturated m) = (429, Detail m, [(''Retry-After'', ''2'')])"
| "http_error (HTTPException n d) = (n, d, [])"
| "http_error e = (500, Detail ''Internal Server Error'', [])"

definition handle ::
    "'a dbtx \<Rightarrow> world \<Rightarrow> ((nat \<times> http_detail \<times> (string \<times> string) list) + 'a) \<times> world" where
  "handle m w = (case run_tx m w of (Inl e, w') \<Rightarrow> (Inl (http_error e), w') | (Inr x, w') \<Rightarrow> (Inr x, w'))"

section \<open>Credentials\<close>

definition authorize :: "string \<Rightarrow> string option \<Rightarrow> unit dbtx" where
  "authorize expected supplied =
     (if supplied = None \<or> the supplied \<noteq> ''Bearer '' @ expected
      then tx_raise (HTTPException 401 (Detail ''Invalid bearer token'')) else tx_return ())"

definition client :: "settings \<Rightarrow> string option \<Rightarrow> unit dbtx" where
  "client c authorization = authorize (cfg_client_token c) authorization"

definition worker :: "settings \<Rightarrow> string option \<Rightarrow> unit dbtx" where
  "worker c authorization = authorize (ws_worker_token c) authorization"

definition or_empty :: "string option \<Rightarrow> string" where
  "or_empty s = (case s of None \<Rightarrow> [] | Some t \<Rightarrow> t)"

definition identity :: "env \<Rightarrow> string \<Rightarrow> string option \<Rightarrow> worker_row dbtx" where
  "identity env worker_id credential =
     tx_bind (tx_get (\<lambda>w. worker_by_id worker_id (db w))) (\<lambda>found.
     let hashed = sha256 env (or_empty credential);
         refused = tx_raise (HTTPException 401 (Detail ''Invalid worker session'')) in
     case found of
        None \<Rightarrow> refused
      | Some record \<Rightarrow>
          if or_empty (w_session_hash record) = [] \<or> or_empty (w_session_hash record) \<noteq> hashed
          then refused else tx_return record)"

section \<open>Client routes\<close>

text \<open>The status code and the job.\<close>

definition submit_route ::
    "env \<Rightarrow> settings \<Rightarrow> string option \<Rightarrow> submission \<Rightarrow> (nat \<times> job_out) dbtx" where
  "submit_route env c auth body =
     tx_bind (client c auth) (\<lambda>_.
     tx_bind (\<lambda>w. case admit env body (cfg_queue_limit c) (cfg_submissions_per_minute c) w of
          Inl e \<Rightarrow> if is_value_error e then Inl (HTTPException 422 (Errors (unprocessable e))) else Inl e
        | Inr r \<Rightarrow> Inr r) (\<lambda>(job, created).
     tx_bind (tx_get (\<lambda>w. serialize env (db w) None job)) (\<lambda>out.
     tx_return (if created then 201 else 200, out))))"

definition jobs_page :: "nat \<Rightarrow> nat \<Rightarrow> string option \<Rightarrow> database \<Rightarrow> job_row list" where
  "jobs_page limit offset state d =
     take limit (drop offset (sort_key (\<lambda>j. (- j_created_at j, j_id j))
       (filter (\<lambda>j. or_empty state = [] \<or> status_name (j_status j) = or_empty state) (jobs d))))"

definition jobs_route ::
    "env \<Rightarrow> settings \<Rightarrow> string option \<Rightarrow> nat \<Rightarrow> nat \<Rightarrow> string option \<Rightarrow> job_out list dbtx" where
  "jobs_route env c auth limit offset state =
     tx_bind (client c auth) (\<lambda>_.
     tx_get (\<lambda>w.
       let rows = jobs_page limit offset state (db w);
           found = map_of (map (\<lambda>r. (r_job_id r, r))
             (filter (\<lambda>r. r_job_id r \<in> j_id ` set rows) (results (db w))))
       in map (serialize env (db w) (Some found)) rows))"

definition job_route :: "env \<Rightarrow> settings \<Rightarrow> string option \<Rightarrow> uuid \<Rightarrow> job_out dbtx" where
  "job_route env c auth job_id =
     tx_bind (client c auth) (\<lambda>_.
     tx_bind (get_job job_id) (\<lambda>job.
     tx_get (\<lambda>w. serialize env (db w) None job)))"

record attempt_out =
  ao_id :: string
  ao_worker_id :: string
  ao_fence :: int
  ao_outcome :: "attempt_outcome option"
  ao_error :: "string option"
  ao_output :: "json option"
  ao_created_at :: timestamp
  ao_started_at :: "timestamp option"
  ao_finished_at :: "timestamp option"
  ao_expires_at :: timestamp

definition attempt_shown :: "attempt_row \<Rightarrow> attempt_out" where
  "attempt_shown a =
     \<lparr>ao_id = uuid_text (a_id a), ao_worker_id = a_worker_id a, ao_fence = a_fence a,
      ao_outcome = a_outcome a, ao_error = a_error a, ao_output = a_output a,
      ao_created_at = a_created_at a, ao_started_at = a_started_at a,
      ao_finished_at = a_finished_at a, ao_expires_at = a_expires_at a\<rparr>"

definition attempts_route :: "settings \<Rightarrow> string option \<Rightarrow> uuid \<Rightarrow> attempt_out list dbtx" where
  "attempts_route c auth job_id =
     tx_bind (client c auth) (\<lambda>_.
     tx_bind (get_job job_id) (\<lambda>_.
     tx_get (\<lambda>w. map attempt_shown
       (sort_key a_fence (filter (\<lambda>a. a_job_id a = job_id) (attempts (db w)))))))"

definition cancel_route :: "settings \<Rightarrow> string option \<Rightarrow> uuid \<Rightarrow> string dbtx" where
  "cancel_route c auth job_id =
     tx_bind (client c auth) (\<lambda>_.
     tx_bind (cancel job_id) (\<lambda>_.
     tx_return ''CANCELLED''))"

definition drain_route :: "settings \<Rightarrow> string option \<Rightarrow> string \<Rightarrow> worker_state dbtx" where
  "drain_route c auth worker_id =
     tx_bind (client c auth) (\<lambda>_.
     tx_bind (tx_get (\<lambda>w. worker_by_id worker_id (db w))) (\<lambda>found.
     case found of
        None \<Rightarrow> tx_raise (Missing ''Worker not found'')
      | Some record \<Rightarrow>
     if w_state record = DEAD then tx_raise (Conflict ''Worker is dead; there is nothing to drain'')
     else
     tx_bind (if w_state record \<noteq> DRAINING
              then tx_bind (update_worker worker_id (\<lambda>v. v\<lparr>w_state := DRAINING\<rparr>)) (\<lambda>_.
                   add_system_event ''worker_draining'' (Some worker_id) (JObj []))
              else tx_return ()) (\<lambda>_.
     tx_bind (update_worker worker_id (\<lambda>v. v\<lparr>w_drain_requested := True\<rparr>)) (\<lambda>_.
     tx_return DRAINING))))"

section \<open>Worker routes\<close>

record registered_out =
  ro_worker_id :: string
  ro_lease_seconds :: seconds
  ro_heartbeat_interval :: seconds

text \<open>\<^verbatim>\<open>INSERT ... ON CONFLICT DO NOTHING\<close> with the columns' server defaults.\<close>

definition new_worker :: "registration \<Rightarrow> string \<Rightarrow> timestamp \<Rightarrow> worker_row" where
  "new_worker body digest now =
     \<lparr>w_id = reg_worker_id body, w_state = HEALTHY, w_capacity = reg_capacity body,
      w_capabilities = reg_capabilities body, w_session_hash = Some digest,
      w_drain_requested = False, w_registered_at = now, w_last_seen = now\<rparr>"

definition insert_worker :: "worker_row \<Rightarrow> bool dbtx" where
  "insert_worker v w =
     (if w_id v \<in> w_id ` set (workers (db w)) then Inr (False, w)
      else Inr (True, w\<lparr>db := (db w)\<lparr>workers := workers (db w) @ [v]\<rparr>\<rparr>))"

definition resumed :: "worker_row \<Rightarrow> worker_state" where
  "resumed v = (if w_drain_requested v then DRAINING else HEALTHY)"

definition register_route ::
    "env \<Rightarrow> settings \<Rightarrow> string option \<Rightarrow> registration \<Rightarrow> registered_out dbtx" where
  "register_route env c auth body =
     (let wid = reg_worker_id body; digest = sha256 env (reg_session_token body) in
     tx_bind (worker c auth) (\<lambda>_.
     tx_bind (tx_get tx_now) (\<lambda>now.
     tx_bind (insert_worker (new_worker body digest now)) (\<lambda>inserted.
     tx_bind (tx_get (\<lambda>w. worker_by_id wid (db w))) (\<lambda>found.
     tx_bind
       (if inserted then add_system_event ''worker_registered'' (Some wid) (JObj [])
        else case found of
           None \<Rightarrow> tx_raise (TypeError ''record is None'')
         | Some record \<Rightarrow>
             if or_empty (w_session_hash record) = digest then
               (if w_state record = DEAD then
                  tx_bind database_time (\<lambda>t.
                  tx_bind (update_worker wid (\<lambda>v. v\<lparr>w_last_seen := t, w_state := resumed v\<rparr>)) (\<lambda>_.
                  add_system_event ''worker_recovered'' (Some wid) (JObj [])))
                else tx_return ())
             else if w_state record \<noteq> DEAD
               then tx_raise (Conflict ''Worker ID is already owned; use a new ID'')
             else
               tx_bind database_time (\<lambda>t.
               tx_bind (update_worker wid (\<lambda>v. v\<lparr>w_session_hash := Some digest,
                   w_capacity := reg_capacity body, w_capabilities := reg_capabilities body,
                   w_state := HEALTHY, w_last_seen := t, w_drain_requested := False\<rparr>)) (\<lambda>_.
               add_system_event ''worker_reregistered'' (Some wid) (JObj [])))) (\<lambda>_.
     tx_return \<lparr>ro_worker_id = wid, ro_lease_seconds = cfg_lease_seconds c,
        ro_heartbeat_interval = cfg_heartbeat_interval c\<rparr>))))))"

definition heartbeat_route ::
    "env \<Rightarrow> settings \<Rightarrow> string option \<Rightarrow> string \<Rightarrow> string option \<Rightarrow> worker_state dbtx" where
  "heartbeat_route env c auth worker_id credential =
     tx_bind (worker c auth) (\<lambda>_.
     tx_bind (identity env worker_id credential) (\<lambda>record.
     tx_bind database_time (\<lambda>t.
     tx_bind (update_worker worker_id (\<lambda>v. v\<lparr>w_last_seen := t\<rparr>)) (\<lambda>_.
     tx_bind (if w_state record \<in> {SUSPECT, DEAD}
              then add_system_event ''worker_recovered'' (Some worker_id) (JObj [])
              else tx_return ()) (\<lambda>_.
     tx_bind (update_worker worker_id (\<lambda>v. v\<lparr>w_state := resumed v\<rparr>)) (\<lambda>_.
     tx_return (resumed record)))))))"

record assignment_out =
  out_job :: job_out
  out_token :: string
  out_fence :: int
  out_expires_at :: timestamp

definition claim_route ::
    "env \<Rightarrow> settings \<Rightarrow> string option \<Rightarrow> claim_body \<Rightarrow> string option \<Rightarrow> assignment_out option dbtx"
  where
  "claim_route env c auth body credential =
     tx_bind (worker c auth) (\<lambda>_.
     tx_bind (identity env (cl_worker_id body) credential) (\<lambda>_.
     tx_bind (\<lambda>w. case claim (cl_worker_id body) (cl_slot body) (Some (cl_claim_id body))
               (cfg_scheduler c) (cfg_lease_seconds c) w of
          Inl (Invalid msg field) \<Rightarrow>
            Inl (HTTPException 422 (Errors (unprocessable (Invalid msg field))))
        | Inl e \<Rightarrow> Inl e
        | Inr r \<Rightarrow> Inr r) (\<lambda>item.
     case item of
        None \<Rightarrow> tx_return None
      | Some (job, attempt) \<Rightarrow>
     tx_get (\<lambda>w. Some \<lparr>out_job = serialize env (db w) None job, out_token = uuid_text (a_id attempt),
        out_fence = a_fence attempt, out_expires_at = a_expires_at attempt\<rparr>))))"

definition start_route ::
    "env \<Rightarrow> settings \<Rightarrow> string option \<Rightarrow> uuid \<Rightarrow> assignment_body \<Rightarrow> string option \<Rightarrow> string dbtx" where
  "start_route env c auth job_id body credential =
     tx_bind (worker c auth) (\<lambda>_.
     tx_bind (identity env (as_worker_id body) credential) (\<lambda>_.
     tx_bind (start job_id (as_worker_id body) (as_token body)) (\<lambda>_.
     tx_return ''RUNNING'')))"

definition renew_route ::
    "env \<Rightarrow> settings \<Rightarrow> string option \<Rightarrow> uuid \<Rightarrow> assignment_body \<Rightarrow> string option \<Rightarrow> timestamp dbtx"
  where
  "renew_route env c auth job_id body credential =
     tx_bind (worker c auth) (\<lambda>_.
     tx_bind (identity env (as_worker_id body) credential) (\<lambda>_.
     renew job_id (as_worker_id body) (as_token body) (cfg_lease_seconds c)))"

definition finish_route ::
    "env \<Rightarrow> settings \<Rightarrow> string option \<Rightarrow> uuid \<Rightarrow> completion \<Rightarrow> string option \<Rightarrow> string dbtx" where
  "finish_route env c auth job_id body credential =
     tx_bind (worker c auth) (\<lambda>_.
     tx_bind (identity env (as_worker_id body) credential) (\<lambda>_.
     tx_bind (finish job_id (as_worker_id body) (as_token body) (co_output body) (co_error body)
         (co_retryable body)) (\<lambda>_.
     tx_return ''RECORDED'')))"

section \<open>The routes refine the lifecycle\<close>

lemma refines_authorize: "refines (client c auth)" "refines (worker c auth)"
  by (auto simp: client_def worker_def authorize_def intro: refines_raise refines_return)

lemma refines_identity: "refines (identity env wid cred)"
  unfolding identity_def
  by (auto simp: Let_def intro!: refines_bind refines_get refines_raise refines_return
      split: option.splits)

text \<open>An exception handler around a transaction changes only what is raised.\<close>

lemma refines_rethrow:
  assumes "refines m" and "\<And>w r. m' w = Inr r \<Longrightarrow> m w = Inr r"
  shows "refines m'"
  using assms unfolding refines_def by blast

lemma worker_change:
  assumes "d' = d\<lparr>workers := ws, system_events := es\<rparr>" and "distinct (map w_id ws)"
    and "w_id ` set (workers d) \<subseteq> w_id ` set ws" and "\<forall>v \<in> set ws. worker_ok v"
  shows "db_step\<^sup>*\<^sup>* d d'"
proof -
  have "db_step d (d\<lparr>workers := ws\<rparr>)" using assms(2-4) by (rule db_step.workers_changed)
  moreover have "db_step (d\<lparr>workers := ws\<rparr>) d'" unfolding assms(1) by (rule db_step.noted)
  ultimately show ?thesis by auto
qed

lemma worker_update:
  assumes inv: "db_inv d" and d': "d' = d\<lparr>workers := set_row w_id i f (workers d), system_events := es\<rparr>"
    and id: "\<And>v. w_id (f v) = w_id v"
    and ok: "\<And>v. v \<in> set (workers d) \<Longrightarrow> w_id v = i \<Longrightarrow> worker_ok (f v)"
  shows "db_step\<^sup>*\<^sup>* d d'"
proof (rule worker_change [OF d'])
  show "distinct (map w_id (set_row w_id i f (workers d)))"
    using inv_keys(4) [OF inv] worker_table.update_keys [of f i "workers d"] id by simp
  show "w_id ` set (workers d) \<subseteq> w_id ` set (set_row w_id i f (workers d))"
    by (simp add: id)
  show "\<forall>v \<in> set (set_row w_id i f (workers d)). worker_ok v"
    using inv ok by (auto simp: set_row_def db_inv_def fleet_ok_def)
qed

lemma drain_route_effect:
  assumes "drain_route c auth wid w = Inr (x, w')"
  obtains v where "worker_by_id wid (db w) = Some v" "w_state v \<noteq> DEAD"
    "db w' = (db w)\<lparr>workers := set_row w_id wid (\<lambda>v. v\<lparr>w_state := DRAINING,
        w_drain_requested := True\<rparr>) (workers (db w)), system_events := system_events (db w')\<rparr>
      \<or> w_state v = DRAINING \<and> db w' = (db w)\<lparr>workers := set_row w_id wid
        (\<lambda>v. v\<lparr>w_drain_requested := True\<rparr>) (workers (db w)), system_events := system_events (db w)\<rparr>"
  using assms
  by (cases "worker_by_id wid (db w)")
    (auto simp: drain_route_def client_def authorize_def tx_eval set_worker_def log_system_event_def
      set_row_twice split: if_splits)

lemma drain_route_refines: "refines (drain_route c auth wid)"
proof (rule refinesI)
  fix w x w'
  assume inv: "db_inv (db w)" and run: "drain_route c auth wid w = Inr (x, w')"
  from run obtain v where v: "worker_by_id wid (db w) = Some v" "w_state v \<noteq> DEAD"
    and d': "db w' = (db w)\<lparr>workers := set_row w_id wid (\<lambda>v. v\<lparr>w_state := DRAINING,
        w_drain_requested := True\<rparr>) (workers (db w)), system_events := system_events (db w')\<rparr>
      \<or> w_state v = DRAINING \<and> db w' = (db w)\<lparr>workers := set_row w_id wid
        (\<lambda>v. v\<lparr>w_drain_requested := True\<rparr>) (workers (db w)), system_events := system_events (db w)\<rparr>"
    by (rule drain_route_effect)
  have ok: "worker_ok u \<and> w_state u = w_state v" if "u \<in> set (workers (db w))" "w_id u = wid" for u
    using that inv worker_table.lookup_iff [OF inv_keys(4) [OF inv], of wid u] v
    by (auto simp: worker_by_id_def db_inv_def fleet_ok_def)
  from d' show "db_step\<^sup>*\<^sup>* (db w) (db w')"
  proof (elim disjE conjE)
    assume "db w' = (db w)\<lparr>workers := set_row w_id wid (\<lambda>v. v\<lparr>w_state := DRAINING,
        w_drain_requested := True\<rparr>) (workers (db w)), system_events := system_events (db w')\<rparr>"
    then show ?thesis by (rule worker_update [OF inv]) (use ok in \<open>auto simp: worker_ok_def\<close>)
  next
    assume draining: "w_state v = DRAINING" and d': "db w' = (db w)\<lparr>workers := set_row w_id wid
        (\<lambda>v. v\<lparr>w_drain_requested := True\<rparr>) (workers (db w)), system_events := system_events (db w)\<rparr>"
    from d' show ?thesis
      by (rule worker_update [OF inv]) (use ok draining in \<open>auto simp: worker_ok_def\<close>)
  qed
qed

lemma identity_iff:
  "identity env wid cred w = Inr (v, w') \<longleftrightarrow>
     w' = w \<and> worker_by_id wid (db w) = Some v \<and> or_empty (w_session_hash v) \<noteq> []
     \<and> or_empty (w_session_hash v) = sha256 env (or_empty cred)"
  by (cases "worker_by_id wid (db w)") (auto simp: identity_def tx_eval Let_def)

lemma heartbeat_route_iff:
  assumes "heartbeat_route env c auth wid cred w = Inr (x, w')"
  obtains v es where "identity env wid cred w = Inr (v, w)" "x = resumed v"
    "db w' = (db w)\<lparr>workers := set_row w_id wid (\<lambda>v. v\<lparr>w_last_seen := clk w 0, w_state := resumed v\<rparr>)
       (workers (db w)), system_events := es\<rparr>"
proof -
  obtain v where v: "identity env wid cred w = Inr (v, w)" and auth: "worker c auth w = Inr ((), w)"
    using assms by (auto simp: heartbeat_route_def tx_bind_Inr identity_iff worker_def authorize_def
        tx_return_def tx_raise_def split: if_splits)
  have "resumed (u\<lparr>w_last_seen := t\<rparr>) = resumed u" for u t by (simp add: resumed_def)
  then have "x = resumed v \<and> db w' = (db w)\<lparr>workers := set_row w_id wid
      (\<lambda>v. v\<lparr>w_last_seen := clk w 0, w_state := resumed v\<rparr>) (workers (db w)),
      system_events := system_events (db w')\<rparr>"
    using assms v auth
    by (auto simp: heartbeat_route_def tx_bind_def database_time_def next_clock_def update_worker_def
        tx_modify_def tx_return_def add_system_event_def set_worker_def log_system_event_def
        set_row_twice split: if_splits)
  with v show thesis by (intro that) auto
qed

lemma heartbeat_route_refines: "refines (heartbeat_route env c auth wid cred)"
proof (rule refinesI)
  fix w x w'
  assume inv: "db_inv (db w)" and run: "heartbeat_route env c auth wid cred w = Inr (x, w')"
  from run obtain es where "db w' = (db w)\<lparr>workers := set_row w_id wid
      (\<lambda>v. v\<lparr>w_last_seen := clk w 0, w_state := resumed v\<rparr>) (workers (db w)), system_events := es\<rparr>"
    by (rule heartbeat_route_iff)
  then show "db_step\<^sup>*\<^sup>* (db w) (db w')"
    by (rule worker_update [OF inv])
      (use inv in \<open>auto simp: worker_ok_def resumed_def db_inv_def fleet_ok_def\<close>)
qed

text \<open>The three ways a registration succeeds.\<close>

lemma register_route_cases:
  assumes "register_route env c auth body w = Inr (x, w')"
  obtains (new) "worker_by_id (reg_worker_id body) (db w) = None"
      "db w' = log_system_event (tx_now w) ''worker_registered'' (Some (reg_worker_id body)) (JObj [])
        ((db w)\<lparr>workers := workers (db w)
           @ [new_worker body (sha256 env (reg_session_token body)) (tx_now w)]\<rparr>)"
  | (replay) v where "worker_by_id (reg_worker_id body) (db w) = Some v"
      "or_empty (w_session_hash v) = sha256 env (reg_session_token body)"
      "if w_state v = DEAD
       then db w' = log_system_event (tx_now w) ''worker_recovered'' (Some (reg_worker_id body)) (JObj [])
         (set_worker (reg_worker_id body) (\<lambda>v. v\<lparr>w_last_seen := clk w 0, w_state := resumed v\<rparr>) (db w))
       else db w' = db w"
  | (takeover) v where "worker_by_id (reg_worker_id body) (db w) = Some v" "w_state v = DEAD"
      "or_empty (w_session_hash v) \<noteq> sha256 env (reg_session_token body)"
      "db w' = log_system_event (tx_now w) ''worker_reregistered'' (Some (reg_worker_id body)) (JObj [])
        (set_worker (reg_worker_id body) (\<lambda>v. v\<lparr>w_session_hash := Some (sha256 env (reg_session_token body)),
           w_capacity := reg_capacity body, w_capabilities := reg_capabilities body,
           w_state := HEALTHY, w_last_seen := clk w 0, w_drain_requested := False\<rparr>) (db w))"
proof -
  have auth: "worker c auth w = Inr ((), w)"
    using assms by (auto simp: register_route_def Let_def tx_bind_Inr worker_def authorize_def
        tx_return_def tx_raise_def split: if_splits)
  have id: "w_id (new_worker body dig now) = reg_worker_id body" for dig now
    by (simp add: new_worker_def)
  show thesis
  proof (cases "worker_by_id (reg_worker_id body) (db w)")
    case None
    then have "reg_worker_id body \<notin> w_id ` set (workers (db w))"
      by (simp add: worker_by_id_def worker_table.lookup_None_iff)
    with None assms auth show ?thesis
      by (intro new) (auto simp: register_route_def Let_def tx_bind_def tx_get_def insert_worker_def id
          add_system_event_def tx_modify_def tx_return_def)
  next
    case (Some v)
    have "reg_worker_id body \<in> w_id ` set (workers (db w))"
      using worker_by_id_Some [OF Some] by (metis image_eqI)
    with Some assms auth have run: "(if or_empty (w_session_hash v) = sha256 env (reg_session_token body)
        then if w_state v = DEAD
          then db w' = log_system_event (tx_now w) ''worker_recovered'' (Some (reg_worker_id body)) (JObj [])
            (set_worker (reg_worker_id body) (\<lambda>v. v\<lparr>w_last_seen := clk w 0, w_state := resumed v\<rparr>) (db w))
          else db w' = db w
        else w_state v = DEAD
          \<and> db w' = log_system_event (tx_now w) ''worker_reregistered'' (Some (reg_worker_id body)) (JObj [])
        (set_worker (reg_worker_id body) (\<lambda>v. v\<lparr>w_session_hash := Some (sha256 env (reg_session_token body)),
           w_capacity := reg_capacity body, w_capabilities := reg_capabilities body,
           w_state := HEALTHY, w_last_seen := clk w 0, w_drain_requested := False\<rparr>) (db w)))"
      by (auto simp: register_route_def Let_def tx_bind_def tx_get_def insert_worker_def id
          add_system_event_def tx_modify_def tx_return_def tx_raise_def database_time_def
          next_clock_def update_worker_def split: if_splits)
    show ?thesis
    proof (cases "or_empty (w_session_hash v) = sha256 env (reg_session_token body)")
      case True
      with Some run show ?thesis by (intro replay [of v]) simp_all
    next
      case False
      with Some run show ?thesis by (intro takeover [of v]) simp_all
    qed
  qed
qed

lemma register_route_refines:
  assumes ok: "Registration_accepted body"
  shows "refines (register_route env c auth body)"
proof (rule refinesI)
  fix w x w'
  assume inv: "db_inv (db w)" and run: "register_route env c auth body w = Inr (x, w')"
  have caps: "reg_capabilities body \<noteq> []" "set (reg_capabilities body) \<subseteq> fst ` set REGISTRY"
    "1 \<le> reg_capacity body" "reg_capacity body \<le> 32"
    using ok by (auto simp: Registration_accepted_def known_capabilities_def split: if_splits)
  from run show "db_step\<^sup>*\<^sup>* (db w) (db w')"
  proof (cases rule: register_route_cases)
    case new
    let ?v = "new_worker body (sha256 env (reg_session_token body)) (tx_now w)"
    have fresh: "w_id ?v \<notin> w_id ` set (workers (db w))"
      using new(1) by (simp add: worker_by_id_def worker_table.lookup_None_iff new_worker_def)
    have ok: "worker_ok ?v" using caps by (simp add: worker_ok_def new_worker_def)
    have "db w' = (db w)\<lparr>workers := workers (db w) @ [?v], system_events := system_events (db w')\<rparr>"
      using new(2) by (simp add: log_system_event_def)
    then show ?thesis
      by (rule worker_change)
        (use inv_keys(4) [OF inv] fresh ok inv in \<open>auto simp: db_inv_def fleet_ok_def\<close>)
  next
    case (replay v)
    show ?thesis
    proof (cases "w_state v = DEAD")
      case True
      with replay have "db w' = (db w)\<lparr>workers := set_row w_id (reg_worker_id body)
          (\<lambda>v. v\<lparr>w_last_seen := clk w 0, w_state := resumed v\<rparr>) (workers (db w)),
          system_events := system_events (db w')\<rparr>"
        by (simp add: log_system_event_def set_worker_def)
      then show ?thesis
        by (rule worker_update [OF inv])
          (use inv in \<open>auto simp: worker_ok_def resumed_def db_inv_def fleet_ok_def\<close>)
    qed (use replay in simp)
  next
    case (takeover v)
    then have "db w' = (db w)\<lparr>workers := set_row w_id (reg_worker_id body)
        (\<lambda>v. v\<lparr>w_session_hash := Some (sha256 env (reg_session_token body)),
           w_capacity := reg_capacity body, w_capabilities := reg_capabilities body,
           w_state := HEALTHY, w_last_seen := clk w 0, w_drain_requested := False\<rparr>) (workers (db w)),
        system_events := system_events (db w')\<rparr>"
      by (simp add: log_system_event_def set_worker_def)
    then show ?thesis
      by (rule worker_update [OF inv]) (use caps in \<open>auto simp: worker_ok_def\<close>)
  qed
qed

text \<open>The row of a silent worker after the sweep: a draining worker is not made suspect.\<close>

definition judged :: "seconds \<Rightarrow> timestamp \<Rightarrow> worker_row \<Rightarrow> worker_row" where
  "judged dead_after t v =
     v\<lparr>w_state := if w_state v = DRAINING \<and> verdict dead_after t v = SUSPECT then DRAINING
        else verdict dead_after t v\<rparr>"

text \<open>Judging a silent worker changes at most its own row.\<close>

lemma judge_worker_step:
  assumes inv: "db_inv (db w)" and v: "v \<in> set (workers (db w))" "w_state v \<noteq> DEAD"
  obtains w' where "judge_worker dead_after t v w = Inr ((), w')" "db_step\<^sup>*\<^sup>* (db w) (db w')"
    "set (workers (db w')) = insert (judged dead_after t v) (set (workers (db w)) - {v})"
proof (cases "w_state v = DRAINING \<and> verdict dead_after t v = SUSPECT
    \<or> w_state v = verdict dead_after t v")
  case True
  then have "judge_worker dead_after t v w = Inr ((), w)"
    by (auto simp: judge_worker_def Let_def tx_return_def)
  moreover have "judged dead_after t v = v"
    using True by (cases v) (auto simp: judged_def)
  ultimately show thesis using v(1) by (intro that [of w]) auto
next
  case False
  let ?f = "\<lambda>r. r\<lparr>w_state := verdict dead_after t v\<rparr>"
  define w' where "w' = w\<lparr>db := log_system_event (tx_now w)
     (''worker_'' @ map lower_char (worker_state_name (verdict dead_after t v))) (Some (w_id v)) (JObj [])
     (set_worker (w_id v) ?f (db w))\<rparr>"
  have run: "judge_worker dead_after t v w = Inr ((), w')"
    using False by (auto simp: judge_worker_def Let_def tx_bind_def update_worker_def tx_modify_def
        add_system_event_def w'_def)
  have "db w' = (db w)\<lparr>workers := set_row w_id (w_id v) ?f (workers (db w)),
      system_events := system_events (db w')\<rparr>"
    by (simp add: w'_def set_worker_def log_system_event_def)
  moreover have "worker_ok (?f u)" if "u \<in> set (workers (db w))" "w_id u = w_id v" for u
  proof -
    have "u = v" using that v inv_keys(4) [OF inv] by (auto simp: distinct_map dest: inj_onD)
    moreover have "worker_ok v" using inv v by (simp add: db_inv_def fleet_ok_def)
    ultimately show ?thesis
      using False v(2) by (auto simp: worker_ok_def verdict_def split: if_splits)
  qed
  ultimately have "db_step\<^sup>*\<^sup>* (db w) (db w')"
    by (intro worker_update [OF inv, where i = "w_id v" and f = ?f]) auto
  moreover have "set (workers (db w')) = insert (?f v) (set (workers (db w)) - {v})"
    using worker_table.update_set [OF inv_keys(4) [OF inv] v(1)] by (simp add: w'_def row_simps)
  moreover have "judged dead_after t v = ?f v" using False by (auto simp: judged_def)
  ultimately show thesis using run by (intro that [of w']) auto
qed

lemma detect_loop:
  assumes "db_inv (db w)" and "distinct (map w_id vs)"
    and "\<forall>v \<in> set vs. v \<in> set (workers (db w)) \<and> w_state v \<noteq> DEAD"
  shows "\<exists>w'. tx_for vs (judge_worker dead_after t) w = Inr ((), w') \<and> db_step\<^sup>*\<^sup>* (db w) (db w')
    \<and> (\<forall>v \<in> set (workers (db w')). (v \<in> set (workers (db w)) \<and> v \<notin> set vs)
        \<or> (\<exists>u \<in> set vs. v = judged dead_after t u))"
  using assms
proof (induction vs arbitrary: w)
  case Nil
  then show ?case by (auto simp: tx_return_def)
next
  case (Cons v vs)
  let ?new = "judged dead_after t"
  obtain w1 where w1: "judge_worker dead_after t v w = Inr ((), w1)" "db_step\<^sup>*\<^sup>* (db w) (db w1)"
    "set (workers (db w1)) = insert (?new v) (set (workers (db w)) - {v})"
    using judge_worker_step [OF Cons.prems(1), of v dead_after t] Cons.prems(3) by auto
  have inv1: "db_inv (db w1)" by (rule lifecycle.run_inv [OF w1(2) Cons.prems(1)])
  have "\<forall>u \<in> set vs. u \<in> set (workers (db w1)) \<and> w_state u \<noteq> DEAD"
    using Cons.prems(2,3) w1(3) by auto
  from Cons.IH [OF inv1 _ this] Cons.prems(2) obtain w2 where
    w2: "tx_for vs (judge_worker dead_after t) w1 = Inr ((), w2)" "db_step\<^sup>*\<^sup>* (db w1) (db w2)"
    and rows: "\<forall>u \<in> set (workers (db w2)). (u \<in> set (workers (db w1)) \<and> u \<notin> set vs)
        \<or> (\<exists>x \<in> set vs. u = ?new x)" by auto
  have "tx_for (v # vs) (judge_worker dead_after t) w = Inr ((), w2)"
    using w1(1) w2(1) by (simp add: tx_bind_def)
  moreover have "db_step\<^sup>*\<^sup>* (db w) (db w2)" using w1(2) w2(2) by simp
  moreover have "(u \<in> set (workers (db w)) \<and> u \<notin> set (v # vs)) \<or> (\<exists>x \<in> set (v # vs). u = ?new x)"
    if "u \<in> set (workers (db w2))" for u
    using rows that w1(3) by auto
  ultimately show ?case by blast
qed

lemma detect_workers_returns:
  assumes inv: "db_inv (db w)" and scan: "scan_ok w"
  obtains w' where "detect_workers suspect_after dead_after w = Inr ((), w')"
    "db_step\<^sup>*\<^sup>* (db w) (db w')"
    "\<forall>v \<in> set (workers (db w')).
       (v \<in> set (workers (db w)) \<and> v \<notin> set (silent_workers suspect_after (clk w 0) w))
        \<or> (\<exists>u \<in> set (silent_workers suspect_after (clk w 0) w). v = judged dead_after (clk w 0) u)"
proof -
  let ?vs = "silent_workers suspect_after (clk w 0) w"
  let ?rows = "filter (\<lambda>v. w_state v \<noteq> DEAD \<and> w_last_seen v < clk w 0 - timedelta suspect_after)
    (workers (db w))"
  have "distinct (map w_id (worker_scan w ?rows))"
    by (rule scan_distinct [of _ ?rows])
      (use scan inv_keys(4) [OF inv] in \<open>simp_all add: scan_ok_def distinct_map_filter\<close>)
  then have dist: "distinct (map w_id ?vs)" by (simp add: silent_workers_def distinct_map_filter)
  have rows: "\<forall>v \<in> set ?vs. v \<in> set (workers (db (tick w))) \<and> w_state v \<noteq> DEAD"
    using scan by (auto simp: silent_workers_def scan_ok_def)
  have "silent_workers suspect_after (clk w 0) (tick w) = ?vs" by (simp add: silent_workers_def)
  then have run: "detect_workers suspect_after dead_after w
      = tx_for ?vs (judge_worker dead_after (clk w 0)) (tick w)"
    by (simp add: detect_workers_def tx_bind_def tx_get_def database_time_def next_clock_def)
  from detect_loop [OF _ dist rows, of dead_after "clk w 0"] inv show thesis
    unfolding run [symmetric] by (auto intro: that)
qed

end
