(* ===== verification/System.thy ===== *)
theory System
  imports Api
begin

text \<open>
  The coordinator as a whole: every request and every maintenance transaction, run one after
  another on the tables, in any order, with any clock, any locked rows and any failures, and
  the databases such runs reach from the empty one.
\<close>

section \<open>Transactions of the coordinator\<close>

datatype request =
    SubmitReq "string option" submission
  | CancelReq "string option" uuid
  | DrainReq "string option" string
  | RegisterReq "string option" registration
  | HeartbeatReq "string option" string "string option"
  | ClaimReq "string option" claim_body "string option"
  | StartReq "string option" uuid assignment_body "string option"
  | RenewReq "string option" uuid assignment_body "string option"
  | FinishReq "string option" uuid completion "string option"
  | RecoverTx
  | DetectTx

text \<open>The bodies that reach a route are those the request models accept.\<close>

fun accepted :: "env \<Rightarrow> request \<Rightarrow> bool" where
  "accepted env (SubmitReq auth body) = Submit_accepted env body"
| "accepted env (CancelReq auth jid) = True"
| "accepted env (DrainReq auth wid) = Identity_fields wid"
| "accepted env (RegisterReq auth body) = Registration_accepted body"
| "accepted env (HeartbeatReq auth wid cred) = Identity_fields wid"
| "accepted env (ClaimReq auth body cred) = Claim_accepted body"
| "accepted env (StartReq auth jid body cred) = Assignment_accepted body"
| "accepted env (RenewReq auth jid body cred) = Assignment_accepted body"
| "accepted env (FinishReq auth jid body cred) = Completion_accepted env body"
| "accepted env RecoverTx = True"
| "accepted env DetectTx = True"

definition effect :: "'a dbtx \<Rightarrow> unit dbtx" where
  "effect m = tx_bind m (\<lambda>_. tx_return ())"

fun transact :: "env \<Rightarrow> settings \<Rightarrow> request \<Rightarrow> unit dbtx" where
  "transact env c (SubmitReq auth body) = effect (submit_route env c auth body)"
| "transact env c (CancelReq auth jid) = effect (cancel_route c auth jid)"
| "transact env c (DrainReq auth wid) = effect (drain_route c auth wid)"
| "transact env c (RegisterReq auth body) = effect (register_route env c auth body)"
| "transact env c (HeartbeatReq auth wid cred) = effect (heartbeat_route env c auth wid cred)"
| "transact env c (ClaimReq auth body cred) = effect (claim_route env c auth body cred)"
| "transact env c (StartReq auth jid body cred) = effect (start_route env c auth jid body cred)"
| "transact env c (RenewReq auth jid body cred) = effect (renew_route env c auth jid body cred)"
| "transact env c (FinishReq auth jid body cred) = effect (finish_route env c auth jid body cred)"
| "transact env c RecoverTx = effect (recover_jobs 100)"
| "transact env c DetectTx = detect_workers (cfg_suspect_after c) (cfg_dead_after c)"

inductive coordinator_step :: "env \<Rightarrow> settings \<Rightarrow> database \<Rightarrow> database \<Rightarrow> bool"
  for env :: env and c :: settings where
  transaction: "\<lbrakk> accepted env r; scan_ok w; run_tx (transact env c r) w = (res, w') \<rbrakk>
    \<Longrightarrow> coordinator_step env c (db w) (db w')"

inductive_cases coordinator_stepE: "coordinator_step env c d d'"

definition reachable :: "env \<Rightarrow> settings \<Rightarrow> database \<Rightarrow> bool" where
  "reachable env c d \<longleftrightarrow> (coordinator_step env c)\<^sup>*\<^sup>* empty_db d"

section \<open>Every transaction refines the lifecycle\<close>

lemma refines_effect: "refines m \<Longrightarrow> refines (effect m)"
  unfolding effect_def by (intro refines_bind refines_return)

lemmas refines_intros = refines_bind refines_get refines_return refines_raise refines_authorize
  refines_identity refines_effect

lemma submit_route_refines:
  assumes "Submit_accepted env body"
  shows "refines (submit_route env c auth body)"
proof -
  let ?admit = "admit env body (cfg_queue_limit c) (cfg_submissions_per_minute c)"
  have "refines (\<lambda>w. case ?admit w of
      Inl e \<Rightarrow> if is_value_error e then Inl (HTTPException 422 (Errors (unprocessable e))) else Inl e
    | Inr r \<Rightarrow> Inr r)"
    by (rule refines_rethrow [OF admit_refines [OF max_retries_accepted [OF assms]]])
      (auto split: sum.splits if_splits)
  then show ?thesis
    unfolding submit_route_def by (intro refines_intros) (auto intro!: refines_intros)
qed

lemma claim_route_refines: "refines (claim_route env c auth body cred)"
proof -
  let ?claim = "claim (cl_worker_id body) (cl_slot body) (Some (cl_claim_id body)) (cfg_scheduler c)
    (cfg_lease_seconds c)"
  have "refines (\<lambda>w. case ?claim w of
      Inl (Invalid msg field) \<Rightarrow> Inl (HTTPException 422 (Errors (unprocessable (Invalid msg field))))
    | Inl e \<Rightarrow> Inl e | Inr r \<Rightarrow> Inr r)"
    by (rule refines_rethrow [OF claim_refines]) (auto split: sum.splits exn.splits)
  then show ?thesis
    unfolding claim_route_def
    by (intro refines_intros) (auto intro!: refines_intros split: option.splits)
qed

lemma job_route_refines:
  "refines (cancel_route c auth jid)" "refines (start_route env c auth jid abody cred)"
  "refines (renew_route env c auth jid abody cred)" "refines (finish_route env c auth jid cbody cred)"
  unfolding cancel_route_def start_route_def renew_route_def finish_route_def
  by (intro refines_intros cancel_refines start_refines renew_refines finish_refines)+

lemma transact_run:
  assumes ok: "accepted env r" "scan_ok w" and inv: "db_inv (db w)"
    and run: "run_tx (transact env c r) w = (res, w')"
  shows "db_step\<^sup>*\<^sup>* (db w) (db w')"
proof (cases "r = DetectTx")
  case True
  obtain w1 where "detect_workers (cfg_suspect_after c) (cfg_dead_after c) w = Inr ((), w1)"
    and "db_step\<^sup>*\<^sup>* (db w) (db w1)"
    by (rule detect_workers_returns [OF inv ok(2)])
  with run True show ?thesis by (simp add: run_tx_def)
next
  case False
  have "refines (transact env c r)"
    using ok(1) False
    by (cases r) (auto intro!: refines_effect submit_route_refines claim_route_refines job_route_refines
        drain_route_refines register_route_refines heartbeat_route_refines recover_jobs_refines)
  from refines_commit [OF this inv run] show ?thesis .
qed

lemma coordinator_refines:
  assumes "db_inv d" and "coordinator_step env c d d'"
  shows "db_step\<^sup>*\<^sup>* d d'"
  using assms(2,1) by cases (auto intro: transact_run)

interpretation coordinator: invariant_system "coordinator_step env c" db_inv for env c
  by unfold_locales (blast intro: coordinator_refines lifecycle.run_inv)

lemma reachable_run:
  assumes "db_inv d" and "(coordinator_step env c)\<^sup>*\<^sup>* d d'"
  shows "db_step\<^sup>*\<^sup>* d d'"
  using assms(2)
proof induction
  case (step d1 d2)
  have "db_inv d1" by (rule coordinator.run_inv [OF step(1) assms(1)])
  with step show ?case by (auto dest: coordinator_refines)
qed simp

lemma reachable_db_inv: "reachable env c d \<Longrightarrow> db_inv d"
  unfolding reachable_def using coordinator.run_inv empty_db_inv by blast

end
