(* ===== verification/Scenario.thy ===== *)
theory Scenario
  imports System
begin

text \<open>
  A concrete run of the coordinator (register, submit, claim, start), evaluated step by step. The
  properties are instantiated on it to show that their hypotheses can be met.
\<close>

definition demo_settings :: settings where
  "demo_settings =
     \<lparr>ws_worker_token = ''worker-token-0001'', ws_coordinator_url = ''http://127.0.0.1:8810'',
      ws_worker_id = [], ws_poll_interval = 1 / 5, ws_capacity = 2,
      ws_capabilities = [''sleep'', ''calculate_pi'', ''hash_text'', ''flaky''],
      ws_executor = ''subprocess'', cfg_database_url = ''postgresql://localhost/greyqueue'',
      cfg_client_token = ''client-token-0001'', cfg_scheduler = ''priority'',
      cfg_heartbeat_interval = 2, cfg_suspect_after = 6, cfg_dead_after = 12,
      cfg_lease_seconds = 10, cfg_maintenance_interval = 1 / 2, cfg_queue_limit = 10000,
      cfg_submissions_per_minute = 20000, cfg_require_tls = False,
      cfg_allowed_hosts = [''127.0.0.1'', ''localhost'', ''coordinator'']\<rparr>"

text \<open>A world at time \<open>t\<close> (one microsecond per clock reading) whose fresh UUIDs start at \<open>u\<close>.\<close>

definition demo_world :: "database \<Rightarrow> timestamp \<Rightarrow> uuid \<Rightarrow> world" where
  "demo_world d t u =
     \<lparr>db = d, clk = (\<lambda>n. t + int n), uuids = (\<lambda>n. u + n), randoms = (\<lambda>n. 1 / 2), tx_now = t,
      locked_jobs = [], locked_workers = [], recovery_lock_taken = False,
      row_scan = (\<lambda>rs. rs), worker_scan = (\<lambda>vs. vs)\<rparr>"

definition demo_client :: "string option" where
  "demo_client = Some ''Bearer client-token-0001''"

definition demo_worker :: "string option" where
  "demo_worker = Some ''Bearer worker-token-0001''"

definition demo_session :: string where
  "demo_session = ''0123456789abcdef0123456789abcdef''"

definition demo_registration :: registration where
  "demo_registration = \<lparr>reg_worker_id = ''w1'', reg_capacity = 2, reg_capabilities = [''flaky''],
     reg_session_token = demo_session\<rparr>"

definition demo_submission :: submission where
  "demo_submission =
     \<lparr>sub_task = ''flaky'', sub_args = JObj [(''failures'', JInt 0)], sub_priority = 0,
      sub_timeout = 15, sub_max_retries = 1, sub_retry_delay = 1, sub_retry_jitter = True,
      sub_idempotency_key = Some ''k1'', sub_metadata = Some (JObj []), sub_scheduled_at = None,
      sub_depends_on = None\<rparr>"

definition demo_worker_row :: worker_row where
  "demo_worker_row = \<lparr>w_id = ''w1'', w_state = HEALTHY, w_capacity = 2, w_capabilities = [''flaky''],
     w_session_hash = Some demo_session, w_drain_requested = False, w_registered_at = 1000,
     w_last_seen = 1000\<rparr>"

lemma demo_scan: "scan_ok (demo_world d t u)"
  by (simp add: scan_ok_def demo_world_def)

lemma demo_world_simps [simp]:
  "db (demo_world d t u) = d" "clk (demo_world d t u) n = t + int n" "uuids (demo_world d t u) n = u + n"
  "randoms (demo_world d t u) n = 1 / 2" "tx_now (demo_world d t u) = t"
  "locked_jobs (demo_world d t u) = []" "locked_workers (demo_world d t u) = []"
  "recovery_lock_taken (demo_world d t u) = False" "row_scan (demo_world d t u) rs = rs"
  "worker_scan (demo_world d t u) vs = vs"
  by (simp_all add: demo_world_def)

lemma demo_clock: "mono (clk (demo_world d t u))"
  by (auto simp: mono_def)

section \<open>A registered worker\<close>

definition demo_registered :: database where
  "demo_registered = \<lparr>workers = [demo_worker_row], jobs = [], attempts = [], results = [], events = [],
     system_events = [\<lparr>se_id = 1, se_kind = ''worker_registered'', se_worker_id = Some ''w1'',
       se_detail = JObj [], se_created_at = 1000\<rparr>]\<rparr>"

lemma demo_registration_ok: "Registration_accepted demo_registration"
  by (simp add: Registration_accepted_def demo_registration_def demo_session_def Identity_fields_def
      WORKER_ID_def id_char_def known_capabilities_def REGISTRY_def Let_def)

lemma demo_register:
  "register_route demo_env demo_settings demo_worker demo_registration (demo_world empty_db 1000 50)
     = Inr (\<lparr>ro_worker_id = ''w1'', ro_lease_seconds = 10, ro_heartbeat_interval = 2\<rparr>,
         (demo_world empty_db 1000 50)\<lparr>db := demo_registered\<rparr>)"
  by (simp add: register_route_def worker_def authorize_def demo_worker_def demo_settings_def tx_eval Let_def
      insert_worker_def new_worker_def demo_registration_def demo_env_def empty_db_def
      log_system_event_def demo_registered_def demo_worker_row_def)

lemma demo_registered_reachable: "reachable demo_env demo_settings demo_registered"
proof -
  have "run_tx (transact demo_env demo_settings (RegisterReq demo_worker demo_registration))
      (demo_world empty_db 1000 50) = (Inr (), (demo_world empty_db 1000 50)\<lparr>db := demo_registered\<rparr>)"
    by (simp add: run_tx_def effect_def tx_bind_def demo_register tx_return_def)
  from coordinator_step.transaction [OF _ demo_scan this]
  have "coordinator_step demo_env demo_settings empty_db demo_registered"
    by (simp add: demo_registration_ok)
  then show ?thesis unfolding reachable_def by auto
qed

section \<open>A job from submission to success\<close>

definition demo_args :: json where
  "demo_args = JObj [(''failures'', JInt 0)]"

definition demo_digest :: string where
  "demo_digest = the (request_digest demo_env demo_submission demo_args)"

definition demo_job :: "job_status \<Rightarrow> int \<Rightarrow> timestamp \<Rightarrow> job_row" where
  "demo_job status count updated =
     \<lparr>j_id = 10, j_priority = 0, j_timeout = 15, j_max_retries = 1, j_retry_delay = 1,
      j_retry_jitter = True, j_attempt_count = count, j_idempotency_key = Some ''k1'',
      j_request_hash = Some demo_digest, j_metadata_json = JObj [], j_available_at = 2000,
      j_depends_on = None, j_task = ''flaky'', j_args = demo_args, j_status = status,
      j_created_at = 2000, j_updated_at = updated\<rparr>"

definition demo_attempt :: attempt_row where
  "demo_attempt =
     \<lparr>a_id = 20, a_job_id = 10, a_worker_id = ''w1'', a_created_at = 3000, a_slot = 0,
      a_claim_id = 77, a_fence = 1, a_expires_at = 10003000, a_outcome = None, a_output = None,
      a_error = None, a_started_at = None, a_finished_at = None\<rparr>"

definition demo_event :: "int \<Rightarrow> event_state \<Rightarrow> timestamp \<Rightarrow> event_row" where
  "demo_event i s t = \<lparr>e_id = i, e_job_id = 10, e_state = s, e_created_at = t\<rparr>"

definition demo_output :: json where
  "demo_output = JObj [(''attempt'', JInt 1)]"

definition demo_queued :: database where
  "demo_queued = demo_registered\<lparr>jobs := [demo_job QUEUED 0 2000],
     events := [demo_event 1 SUBMITTED 2000, demo_event 2 (Entered QUEUED) 2000]\<rparr>"

definition demo_leased :: database where
  "demo_leased = demo_queued\<lparr>jobs := [demo_job LEASED 1 3001], attempts := [demo_attempt],
     events := events demo_queued @ [demo_event 3 (Entered LEASED) 3000]\<rparr>"

definition demo_running :: database where
  "demo_running = demo_leased\<lparr>jobs := [demo_job RUNNING 1 4002],
     attempts := [demo_attempt\<lparr>a_started_at := Some 4001\<rparr>],
     events := events demo_leased @ [demo_event 4 (Entered RUNNING) 4000]\<rparr>"

definition demo_done :: database where
  "demo_done = demo_running\<lparr>jobs := [demo_job SUCCEEDED 1 5003],
     attempts := [demo_attempt\<lparr>a_started_at := Some 4001, a_output := Some demo_output,
       a_outcome := Some OutSucceeded, a_finished_at := Some 5002\<rparr>],
     results := [\<lparr>r_job_id = 10, r_output = Some demo_output, r_error = None\<rparr>],
     events := events demo_running @ [demo_event 5 (Entered SUCCEEDED) 5000]\<rparr>"

lemmas demo_dbs = demo_done_def demo_running_def demo_leased_def demo_queued_def demo_registered_def

lemmas demo_rows = demo_job_def demo_attempt_def demo_event_def demo_worker_row_def

lemma demo_args_ok: "admit_args demo_env ''flaky'' demo_args = Inr demo_args"
  by (simp add: admit_args_def validate_def REGISTRY_def demo_env_def args_defs in_range_def demo_args_def)

lemma demo_digest_ok: "request_digest demo_env demo_submission demo_args = Some demo_digest"
proof -
  have "request_digest demo_env demo_submission demo_args \<noteq> None"
    by (simp add: request_digest_def request_definition_def demo_submission_def demo_args_def
        metadata_or_empty_def)
  then show ?thesis by (simp add: demo_digest_def)
qed

lemma demo_submit:
  "admit demo_env demo_submission 10000 20000 (demo_world demo_registered 2000 10)
     = Inr ((demo_job QUEUED 0 2000, True), (tick (demo_world demo_registered 2000 10))
         \<lparr>uuids := (\<lambda>n. 10 + Suc n), db := demo_queued\<rparr>)"
proof -
  have "sub_task demo_submission = ''flaky''" "sub_args demo_submission = demo_args"
    "sub_depends_on demo_submission = None" "sub_idempotency_key demo_submission = Some ''k1''"
    by (simp_all add: demo_submission_def demo_args_def)
  then show ?thesis
    unfolding admit_iff using demo_args_ok demo_digest_ok
    by (simp add: job_for_key_def admitted_active_def recent_submissions_def check_parent_iff
        insert_job_iff admitted_def log_event_def new_job_def metadata_or_empty_def demo_dbs demo_rows
        demo_submission_def)
qed

definition demo_claim_body :: claim_body where
  "demo_claim_body = \<lparr>cl_worker_id = ''w1'', cl_slot = 0, cl_claim_id = 77\<rparr>"

lemma demo_claim:
  "claim ''w1'' 0 (Some 77) ''priority'' 10 (demo_world demo_queued 3000 20)
     = Inr (Some (demo_job LEASED 1 3001, demo_attempt), (tick (tick (demo_world demo_queued 3000 20)))
         \<lparr>uuids := (\<lambda>n. 20 + Suc n), db := demo_leased\<rparr>)"
  by (simp add: claim_def lease_job_def tx_eval worker_by_id_def find_row_def attempt_by_claim_def
      slot_attempt_def scheduler_def PriorityScheduler_query_def FIFOScheduler_query_def eligible_def
      first_unlocked_def Let_def new_attempt_def insert_attempt_def active_attempt_def transition_eval
      moved_def job_by_id_def set_job_def set_row_def log_event_def demo_dbs demo_rows)
    (simp add: tick_def)

lemma demo_start:
  "start 10 ''w1'' 20 (demo_world demo_leased 4000 30)
     = Inr ((), (tick (tick (tick (demo_world demo_leased 4000 30))))\<lparr>db := demo_running\<rparr>)"
  by (simp add: start_def owned_def tx_eval transition_eval moved_def job_by_id_def attempt_by_id_def
      find_row_def set_job_def set_attempt_def set_row_def log_event_def demo_dbs demo_rows)

lemma demo_finish:
  "finish 10 ''w1'' 20 (Some demo_output) None False (demo_world demo_running 5000 40)
     = Inr ((), (tick (tick (tick (tick (demo_world demo_running 5000 40)))))\<lparr>db := demo_done\<rparr>)"
  by (simp add: finish_def owned_def tx_eval transition_eval moved_def job_by_id_def attempt_by_id_def
      find_row_def set_job_def set_attempt_def set_row_def log_event_def insert_result_def Let_def
      demo_dbs demo_rows)

section \<open>The scenario is a run of the coordinator\<close>

lemma demo_auth:
  "client demo_settings demo_client w = Inr ((), w)" "worker demo_settings demo_worker w = Inr ((), w)"
  by (simp_all add: client_def worker_def authorize_def demo_client_def demo_worker_def
      demo_settings_def tx_return_def)

lemma demo_identity:
  assumes "workers (db w) = [demo_worker_row]"
  shows "identity demo_env ''w1'' (Some demo_session) w = Inr (demo_worker_row, w)"
  using assms by (simp add: identity_iff worker_by_id_def find_row_def demo_worker_row_def or_empty_def
      demo_env_def demo_session_def)

lemma demo_step:
  assumes "reachable demo_env demo_settings d" and "accepted demo_env r"
    and "transact demo_env demo_settings r (demo_world d t u) = Inr ((), w')"
  shows "reachable demo_env demo_settings (db w')"
proof -
  have "run_tx (transact demo_env demo_settings r) (demo_world d t u) = (Inr (), w')"
    using assms(3) by (simp add: run_tx_def)
  from coordinator_step.transaction [OF assms(2) demo_scan this]
  have "coordinator_step demo_env demo_settings d (db w')" by simp
  with assms(1) show ?thesis unfolding reachable_def by (rule rtranclp.rtrancl_into_rtrancl)
qed

lemma demo_submission_ok: "Submit_accepted demo_env demo_submission"
  by (simp add: Submit_accepted_def Submit_fields_def bounded_metadata_def demo_submission_def
      storable_def metadata_or_empty_def opt_str_def METADATA_LIMIT_def TEXT_LIMIT_def demo_env_def
      encoded_member_def quoted_def escape_char_def int_text_def nat_text.simps digit_char_def
      nul_escape_def sublist_code)

lemma demo_identity_ok: "Identity_fields ''w1''"
  by (simp add: Identity_fields_def WORKER_ID_def id_char_def Let_def)

lemma demo_settings_fields:
  "cfg_queue_limit demo_settings = 10000" "cfg_submissions_per_minute demo_settings = 20000"
  "cfg_scheduler demo_settings = ''priority''" "cfg_lease_seconds demo_settings = 10"
  by (simp_all add: demo_settings_def)

lemma demo_queued_reachable: "reachable demo_env demo_settings demo_queued"
proof -
  have "transact demo_env demo_settings (SubmitReq demo_client demo_submission)
      (demo_world demo_registered 2000 10) = Inr ((), (tick (demo_world demo_registered 2000 10))
         \<lparr>uuids := (\<lambda>n. 10 + Suc n), db := demo_queued\<rparr>)"
    using demo_submit
    by (simp add: effect_def submit_route_def tx_bind_def demo_auth tx_get_def tx_return_def
        demo_settings_fields)
  from demo_step [OF demo_registered_reachable _ this] show ?thesis by (simp add: demo_submission_ok)
qed

lemma demo_leased_reachable: "reachable demo_env demo_settings demo_leased"
proof -
  have "workers demo_queued = [demo_worker_row]" by (simp add: demo_dbs)
  then have "transact demo_env demo_settings (ClaimReq demo_worker demo_claim_body (Some demo_session))
      (demo_world demo_queued 3000 20) = Inr ((), (tick (tick (demo_world demo_queued 3000 20)))
         \<lparr>uuids := (\<lambda>n. 20 + Suc n), db := demo_leased\<rparr>)"
    using demo_claim
    by (simp add: effect_def claim_route_def tx_bind_def demo_auth demo_identity tx_get_def tx_return_def
        demo_claim_body_def demo_settings_fields)
  from demo_step [OF demo_queued_reachable _ this] show ?thesis
    by (simp add: Claim_accepted_def demo_claim_body_def demo_identity_ok)
qed

lemma demo_running_reachable: "reachable demo_env demo_settings demo_running"
proof -
  have "workers demo_leased = [demo_worker_row]" by (simp add: demo_dbs)
  then have "transact demo_env demo_settings
      (StartReq demo_worker 10 \<lparr>as_worker_id = ''w1'', as_token = 20\<rparr> (Some demo_session))
      (demo_world demo_leased 4000 30)
      = Inr ((), (tick (tick (tick (demo_world demo_leased 4000 30))))\<lparr>db := demo_running\<rparr>)"
    using demo_start
    by (simp add: effect_def start_route_def tx_bind_def demo_auth demo_identity tx_return_def)
  from demo_step [OF demo_leased_reachable _ this] show ?thesis
    by (simp add: Assignment_accepted_def demo_identity_ok)
qed

definition demo_completion :: completion where
  "demo_completion = \<lparr>as_worker_id = ''w1'', as_token = 20, co_output = Some demo_output,
     co_error = None, co_retryable = False\<rparr>"

lemma demo_completion_ok: "Completion_accepted demo_env demo_completion"
  by (simp add: Completion_accepted_def demo_identity_ok demo_completion_def demo_output_def
      result_shape_def storable_def opt_json_def opt_str_def OUTPUT_LIMIT_def TEXT_LIMIT_def
      demo_env_def encoded_member_def quoted_def escape_char_def int_text_def nat_text.simps
      digit_char_def nul_escape_def sublist_code)

lemma demo_done_reachable: "reachable demo_env demo_settings demo_done"
proof -
  have "workers demo_running = [demo_worker_row]" by (simp add: demo_dbs)
  then have "transact demo_env demo_settings
      (FinishReq demo_worker 10 demo_completion (Some demo_session)) (demo_world demo_running 5000 40)
      = Inr ((), (tick (tick (tick (tick (demo_world demo_running 5000 40)))))\<lparr>db := demo_done\<rparr>)"
    using demo_finish
    by (simp add: effect_def finish_route_def tx_bind_def demo_auth demo_identity tx_return_def
        demo_completion_def)
  from demo_step [OF demo_running_reachable _ this] show ?thesis by (simp add: demo_completion_ok)
qed

lemmas demo_inv = demo_queued_reachable [THEN reachable_db_inv]
  demo_leased_reachable [THEN reachable_db_inv] demo_running_reachable [THEN reachable_db_inv]
  demo_done_reachable [THEN reachable_db_inv]

end
