(* ===== verification/Guarantees.thy ===== *)
theory Guarantees
  imports Scenario
begin

text \<open>
  What the queue promises of every database its coordinators can reach, and of every run: the
  meaning of the invariant for jobs, attempts, results and events, stated over
  \<open>reachable\<close> and \<open>coordinator_step\<close>.
\<close>

section \<open>Shared lemmas\<close>

lemma reachable_extend:
  assumes "reachable env c d" and "(coordinator_step env c)\<^sup>*\<^sup>* d d'"
  shows "db_inv d" "db_inv d'" "db_step\<^sup>*\<^sup>* d d'"
  using assms reachable_db_inv [OF assms(1)] reachable_run coordinator.run_inv by blast+

lemma inv_parts:
  assumes "db_inv d"
  shows "keys_ok d" "refs_ok d" "forest_ok d" "fences_ok d" "owner_ok d" "slots_ok d" "results_ok d"
    "budget_ok d" "deps_ok d" "history_ok d" "fleet_ok d"
  using assms by (simp_all add: db_inv_def)

lemma inv_lease:
  assumes "db_inv d" and "j \<in> set (jobs d)" and "a \<in> set (attempts d)" and "a_job_id a = j_id j"
  shows "lease_ok j a"
  using inv_parts(5) [OF assms(1)] assms(2-4) unfolding owner_ok_def by blast

lemma inv_count:
  assumes "db_inv d" and "j \<in> set (jobs d)" and "j_status j \<in> {LEASED, RUNNING}"
  shows "1 \<le> j_attempt_count j"
  using inv_parts(5) [OF assms(1)] assms(2,3) unfolding owner_ok_def by blast

lemma inv_attempt_job:
  assumes "db_inv d" and "a \<in> set (attempts d)"
  obtains j where "j \<in> set (jobs d)" "j_id j = a_job_id a" "lease_ok j a"
proof -
  from assms obtain j where "j \<in> set (jobs d)" "j_id j = a_job_id a"
    unfolding db_inv_def refs_ok_def by (metis imageE)
  with inv_lease [OF assms(1) _ assms(2)] show thesis by (intro that [of j]) metis+
qed

lemma result_by_job_Some: "result_by_job i d = Some r \<Longrightarrow> r \<in> set (results d) \<and> r_job_id r = i"
  unfolding result_by_job_def by (rule result_table.lookup_Some)

lemma result_unique:
  assumes "keys_ok d" and "r \<in> set (results d)"
  shows "result_by_job (r_job_id r) d = Some r"
  using assms by (simp add: result_by_job_def keys_ok_def result_table.lookup_unique)

section \<open>Properties\<close>

text \<open>
  C1: every database the coordinators reach from the empty one, by any sequence of client
  requests, worker requests and maintenance sweeps, satisfies the invariant \<open>db_inv\<close>: keys and
  references, dependency order, consecutive fences, ownership, slots, results, retry budget,
  dependencies, event history and fleet.
\<close>

theorem reachable_invariant:
  assumes "reachable env c d"
  shows "db_inv d"
  using assms by (rule reachable_db_inv)

theorem reachable_invariant_witness: "db_inv demo_done"
  by (rule reachable_invariant [OF demo_done_reachable])

text \<open>
  C8: a job that reached a terminal status keeps it forever, and its stored result never
  appears, changes or disappears afterwards.
\<close>

theorem terminal_jobs_frozen:
  assumes "reachable env c d" and "(coordinator_step env c)\<^sup>*\<^sup>* d d'"
    and "j \<in> set (jobs d)" and "j_status j \<in> TERMINAL"
  shows "\<exists>j' \<in> set (jobs d'). j_id j' = j_id j \<and> j_status j' = j_status j
    \<and> result_by_job (j_id j) d' = result_by_job (j_id j) d"
proof -
  note run = reachable_extend [OF assms(1,2)]
  from run_keeps_job [OF run(3,1) assms(3)] assms(4) obtain j' where
    j': "j' \<in> set (jobs d')" "j_id j' = j_id j" "j_status j' = j_status j"
    by (auto simp: same_request_def)
  have "result_by_job (j_id j) d' = result_by_job (j_id j) d"
  proof (cases "result_by_job (j_id j) d")
    case None
    then have "j_id j \<notin> r_job_id ` set (results d)"
      by (simp add: result_by_job_def result_table.lookup_None_iff)
    with inv_parts(7) [OF run(1)] assms(3) have "j_status j \<notin> {SUCCEEDED, FAILED, DEAD_LETTER}"
      by (auto simp: results_ok_def)
    with inv_parts(7) [OF run(2)] j' have "j_id j \<notin> r_job_id ` set (results d')"
      unfolding results_ok_def by metis
    then have "result_by_job (j_id j) d' = None"
      by (simp add: result_by_job_def result_table.lookup_None_iff)
    with None show ?thesis by simp
  next
    case (Some r)
    have r: "r \<in> set (results d)" "r_job_id r = j_id j"
      using result_by_job_Some [OF Some] by simp_all
    then have "r \<in> set (results d')" by (intro run_keeps_results [OF run(3)])
    with Some r result_unique [OF inv_parts(1) [OF run(2)]] show ?thesis by metis
  qed
  with j' show ?thesis by blast
qed

theorem terminal_jobs_frozen_witness:
  "\<exists>j' \<in> set (jobs demo_done). j_id j' = 10 \<and> j_status j' = SUCCEEDED
    \<and> result_by_job 10 demo_done = result_by_job 10 demo_done"
proof -
  have "demo_job SUCCEEDED 1 5003 \<in> set (jobs demo_done)" by (simp add: demo_dbs)
  from terminal_jobs_frozen [OF demo_done_reachable rtranclp.rtrancl_refl this] show ?thesis
    by (simp add: TERMINAL_def demo_job_def)
qed

text \<open>
  C10: at most one attempt of a job ever succeeds; it is the last one, the job has succeeded, and
  the stored result carries no error.
\<close>

theorem single_success:
  assumes "reachable env c d" and "a \<in> set (attempts d)" and "a_outcome a = Some OutSucceeded"
    and "b \<in> set (attempts d)" and "a_job_id b = a_job_id a"
  shows "(a_outcome b = Some OutSucceeded \<longrightarrow> b = a) \<and> a_fence b \<le> a_fence a \<and> \<not> active b
    \<and> (\<exists>j \<in> set (jobs d). j_id j = a_job_id a \<and> j_status j = SUCCEEDED)"
proof -
  note inv = reachable_db_inv [OF assms(1)]
  obtain j where j: "j \<in> set (jobs d)" "j_id j = a_job_id a" "lease_ok j a"
    by (rule inv_attempt_job [OF inv assms(2)])
  have job: "a_job_id a = j_id j" "a_job_id b = j_id j" using j(2) assms(5) by simp_all
  have b: "lease_ok j b" by (rule inv_lease [OF inv j(1) assms(4) job(2)])
  have st: "j_status j = SUCCEEDED" "a_fence a = j_attempt_count j"
    using j(3) assms(3) by (simp_all add: lease_ok_def)
  have "b = a" if "a_outcome b = Some OutSucceeded"
    using that b st fence_unique [OF inv_parts(4) [OF inv] j(1) assms(4,2) job(2,1)]
    by (simp add: lease_ok_def)
  moreover have "a_fence b \<le> a_fence a"
    using fence_bounds [OF inv_parts(4) [OF inv] j(1) assms(4) job(2)] st by simp
  moreover have "\<not> active b" using b st unfolding lease_ok_def by auto
  ultimately show ?thesis using j st by blast
qed

theorem single_success_witness:
  "\<exists>j \<in> set (jobs demo_done). j_id j = 10 \<and> j_status j = SUCCEEDED"
proof -
  let ?a = "demo_attempt\<lparr>a_started_at := Some 4001, a_output := Some demo_output,
    a_outcome := Some OutSucceeded, a_finished_at := Some 5002\<rparr>"
  have "?a \<in> set (attempts demo_done)" "a_outcome ?a = Some OutSucceeded" by (simp_all add: demo_dbs)
  from single_success [OF demo_done_reachable this this(1)] show ?thesis
    by (simp add: demo_attempt_def)
qed

text \<open>
  C14: the event log replays the job: it opens with SUBMITTED and QUEUED, every later event is a
  legal transition from the state before it, and the last state is the job's status.
\<close>

theorem event_log_replays_status:
  assumes "reachable env c d" and "j \<in> set (jobs d)"
  shows "\<exists>h. history (j_id j) d = SUBMITTED # Entered QUEUED # h \<and> walk QUEUED h = Some (j_status j)"
proof -
  have "lawful_history (history (j_id j) d) (j_status j)"
    using inv_parts(10) [OF reachable_db_inv [OF assms(1)]] assms(2) by (simp add: history_ok_def)
  then show ?thesis by (cases "(history (j_id j) d, j_status j)" rule: lawful_history.cases) auto
qed

theorem event_log_replays_status_witness:
  "\<exists>h. history 10 demo_done = SUBMITTED # Entered QUEUED # h \<and> walk QUEUED h = Some SUCCEEDED"
  using event_log_replays_status [OF demo_done_reachable, of "demo_job SUCCEEDED 1 5003"]
  by (simp add: demo_dbs demo_job_def)

text \<open>
  C11: a job has at most one unfinished attempt, exactly one while it is LEASED or RUNNING and none
  otherwise; and a slot of a worker runs at most one attempt.
\<close>

theorem one_owner:
  assumes "reachable env c d" and "j \<in> set (jobs d)"
  shows "card {a \<in> set (attempts d). active a \<and> a_job_id a = j_id j}
      = (if j_status j \<in> {LEASED, RUNNING} then 1 else 0)"
proof -
  note inv = reachable_db_inv [OF assms(1)]
  have ok: "lease_ok j a" if "a \<in> set (attempts d)" "a_job_id a = j_id j" for a
    using inv_lease [OF inv assms(2)] that by blast
  show ?thesis
  proof (cases "j_status j \<in> {LEASED, RUNNING}")
    case False
    then have "{a \<in> set (attempts d). active a \<and> a_job_id a = j_id j} = {}"
      using ok by (auto simp: lease_ok_def)
    with False show ?thesis by (simp only: card.empty if_False)
  next
    case True
    then have "j_attempt_count j \<in> set [1..j_attempt_count j]"
      using inv_count [OF inv assms(2)] by simp
    also have "\<dots> = set (fences (j_id j) (attempts d))"
      using inv_parts(4) [OF inv] assms(2) by (simp add: fences_ok_def)
    finally obtain a where a: "a \<in> set (attempts d)" "a_job_id a = j_id j" "a_fence a = j_attempt_count j"
      by (auto simp: fences_def)
    have "{a \<in> set (attempts d). active a \<and> a_job_id a = j_id j} = {a}"
    proof (intro set_eqI iffI)
      fix b
      assume "b \<in> {a \<in> set (attempts d). active a \<and> a_job_id a = j_id j}"
      then show "b \<in> {a}"
        using ok [of b] a fence_unique [OF inv_parts(4) [OF inv] assms(2) _ a(1), of b]
        by (simp add: lease_ok_def)
    qed (use ok [OF a(1,2)] a True in \<open>simp add: lease_ok_def\<close>)
    with True show ?thesis by (simp only: card.insert finite.emptyI empty_iff card.empty if_True
          not_False_eq_True One_nat_def)
  qed
qed

theorem one_owner_witness:
  "card {a \<in> set (attempts demo_running). active a \<and> a_job_id a = 10} = 1"
  using one_owner [OF demo_running_reachable, of "demo_job RUNNING 1 4002"]
  by (simp add: demo_dbs demo_job_def)

text \<open>
  C12: the retry budget. The attempts of a job carry the fences 1, 2, ... in the order they were
  made, their number is \<^verbatim>\<open>attempt_count\<close> and never exceeds \<^verbatim>\<open>max_retries + 1\<close>; a job is
  dead-lettered only with its budget used up, and waits for a retry only with budget left.
\<close>

theorem retry_budget:
  assumes "reachable env c d" and "j \<in> set (jobs d)"
  shows "map a_fence (filter (\<lambda>a. a_job_id a = j_id j) (attempts d)) = [1..j_attempt_count j]
    \<and> j_attempt_count j \<le> j_max_retries j + 1
    \<and> (j_status j = DEAD_LETTER \<longrightarrow> j_attempt_count j = j_max_retries j + 1)
    \<and> (j_status j = RETRY_WAIT \<longrightarrow> j_attempt_count j \<le> j_max_retries j)"
  using inv_parts(4,8) [OF reachable_db_inv [OF assms(1)]] assms(2)
  by (simp add: fences_ok_def fences_def budget_ok_def)

theorem retry_budget_witness:
  "map a_fence (filter (\<lambda>a. a_job_id a = 10) (attempts demo_done)) = [1..1]"
  using retry_budget [OF demo_done_reachable, of "demo_job SUCCEEDED 1 5003"]
  by (simp add: demo_dbs demo_job_def)

text \<open>The place of a row in a list, as a rank.\<close>

lemma parents_first_acyclic:
  assumes "parents_first (map (\<lambda>r. (key r, par r)) rs)" and "distinct (map key rs)"
  shows "acyclic {(p, i). \<exists>r \<in> set rs. key r = i \<and> par r = Some p}"
proof -
  define rank where "rank i = length (takeWhile (\<lambda>r. key r \<noteq> i) rs)" for i
  have rank: "rank (key (rs ! n)) = n" if "n < length rs" for n
  proof -
    have "key (rs ! m) \<noteq> key (rs ! n)" if "m < n" for m
      using nth_eq_iff_index_eq [OF assms(2), of m n] that \<open>n < length rs\<close> by simp
    then have "takeWhile (\<lambda>r. key r \<noteq> key (rs ! n)) rs = take n rs"
      using that by (intro takeWhile_eq_take_P_nth) auto
    with that show ?thesis by (simp add: rank_def)
  qed
  have "{(p, i). \<exists>r \<in> set rs. key r = i \<and> par r = Some p} \<subseteq> measure rank"
  proof clarify
    fix p r assume "r \<in> set rs" "par r = Some p"
    then obtain n where n: "n < length rs" "r = rs ! n" by (auto simp: in_set_conv_nth)
    with assms(1) \<open>par r = Some p\<close> have "p \<in> key ` set (take n rs)"
      by (auto simp: parents_first_def take_map image_image)
    then obtain m where m: "m < n" "p = key (rs ! m)" using n(1) by (auto simp: in_set_conv_nth)
    with n rank [of n] rank [of m] show "(p, key r) \<in> measure rank" by simp
  qed
  then show ?thesis by (rule acyclic_subset [OF wf_acyclic [OF wf_measure]])
qed

text \<open>
  C13: dependencies. A job is never attempted before the job it depends on has succeeded, and the
  dependencies of the jobs form no cycle, so a chain of waiting jobs always has a first one.
\<close>

theorem dependencies_respected:
  assumes "reachable env c d"
  shows "(\<forall>a \<in> set (attempts d). \<forall>j \<in> set (jobs d). a_job_id a = j_id j \<longrightarrow>
        (\<forall>p. j_depends_on j = Some p \<longrightarrow> (\<exists>parent \<in> set (jobs d). j_id parent = p \<and> j_status parent = SUCCEEDED)))
    \<and> acyclic {(p, i). \<exists>j \<in> set (jobs d). j_id j = i \<and> j_depends_on j = Some p}"
proof
  note inv = reachable_db_inv [OF assms]
  show "acyclic {(p, i). \<exists>j \<in> set (jobs d). j_id j = i \<and> j_depends_on j = Some p}"
    using inv_parts(1,3) [OF inv]
    by (intro parents_first_acyclic) (simp_all add: forest_ok_def keys_ok_def)
  show "\<forall>a \<in> set (attempts d). \<forall>j \<in> set (jobs d). a_job_id a = j_id j \<longrightarrow>
      (\<forall>p. j_depends_on j = Some p \<longrightarrow> (\<exists>parent \<in> set (jobs d). j_id parent = p \<and> j_status parent = SUCCEEDED))"
  proof (intro ballI impI allI)
    fix a j p
    assume a: "a \<in> set (attempts d)" "j \<in> set (jobs d)" "a_job_id a = j_id j" and p: "j_depends_on j = Some p"
    have "1 \<le> j_attempt_count j"
      using fence_bounds [OF inv_parts(4) [OF inv] a(2,1,3)] by simp
    with inv_parts(9) [OF inv] a(2) p have "ready_parent d j" by (auto simp: deps_ok_def)
    with p show "\<exists>parent \<in> set (jobs d). j_id parent = p \<and> j_status parent = SUCCEEDED"
      by (auto simp: ready_parent_def)
  qed
qed

theorem dependencies_respected_witness:
  "acyclic {(p, i). \<exists>j \<in> set (jobs demo_done). j_id j = i \<and> j_depends_on j = Some p}"
  using dependencies_respected [OF demo_done_reachable] by (rule conjunct2)

end
