(* ===== verification/Contracts.thy ===== *)
theory Contracts
  imports Guarantees
begin

text \<open>
  What each operation of \<^verbatim>\<open>greyqueue/service.py\<close> promises its callers: admission, claiming, fencing,
  renewal, completion, retries, and the replay of each request whose response was lost.
\<close>

section \<open>Ownership\<close>

lemma owned_stale:
  assumes "job_by_id jid (db w) = Some j" and "attempt_by_id tok (db w) = Some a"
    and "\<not> active a \<or> a_fence a \<noteq> j_attempt_count j \<or> a_expires_at a \<le> clk w 0"
    and "fin \<longrightarrow> active a"
  shows "\<exists>m. owned jid wid tok fin w = Inl (Conflict m)"
  using assms by (auto simp: owned_def tx_eval)

text \<open>
  C9: fencing. A worker whose attempt is finished, superseded by a later fence, or past its expiry
  can neither start nor renew it, and cannot complete it either (a finished one can only replay,
  changing nothing): the calls raise Conflict, so the transaction leaves the tables alone.
\<close>

theorem stale_attempt_refused:
  assumes "job_by_id jid (db w) = Some j" and "attempt_by_id tok (db w) = Some a"
    and "\<not> active a \<or> a_fence a \<noteq> j_attempt_count j \<or> a_expires_at a \<le> clk w 0"
  shows "(\<exists>m. start jid wid tok w = Inl (Conflict m))
    \<and> (\<exists>m. renew jid wid tok lease w = Inl (Conflict m))
    \<and> ((\<exists>m. finish jid wid tok output error retryable w = Inl (Conflict m))
       \<or> \<not> active a \<and> finish jid wid tok output error retryable w = Inr ((), w))"
proof -
  obtain m where m: "owned jid wid tok False w = Inl (Conflict m)"
    using owned_stale [OF assms, of False] by auto
  have "(\<exists>m. finish jid wid tok output error retryable w = Inl (Conflict m))
      \<or> \<not> active a \<and> finish jid wid tok output error retryable w = Inr ((), w)"
  proof (cases "active a")
    case True
    then obtain m' where "owned jid wid tok True w = Inl (Conflict m')"
      using owned_stale [OF assms, of True] by auto
    then show ?thesis by (simp add: finish_def tx_bind_def)
  next
    case False
    show ?thesis
    proof (cases "a_job_id a = jid \<and> a_worker_id a = wid")
      case True
      with False assms(1,2) have "owned jid wid tok True w = Inr ((j, a), w)" by (simp add: owned_iff)
      with False show ?thesis by (simp add: finish_def tx_bind_def tx_return_def tx_raise_def)
    next
      case foreign: False
      then have "owned jid wid tok True w = Inl (Conflict ''Assignment does not belong to this worker'')"
        using assms(1,2) by (auto simp: owned_def tx_eval)
      then show ?thesis by (simp add: finish_def tx_bind_def)
    qed
  qed
  with m show ?thesis by (simp add: start_def renew_def tx_bind_def)
qed

theorem stale_attempt_refused_witness:
  "(\<exists>m. start 10 ''w1'' 20 (demo_world demo_running 20000000 50) = Inl (Conflict m))"
proof -
  let ?w = "demo_world demo_running 20000000 50"
  have "job_by_id 10 (db ?w) = Some (demo_job RUNNING 1 4002)"
    "attempt_by_id 20 (db ?w) = Some (demo_attempt\<lparr>a_started_at := Some 4001\<rparr>)"
    by (simp_all add: job_by_id_def attempt_by_id_def find_row_def demo_dbs demo_rows)
  from stale_attempt_refused [OF this, of "''w1''" 10 None None False] show ?thesis
    by (simp add: demo_attempt_def)
qed

section \<open>Renewal\<close>

text \<open>
  C29: a renewed lease lies in the future, ends at most \<^verbatim>\<open>lease_seconds\<close> from now and at most
  \<^verbatim>\<open>timeout + 5\<close> seconds after the attempt started; only the expiry of that one attempt changes.
\<close>

theorem renew_bounds:
  assumes "renew jid wid tok lease w = Inr (expiry, w')"
  shows "\<exists>job att started. job_by_id jid (db w) = Some job \<and> attempt_by_id tok (db w) = Some att
    \<and> a_started_at att = Some started \<and> clk w 0 < a_expires_at att
    \<and> clk w 1 < expiry \<and> expiry \<le> clk w 1 + timedelta lease
    \<and> expiry \<le> started + timedelta (j_timeout job + 5)
    \<and> db w' = set_attempt tok (\<lambda>a. a\<lparr>a_expires_at := expiry\<rparr>) (db w)"
proof -
  obtain job att s where own: "owned jid wid tok False w = Inr ((job, att), tick w)"
    and run: "a_started_at att = Some s"
      "expiry = min (clk w (Suc 0) + timedelta lease) (s + timedelta (j_timeout job + 5))"
      "clk w (Suc 0) < expiry"
      "w' = (tick (tick w))\<lparr>db := set_attempt (a_id att) (\<lambda>a. a\<lparr>a_expires_at := expiry\<rparr>) (db w)\<rparr>"
    using assms unfolding renew_iff by blast
  have "job_by_id jid (db w) = Some job" "attempt_by_id tok (db w) = Some att"
    "clk w 0 < a_expires_at att" "a_id att = tok"
    using own owned_rows [OF own] by (simp_all add: owned_iff)
  with run show ?thesis by (intro exI [of _ job] exI [of _ att] exI [of _ s]) simp
qed

theorem renew_bounds_witness:
  "\<exists>w'. renew 10 ''w1'' 20 10 (demo_world demo_running 5000 40) = Inr (10005001, w')
    \<and> (\<exists>job att started. job_by_id 10 demo_running = Some job
        \<and> attempt_by_id 20 demo_running = Some att \<and> a_started_at att = Some started
        \<and> 10005001 \<le> started + timedelta (j_timeout job + 5))"
proof -
  let ?w = "demo_world demo_running 5000 40"
  obtain w' where run: "renew 10 ''w1'' 20 10 ?w = Inr (10005001, w')"
    by (simp add: renew_def owned_def tx_eval job_by_id_def attempt_by_id_def find_row_def Let_def
        demo_dbs demo_rows)
  from renew_bounds [OF run] have "\<exists>job att started. job_by_id 10 demo_running = Some job
        \<and> attempt_by_id 20 demo_running = Some att \<and> a_started_at att = Some started
        \<and> 10005001 \<le> started + timedelta (j_timeout job + 5)"
    by (simp only: demo_world_simps) blast
  with run show ?thesis by blast
qed

section \<open>Retries\<close>

lemma base_delay_bounds:
  assumes "0 \<le> j_retry_delay job"
  shows "0 \<le> base_delay job" "base_delay job \<le> 3600"
  using assms by (auto simp: base_delay_def)



section \<open>Completion\<close>

text \<open>The attempt row a completion leaves behind.\<close>

lemma finish_closes:
  assumes inv: "db_inv (db w)" and run: "finish jid wid tok output error retryable w = Inr ((), w')"
    and shape: "(output = None) \<noteq> (error = None)"
  obtains job att where "job_by_id jid (db w) = Some job" "att \<in> set (attempts (db w'))" "a_id att = tok"
    "a_job_id att = jid" "a_worker_id att = wid" "\<not> active att"
    "a_outcome att \<in> {Some OutSucceeded, Some OutFailed}" "same_output (a_output att) output \<or> a_output att = output"
    "a_error att = error"
proof -
  from run obtain job a w1 where own: "owned jid wid tok True w = Inr ((job, a), w1)"
    unfolding finish_iff by blast
  note rows = owned_rows [OF own]
  have job: "job_by_id jid (db w) = Some job" using own by (simp add: owned_iff)
  show thesis
  proof (cases "active a")
    case False
    with run own have "w' = w" "a_outcome a \<in> {Some OutSucceeded, Some OutFailed}"
      "same_output (a_output a) output" "a_error a = error"
      unfolding finish_iff by auto
    with rows job False show thesis by (intro that [of job a]) auto
  next
    case True
    have held: "holds a job (db w)" by (rule owned_holds [OF own True])
    note fresh = holds_outcome [OF inv_parts(5) [OF inv] held]
    have known: "j_id job \<in> j_id ` set (jobs (db (tick (tick w))))" using rows(1) by simp
    obtain a' where a': "attempts (db w') = set_row a_id (a_id a) (\<lambda>b. a' b) (attempts (db w))"
      "a_id (a' a) = tok" "a_job_id (a' a) = jid" "a_worker_id (a' a) = wid" "\<not> active (a' a)"
      "a_outcome (a' a) \<in> {Some OutSucceeded, Some OutFailed}" "a_output (a' a) = output"
      "a_error (a' a) = error"
    proof (cases error)
      case None
      with run own True have "attempts (db w') = set_row a_id (a_id a) (\<lambda>b. b\<lparr>a_output := output,
          a_outcome := Some OutSucceeded, a_finished_at := Some (clk w (Suc (Suc 0)))\<rparr>) (attempts (db w))"
        unfolding finish_iff by (auto simp: row_simps)
      with None rows fresh show thesis by (intro that [of "\<lambda>b. b\<lparr>a_output := output,
          a_outcome := Some OutSucceeded, a_finished_at := Some (clk w (Suc (Suc 0)))\<rparr>"]) auto
    next
      case (Some msg)
      with run own True have "fail_attempt job a msg retryable OutFailed (tick (tick w)) = Inr ((), w')"
        unfolding finish_iff by auto
      then have "attempts (db w') = set_row a_id (a_id a) (\<lambda>b. b\<lparr>a_finished_at := Some (clk w (Suc (Suc 0))),
          a_outcome := Some OutFailed, a_error := Some msg\<rparr>) (attempts (db w))"
        unfolding fail_attempt_eval [OF known]
        by (auto simp: retried_def buried_def row_simps closed_attempt_def Let_def split: if_splits)
      with Some rows fresh shape show thesis
        by (intro that [of "\<lambda>b. b\<lparr>a_finished_at := Some (clk w (Suc (Suc 0))),
          a_outcome := Some OutFailed, a_error := Some msg\<rparr>"]) auto
    qed
    have "a' a \<in> set (attempts (db w'))"
      unfolding a'(1) by (simp add: attempt_table.update_set [OF inv_keys(3) [OF inv] rows(3)])
    with a' job show thesis by (intro that [of job "a' a"]) auto
  qed
qed



section \<open>Claiming\<close>

lemma appended_claim:
  assumes "a_claim_id att \<notin> a_claim_id ` set as"
  shows "find_row a_claim_id (a_claim_id att) (as @ [att]) = Some att"
  using assms by (induction as) (auto simp: find_row_def)

text \<open>A claim that returned an assignment finds it again by its claim id.\<close>

lemma claim_recorded:
  assumes "db_inv (db w)" and "claim wid slot (Some cid) policy lease w = Inr (Some (job, att), w1)"
  shows "attempt_by_claim cid (db w1) = Some att" "a_worker_id att = wid" "a_slot att = slot" "active att"
    "job_by_id (a_job_id att) (db w1) = Some job" "workers (db w1) = workers (db w)"
    "\<exists>v. worker_by_id wid (db w) = Some v \<and> 0 \<le> slot \<and> slot < w_capacity v"
proof -
  have "attempt_by_claim cid (db w1) = Some att \<and> a_worker_id att = wid \<and> a_slot att = slot \<and> active att
      \<and> job_by_id (a_job_id att) (db w1) = Some job \<and> workers (db w1) = workers (db w)
      \<and> (\<exists>v. worker_by_id wid (db w) = Some v \<and> 0 \<le> slot \<and> slot < w_capacity v)"
    using assms(2)
  proof (cases rule: claim_cases)
    case (replay v a row)
    have "distinct (map a_claim_id (attempts (db w)))"
      using inv_parts(1) [OF assms(1)] by (simp add: keys_ok_def)
    with replay have "attempt_by_claim cid (db w) = Some a"
      by (auto simp: attempt_by_claim_def find_row_def find_Some_iff distinct_conv_nth in_set_conv_nth)
    with replay show ?thesis by auto
  next
    case (fresh v)
    from fresh(6) show ?thesis
    proof (cases rule: lease_job_cases)
      case (leased query job0 j a row u k)
      have cid: "a_claim_id a = cid" using leased by (simp add: new_attempt_def)
      have "attempts (db w1) = attempts (db w) @ [a]" using leased by (simp add: leased_def row_simps)
      moreover have "a_claim_id a \<notin> a_claim_id ` set (attempts (db w))"
        using leased by (simp add: insertable_def)
      ultimately have "attempt_by_claim cid (db w1) = Some a"
        using appended_claim [of a "attempts (db w)"] cid by (simp add: attempt_by_claim_def)
      moreover have "workers (db w1) = workers (db w)" using leased by (simp add: leased_def row_simps)
      ultimately show ?thesis
        using leased fresh(1,2,3) worker_by_id_Some [OF fresh(1)] by (auto simp: new_attempt_def)
    qed auto
  qed
  then show "attempt_by_claim cid (db w1) = Some att" "a_worker_id att = wid" "a_slot att = slot" "active att"
    "job_by_id (a_job_id att) (db w1) = Some job" "workers (db w1) = workers (db w)"
    "\<exists>v. worker_by_id wid (db w) = Some v \<and> 0 \<le> slot \<and> slot < w_capacity v" by auto
qed

text \<open>
  A claim whose response was lost can be repeated: the same claim id for the same slot returns
  the same assignment and changes nothing, whatever the policy, the lease length, the clock, or
  the locks then.
\<close>

lemma claim_replay:
  assumes "db_inv (db w)" and "claim wid slot (Some cid) policy lease w = Inr (Some (job, att), w1)"
    and "db w2 = db w1"
  shows "claim wid slot (Some cid) policy' lease' w2 = Inr (Some (job, att), w2)"
proof -
  note rec = claim_recorded [OF assms(1,2)]
  obtain v where v: "worker_by_id wid (db w) = Some v" "0 \<le> slot" "slot < w_capacity v" using rec(7) by auto
  have "worker_by_id wid (db w2) = Some v" using v(1) rec(6) assms(3) by (simp add: worker_by_id_def)
  then show ?thesis using rec(1-5) v(2,3) assms(3) by (simp add: claim_def tx_eval)
qed

text \<open>A claim that changes the tables leased a job its policy's query put first.\<close>

lemma claim_choice:
  assumes "claim wid slot cid policy lease w = Inr (r, w')" and "db w' \<noteq> db w"
  obtains v query job0 job att where "worker_by_id wid (db w) = Some v" "w_state v = HEALTHY"
    "scheduler policy = Inr query" "r = Some (job, att)" "j_id job = j_id job0"
    "first_unlocked (locked_jobs w) (query v (clk w 0) (db w)) = Some job0"
    "a_fence att = j_attempt_count job0 + 1" "a_worker_id att = wid" "a_job_id att = j_id job0"
    "a_expires_at att = clk w 0 + timedelta lease"
  using assms(1)
proof (cases rule: claim_cases)
  case (fresh v)
  from fresh(6) show thesis
  proof (cases rule: lease_job_cases)
    case (leased query job0 job att row u c)
    show thesis
    proof (rule that [of v query row att job0])
      show "j_id row = j_id job0" using job_by_id_Some [OF leased(12)] leased(4) by simp
    qed (use leased fresh(1) worker_by_id_Some [OF fresh(1)] in \<open>auto simp: new_attempt_def\<close>)
  qed (use assms(2) in auto)
qed (use assms(2) in auto)



text \<open>The \<^verbatim>\<open>fifo\<close> policy likewise leases the oldest eligible unlocked job (ties by id).\<close>

lemma claim_by_age:
  assumes "claim wid slot cid ''fifo'' lease w = Inr (r, w')" and "db w' \<noteq> db w"
  shows "\<exists>v j job att. worker_by_id wid (db w) = Some v \<and> r = Some (job, att) \<and> j \<in> set (jobs (db w))
    \<and> j_id job = j_id j \<and> eligible v (clk w 0) (db w) j \<and> j_id j \<notin> set (locked_jobs w)
    \<and> (\<forall>j' \<in> set (jobs (db w)). eligible v (clk w 0) (db w) j' \<longrightarrow> j_id j' \<notin> set (locked_jobs w)
         \<longrightarrow> (j_created_at j, j_id j) \<le> (j_created_at j', j_id j'))"
  using assms
proof (cases rule: claim_choice)
  case (1 v query job0 job att)
  have "query = FIFOScheduler_query" using 1(3) by (simp add: scheduler_def)
  with 1 fifo.head_is_best [of "locked_jobs w" v "clk w 0" "db w" job0] show ?thesis
    unfolding fifo_rank_def by blast
qed

text \<open>
  C20: a worker that is SUSPECT, DEAD or DRAINING is given no new job: its claim returns nothing, or
  an unfinished attempt its slot already holds, and leaves the tables alone.
\<close>

theorem unhealthy_worker_gets_nothing:
  assumes "claim wid slot cid policy lease w = Inr (r, w')"
    and "worker_by_id wid (db w) = Some v" and "w_state v \<noteq> HEALTHY"
  shows "db w' = db w \<and> (r = None \<or> (\<exists>job att. r = Some (job, att) \<and> att \<in> set (attempts (db w))
    \<and> active att \<and> a_worker_id att = wid \<and> a_slot att = slot))"
proof -
  have same: "db w' = db w"
  proof (rule ccontr)
    assume "db w' \<noteq> db w"
    from assms(1) this show False by (rule claim_choice) (use assms(2,3) in auto)
  qed
  from assms(1) show ?thesis
  proof (cases rule: claim_cases)
    case (replay v' a row)
    with same show ?thesis by auto
  next
    case (fresh v')
    with assms(2,3) have "r = None" by (auto simp: lease_job_def tx_return_def)
    with same show ?thesis by simp
  qed
qed

definition demo_drained :: database where
  "demo_drained = demo_queued\<lparr>workers := [demo_worker_row\<lparr>w_state := DRAINING, w_drain_requested := True\<rparr>]\<rparr>"

theorem unhealthy_worker_gets_nothing_witness:
  "\<exists>w'. claim ''w1'' 0 (Some 77) ''priority'' 10 (demo_world demo_drained 3000 20) = Inr (None, w')
     \<and> db w' = demo_drained"
proof -
  let ?v = "demo_worker_row\<lparr>w_state := DRAINING, w_drain_requested := True\<rparr>"
  have v: "worker_by_id ''w1'' (db (demo_world demo_drained 3000 20)) = Some ?v" "w_state ?v \<noteq> HEALTHY"
    by (simp_all add: worker_by_id_def find_row_def demo_drained_def demo_worker_row_def)
  have run: "claim ''w1'' 0 (Some 77) ''priority'' 10 (demo_world demo_drained 3000 20)
      = Inr (None, demo_world demo_drained 3000 20)"
    by (simp add: claim_def lease_job_def tx_eval worker_by_id_def find_row_def attempt_by_claim_def
        slot_attempt_def demo_drained_def demo_dbs demo_worker_row_def)
  from unhealthy_worker_gets_nothing [OF run v] run show ?thesis by auto
qed

section \<open>Admission\<close>

lemma find_key:
  assumes "distinct (filter (\<lambda>k. k \<noteq> None) (map f xs))" and "x \<in> set xs" and "f x = Some k"
  shows "find (\<lambda>y. f y = Some k) xs = Some x"
  using assms by (induction xs) (auto split: if_splits intro: rev_image_eqI)

lemma job_for_key_found:
  assumes "db_inv d" and "j \<in> set (jobs d)" and "j_idempotency_key j = Some k" and "k \<noteq> []"
  shows "job_for_key (Some k) d = Some j"
  using find_key [of j_idempotency_key "jobs d" j k] inv_parts(1) [OF assms(1)] assms
  by (simp add: job_for_key_def keys_ok_def)

lemma admit_job:
  assumes "admit env s limit rate w = Inr ((job, created), w1)" and "sub_idempotency_key s = Some k"
    and "k \<noteq> []"
  obtains args digest where "admit_args env (sub_task s) (sub_args s) = Inr args"
    "request_digest env s args = Some digest" "job \<in> set (jobs (db w1))"
    "j_idempotency_key job = Some k" "j_request_hash job = Some digest"
proof -
  from assms(1) obtain args digest where ad: "admit_args env (sub_task s) (sub_args s) = Inr args"
    "request_digest env s args = Some digest"
    and cases: "\<not> created \<and> job_for_key (sub_idempotency_key s) (db w) = Some job
       \<and> j_request_hash job = Some digest \<and> w1 = w
      \<or> created \<and> job = new_job s args digest (uuids w 0) (clk w 0)
        \<and> db w1 = admitted (tx_now w) job (db w)"
    unfolding admit_iff by auto
  from cases have "job \<in> set (jobs (db w1)) \<and> j_idempotency_key job = Some k \<and> j_request_hash job = Some digest"
  proof (elim disjE conjE)
    assume "job_for_key (sub_idempotency_key s) (db w) = Some job" "w1 = w" "j_request_hash job = Some digest"
    with assms(2,3) show ?thesis by (auto simp: job_for_key_def find_Some_iff)
  next
    assume "job = new_job s args digest (uuids w 0) (clk w 0)" "db w1 = admitted (tx_now w) job (db w)"
    with assms(2) show ?thesis by (simp add: row_simps) (simp add: new_job_def)
  qed
  with ad show thesis by (intro that) auto
qed

lemma admit_again:
  assumes "db_inv (db w)" and "admit env' s limit rate w = Inr ((job, created), w1)"
    and "sub_idempotency_key s = Some k" and "k \<noteq> []" and "0 \<le> sub_max_retries s"
    and "(coordinator_step env c)\<^sup>*\<^sup>* (db w1) (db w2)"
  shows "\<exists>job'. admit env' s limit' rate' w2 = Inr ((job', False), w2) \<and> same_request job job'"
proof -
  have inv1: "db_inv (db w1)"
    by (rule refines_run(2) [OF admit_refines [OF assms(5)] assms(1) assms(2)])
  obtain args digest where ad: "admit_args env' (sub_task s) (sub_args s) = Inr args"
    "request_digest env' s args = Some digest" "job \<in> set (jobs (db w1))"
    "j_idempotency_key job = Some k" "j_request_hash job = Some digest"
    by (rule admit_job [OF assms(2,3,4)])
  have run: "db_step\<^sup>*\<^sup>* (db w1) (db w2)" and inv2: "db_inv (db w2)"
    using reachable_run [OF inv1 assms(6)] coordinator.run_inv [OF assms(6) inv1] by auto
  from run_keeps_job [OF run inv1 ad(3)] obtain job' where
    job': "job' \<in> set (jobs (db w2))" "same_request job job'" by blast
  have "job_for_key (Some k) (db w2) = Some job'"
    using job' ad(4) assms(4) by (intro job_for_key_found [OF inv2]) (simp_all add: same_request_def)
  then have "admit env' s limit' rate' w2 = Inr ((job', False), w2)"
    unfolding admit_iff using ad job'(2) assms(3) by (simp add: same_request_def)
  with job'(2) show ?thesis by blast
qed

text \<open>
  C28: admission is idempotent. Submitting the same definition under the same key again, at any later
  time and however full the queue is by then, returns the job admitted first and changes nothing.
\<close>

theorem admission_idempotent:
  assumes "reachable env c (db w)" and "admit env' s limit rate w = Inr ((job, created), w1)"
    and "sub_idempotency_key s = Some k" and "k \<noteq> []" and "0 \<le> sub_max_retries s"
    and "(coordinator_step env c)\<^sup>*\<^sup>* (db w1) (db w2)"
  shows "\<exists>job'. admit env' s limit' rate' w2 = Inr ((job', False), w2) \<and> same_request job job'"
  by (rule admit_again [OF reachable_db_inv [OF assms(1)] assms(2-6)])

theorem admission_idempotent_witness:
  "\<exists>job'. admit demo_env demo_submission 0 0 (demo_world demo_queued 9000 90)
      = Inr ((job', False), demo_world demo_queued 9000 90) \<and> same_request (demo_job QUEUED 0 2000) job'"
proof -
  have "reachable demo_env demo_settings (db (demo_world demo_registered 2000 10))"
    using demo_registered_reachable by simp
  from admission_idempotent [OF this demo_submit, of "''k1''" "demo_world demo_queued 9000 90" 0 0]
  show ?thesis by (simp add: demo_submission_def)
qed

text \<open>
  C18: admission control. A new job is admitted only below both limits: afterwards the waiting and
  running jobs number at most \<^verbatim>\<open>queue_limit\<close>, exactly one more than before, the submissions of the
  last minute at most \<^verbatim>\<open>submissions_per_minute\<close>, and a job it depends on exists and has not failed.
\<close>

theorem admission_bounded:
  assumes "admit env s limit rate w = Inr ((job, True), w1)"
  shows "admitted_active (db w1) = admitted_active (db w) + 1 \<and> admitted_active (db w1) \<le> limit
    \<and> recent_submissions (clk w 0) (db w1) \<le> rate \<and> jobs (db w1) = jobs (db w) @ [job]
    \<and> j_status job = QUEUED
    \<and> (\<forall>p. sub_depends_on s = Some p \<longrightarrow>
         (\<exists>parent. job_by_id p (db w) = Some parent \<and> j_status parent \<in> insert SUCCEEDED ACTIVE))"
proof -
  from assms obtain args digest where run: "admitted_active (db w) < limit"
    "recent_submissions (clk w 0) (db w) < rate"
    "check_parent (sub_depends_on s) (tick w) = Inr ((), tick w)"
    "job = new_job s args digest (uuids w 0) (clk w 0)" "db w1 = admitted (tx_now w) job (db w)"
    unfolding admit_iff by auto
  have "jobs (db w1) = jobs (db w) @ [job]" using run(5) by (simp add: row_simps)
  moreover have "j_status job = QUEUED" using run(4) by (simp add: new_job_def)
  ultimately show ?thesis
    using run(1,2,3) unfolding check_parent_iff
    by (auto simp: admitted_active_def recent_submissions_def ACTIVE_def)
qed

theorem admission_bounded_witness:
  "admitted_active demo_queued = admitted_active demo_registered + 1 \<and> admitted_active demo_queued \<le> 10000"
  using admission_bounded [OF demo_submit] by simp

end
