(* ===== verification/Observability.thy ===== *)
theory Observability
  imports Recovery
begin

text \<open>
  \<^verbatim>\<open>greyqueue/observability.py\<close>: the operational metrics, derived from the tables. PostgreSQL's
  aggregates \<^verbatim>\<open>avg\<close> and \<^verbatim>\<open>percentile_cont\<close> (NULL on no rows) are parameters.
\<close>

section \<open>Workers\<close>

record worker_out =
  wo_id :: string
  wo_state :: worker_state
  wo_capacity :: int
  wo_running :: nat
  wo_capabilities :: "string list"
  wo_last_seen :: string
  wo_heartbeat_age_seconds :: json

definition running_attempts :: "string \<Rightarrow> database \<Rightarrow> nat" where
  "running_attempts wid d = length (filter (\<lambda>a. active a \<and> a_worker_id a = wid) (attempts d))"

text \<open>\<^verbatim>\<open>max(0, seconds)\<close> is the integer 0 unless the float is positive.\<close>

definition age_seconds :: "timestamp \<Rightarrow> worker_row \<Rightarrow> json" where
  "age_seconds t v =
     (let age = of_int (t - w_last_seen v) / 1000000 in if 0 < age then JFloat age else JInt 0)"

definition worker_rows :: "env \<Rightarrow> nat \<Rightarrow> worker_out list dbtx" where
  "worker_rows env limit =
     tx_bind database_time (\<lambda>t.
     tx_get (\<lambda>w. map (\<lambda>v. \<lparr>wo_id = w_id v, wo_state = w_state v, wo_capacity = w_capacity v,
         wo_running = running_attempts (w_id v) (db w), wo_capabilities = w_capabilities v,
         wo_last_seen = driver_isoformat env (w_last_seen v),
         wo_heartbeat_age_seconds = age_seconds t v\<rparr>)
       (take limit (sort_key (\<lambda>v. - w_last_seen v) (worker_scan w (workers (db w)))))))"

section \<open>The snapshot\<close>

record aggregates =
  pg_avg :: "rat list \<Rightarrow> rat option"
  pg_percentile_cont :: "rat \<Rightarrow> rat list \<Rightarrow> rat option"

definition WINDOW :: seconds where
  "WINDOW = 3600"

text \<open>\<^verbatim>\<open>GROUP BY ... count()\<close> as a dictionary: only the values that occur.\<close>

definition group_count :: "('r \<Rightarrow> 'k) \<Rightarrow> 'r list \<Rightarrow> 'k \<rightharpoonup> nat" where
  "group_count key rows k =
     (let n = length (filter (\<lambda>r. key r = k) rows) in if n = 0 then None else Some n)"

definition get_count :: "('k \<rightharpoonup> nat) \<Rightarrow> 'k \<Rightarrow> nat" where
  "get_count counts k = (case counts k of None \<Rightarrow> 0 | Some n \<Rightarrow> n)"

definition finished_since :: "timestamp \<Rightarrow> attempt_row \<Rightarrow> bool" where
  "finished_since since a = (case a_finished_at a of None \<Rightarrow> False | Some f \<Rightarrow> since \<le> f)"

text \<open>\<^verbatim>\<open>extract(epoch from finished_at - started_at)\<close> over the recent finished attempts.\<close>

definition durations :: "timestamp \<Rightarrow> database \<Rightarrow> rat list" where
  "durations since d =
     map (\<lambda>a. of_int (the (a_finished_at a) - the (a_started_at a)) / 1000000)
       (filter (\<lambda>a. a_started_at a \<noteq> None \<and> finished_since since a) (attempts d))"

definition queue_waits :: "timestamp \<Rightarrow> database \<Rightarrow> rat list" where
  "queue_waits since d =
     concat (map (\<lambda>a. map (\<lambda>j. of_int (a_created_at a - j_created_at j) / 1000000)
         (filter (\<lambda>j. j_id j = a_job_id a) (jobs d)))
       (filter (finished_since since) (attempts d)))"

record duration_stats =
  ds_average :: rat
  ds_p50 :: rat
  ds_p95 :: rat
  ds_p99 :: rat

record snapshot_out =
  sn_version :: string
  sn_states :: "job_status \<rightharpoonup> nat"
  sn_queue_depth :: nat
  sn_admitted_active :: nat
  sn_queue_limit :: int
  sn_saturation :: rat
  sn_submitted :: nat
  sn_completed :: nat
  sn_failed :: nat
  sn_retries :: nat
  sn_throughput_60s :: rat
  sn_latency_window_seconds :: int
  sn_duration :: duration_stats
  sn_average_queue_wait :: rat
  sn_workers :: "worker_out list"
  sn_worker_states :: "worker_state \<rightharpoonup> nat"
  sn_system_events :: "system_event_row list"
  sn_job_events :: "event_row list"

definition or_zero :: "env \<Rightarrow> rat option \<Rightarrow> rat" where
  "or_zero env x = (case x of None \<Rightarrow> 0 | Some r \<Rightarrow> float_of env r)"

definition throughput :: "env \<Rightarrow> timestamp \<Rightarrow> database \<Rightarrow> rat" where
  "throughput env t d =
     float_of env (of_nat (length (filter
       (\<lambda>j. j_status j = SUCCEEDED \<and> t - timedelta 60 \<le> j_updated_at j) (jobs d))) / 60)"

definition snapshot :: "env \<Rightarrow> aggregates \<Rightarrow> int \<Rightarrow> snapshot_out dbtx" where
  "snapshot env agg queue_limit =
     tx_bind (tx_get (\<lambda>w. (group_count j_status (jobs (db w)), group_count e_state (events (db w)))))
       (\<lambda>(states, counts).
     tx_bind (worker_rows env 200) (\<lambda>workers.
     tx_bind (tx_get (\<lambda>w. group_count w_state (Models.workers (db w)))) (\<lambda>worker_states.
     tx_bind database_time (\<lambda>timestamp.
     let since = timestamp - timedelta WINDOW;
         depth = get_count states QUEUED + get_count states RETRY_WAIT;
         active = depth + get_count states LEASED + get_count states RUNNING in
     tx_get (\<lambda>w.
       \<lparr>sn_version = ''1.0.0'', sn_states = states, sn_queue_depth = depth, sn_admitted_active = active,
        sn_queue_limit = queue_limit,
        sn_saturation = float_of env (of_nat active / of_int queue_limit),
        sn_submitted = get_count counts SUBMITTED,
        sn_completed = get_count counts (Entered SUCCEEDED),
        sn_failed = get_count counts (Entered FAILED) + get_count counts (Entered DEAD_LETTER),
        sn_retries = get_count counts (Entered RETRY_WAIT),
        sn_throughput_60s = throughput env timestamp (db w),
        sn_latency_window_seconds = 3600,
        sn_duration =
          \<lparr>ds_average = or_zero env (pg_avg agg (durations since (db w))),
           ds_p50 = or_zero env (pg_percentile_cont agg (1 / 2) (durations since (db w))),
           ds_p95 = or_zero env (pg_percentile_cont agg (95 / 100) (durations since (db w))),
           ds_p99 = or_zero env (pg_percentile_cont agg (99 / 100) (durations since (db w)))\<rparr>,
        sn_average_queue_wait = or_zero env (pg_avg agg (queue_waits since (db w))),
        sn_workers = workers, sn_worker_states = worker_states,
        sn_system_events = take 30 (sort_key (\<lambda>e. - se_id e) (system_events (db w))),
        sn_job_events = take 30 (sort_key (\<lambda>e. - e_id e) (events (db w)))\<rparr>)))))"

section \<open>Prometheus text\<close>

fun number_text :: "env \<Rightarrow> json \<Rightarrow> string" where
  "number_text env (JInt i) = int_text i"
| "number_text env (JFloat r) = float_repr env r"
| "number_text env _ = []"

definition metric_values :: "snapshot_out \<Rightarrow> (string \<times> json) list" where
  "metric_values data =
     [(''jobs_submitted_total'', JInt (int (sn_submitted data))),
      (''jobs_completed_total'', JInt (int (sn_completed data))),
      (''jobs_failed_total'', JInt (int (sn_failed data))),
      (''jobs_retried_total'', JInt (int (sn_retries data))),
      (''queue_depth'', JInt (int (sn_queue_depth data))),
      (''queue_saturation_ratio'', JFloat (sn_saturation data)),
      (''throughput_per_second'', JFloat (sn_throughput_60s data)),
      (''queue_wait_seconds'', JFloat (sn_average_queue_wait data))]"

definition ends_with :: "string \<Rightarrow> string \<Rightarrow> bool" where
  "ends_with suff s = suffix suff s"

definition type_line :: "string \<Rightarrow> string \<Rightarrow> string" where
  "type_line key kind = ''# TYPE greyqueue_'' @ key @ '' '' @ kind"

text \<open>\<^verbatim>\<open>greyqueue_<key>{<label>="<text>"} <number>\<close>.\<close>

definition labelled :: "string \<Rightarrow> string \<Rightarrow> string \<Rightarrow> string \<Rightarrow> string" where
  "labelled key label val num =
     ''greyqueue_'' @ key @ [CHR 0x7B] @ label @ ''='' @ [CHR 0x22] @ val @ [CHR 0x22, CHR 0x7D]
       @ '' '' @ num"

definition prometheus_lines :: "env \<Rightarrow> snapshot_out \<Rightarrow> string list" where
  "prometheus_lines env data =
     concat (map (\<lambda>(key, v).
         [type_line key (if ends_with ''_total'' key then ''counter'' else ''gauge''),
          ''greyqueue_'' @ key @ '' '' @ number_text env v]) (metric_values data))
     @ [type_line ''job_duration_seconds'' ''gauge'']
     @ map (\<lambda>(key, v). labelled ''job_duration_seconds'' ''statistic'' key (float_repr env v))
         [(''average'', ds_average (sn_duration data)), (''p50'', ds_p50 (sn_duration data)),
          (''p95'', ds_p95 (sn_duration data)), (''p99'', ds_p99 (sn_duration data))]
     @ [type_line ''workers'' ''gauge'']
     @ map (\<lambda>s. labelled ''workers'' ''state'' (worker_state_name s)
           (nat_text (get_count (sn_worker_states data) s))) [HEALTHY, SUSPECT, DEAD, DRAINING]
     @ (let live = filter (\<lambda>v. wo_state v \<noteq> DEAD) (sn_workers data) in
        [type_line ''worker_utilization'' ''gauge'']
        @ map (\<lambda>v. labelled ''worker_utilization'' ''worker'' (wo_id v)
             (float_repr env (float_of env (of_nat (wo_running v) / of_int (wo_capacity v))))) live
        @ [type_line ''worker_heartbeat_age_seconds'' ''gauge'']
        @ map (\<lambda>v. labelled ''worker_heartbeat_age_seconds'' ''worker'' (wo_id v)
             (number_text env (wo_heartbeat_age_seconds v))) live)"

definition prometheus :: "env \<Rightarrow> snapshot_out \<Rightarrow> string" where
  "prometheus env data = join [CHR 0x0A] (prometheus_lines env data) @ [CHR 0x0A]"

section \<open>Counters from the event log\<close>

lemma get_group_count: "get_count (group_count key rows) k = length (filter (\<lambda>r. key r = k) rows)"
  by (simp add: get_count_def group_count_def Let_def)

text \<open>The states a job visits: a terminal state is entered at most once, and only at the end.\<close>

lemma walk_terminal:
  assumes "walk s h = Some s'" and "st \<in> TERMINAL" and "s \<noteq> st"
  shows "length (filter (\<lambda>e. e = Entered st) h) = (if s' = st then 1 else 0)"
  using assms
proof (induction s h rule: walk.induct)
  case (2 s u h)
  then have w: "walk u h = Some s'" by (auto split: if_splits)
  show ?case
  proof (cases "u = st")
    case True
    then have "h = []"
      using w 2(3) by (cases h rule: list.exhaust, simp, cases "hd h") (auto simp: TERMINAL_def)
    with True w show ?thesis by simp
  next
    case False
    with 2 w show ?thesis by (auto split: if_splits)
  qed
qed auto

lemma lawful_terminal:
  assumes "lawful_history h s" and "st \<in> TERMINAL"
  shows "length (filter (\<lambda>e. e = Entered st) h) = (if s = st then 1 else 0)"
  using assms walk_terminal [of QUEUED _ s st]
  by (cases "(h, s)" rule: lawful_history.cases) (auto simp: TERMINAL_def)

lemma walk_no_submitted: "walk s h = Some s' \<Longrightarrow> SUBMITTED \<notin> set h"
  by (induction s h rule: walk.induct) (auto split: if_splits)

lemma lawful_submitted:
  assumes "lawful_history h s"
  shows "length (filter (\<lambda>e. e = SUBMITTED) h) = 1"
  using assms walk_no_submitted [of QUEUED _ s]
  by (cases "(h, s)" rule: lawful_history.cases) (auto simp: filter_empty_conv)

text \<open>Counting events of a state is summing over the jobs.\<close>

lemma count_by_key:
  assumes "distinct ks" and "\<forall>x \<in> set xs. key x \<in> set ks"
  shows "length (filter P xs) = (\<Sum>k\<leftarrow>ks. length (filter P (filter (\<lambda>x. key x = k) xs)))"
  using assms(2)
proof (induction xs)
  case (Cons x xs)
  have "(\<Sum>k\<leftarrow>ks. length (filter P (filter (\<lambda>y. key y = k) (x # xs))))
      = (\<Sum>k\<leftarrow>ks. (if P x \<and> key x = k then 1 else 0)
           + length (filter P (filter (\<lambda>y. key y = k) xs)))"
    by (rule arg_cong [of _ _ sum_list], rule map_cong) auto
  also have "\<dots> = (\<Sum>k\<leftarrow>ks. if P x \<and> key x = k then 1 else 0) + length (filter P xs)"
    using Cons by (simp add: sum_list_addf)
  also have "(\<Sum>k\<leftarrow>ks. if P x \<and> key x = k then 1 else 0) = (if P x then 1 else (0::nat))"
    using Cons.prems assms(1) by (simp add: sum_list_distinct_conv_sum_set)
  finally show ?case by simp
qed simp

lemma sum_indicator: "(\<Sum>x\<leftarrow>xs. if Q x then 1 else 0) = length (filter Q xs)"
  by (induction xs) simp_all

lemma event_count:
  assumes inv: "db_inv d"
    and each: "\<And>h s. lawful_history h s \<Longrightarrow> length (filter (\<lambda>e. e = st) h) = (if P s then 1 else 0)"
  shows "get_count (group_count e_state (events d)) st
    = length (filter (\<lambda>j. P (j_status j)) (jobs d))"
proof -
  have "\<forall>e \<in> set (events d). e_job_id e \<in> set (map j_id (jobs d))"
    using inv by (auto simp: db_inv_def refs_ok_def)
  then have "length (filter (\<lambda>e. e_state e = st) (events d))
      = (\<Sum>i\<leftarrow>map j_id (jobs d). length (filter (\<lambda>e. e_state e = st)
           (filter (\<lambda>e. e_job_id e = i) (events d))))"
    by (intro count_by_key inv_keys(2) [OF inv])
  also have "\<dots> = (\<Sum>j\<leftarrow>jobs d. length (filter (\<lambda>e. e = st) (history (j_id j) d)))"
    by (simp add: history_def filter_map o_def)
  also have "\<dots> = (\<Sum>j\<leftarrow>jobs d. if P (j_status j) then 1 else 0)"
    by (rule arg_cong [of _ _ sum_list], rule map_cong)
      (use inv each in \<open>auto simp: db_inv_def history_ok_def\<close>)
  also have "\<dots> = length (filter (\<lambda>j. P (j_status j)) (jobs d))"
    by (rule sum_indicator)
  finally show ?thesis by (simp add: get_group_count)
qed

lemma count_disjoint:
  "(\<And>x. \<not> (P x \<and> Q x)) \<Longrightarrow> length (filter P xs) + length (filter Q xs)
     = length (filter (\<lambda>x. P x \<or> Q x) xs)"
  by (induction xs) auto

lemma active_count:
  "length (filter (\<lambda>j. j_status j = QUEUED) js) + length (filter (\<lambda>j. j_status j = RETRY_WAIT) js)
     + length (filter (\<lambda>j. j_status j = LEASED) js) + length (filter (\<lambda>j. j_status j = RUNNING) js)
     = length (filter (\<lambda>j. j_status j \<in> ACTIVE) js)"
  by (induction js) (auto simp: ACTIVE_def)

lemma snapshot_counters:
  assumes "db_inv (db w)"
  shows "\<exists>data w'. snapshot env agg limit w = Inr (data, w') \<and> db w' = db w
    \<and> sn_submitted data = length (jobs (db w))
    \<and> sn_completed data = length (filter (\<lambda>j. j_status j = SUCCEEDED) (jobs (db w)))
    \<and> sn_failed data = length (filter (\<lambda>j. j_status j \<in> {FAILED, DEAD_LETTER}) (jobs (db w)))
    \<and> int (sn_admitted_active data) = admitted_active (db w)"
proof -
  have ended: "get_count (group_count e_state (events (db w))) (Entered st)
      = length (filter (\<lambda>j. j_status j = st) (jobs (db w)))" if "st \<in> TERMINAL" for st
    using event_count [OF assms, of "Entered st" "\<lambda>s. s = st"] lawful_terminal that by simp
  have sub: "get_count (group_count e_state (events (db w))) SUBMITTED = length (jobs (db w))"
    using event_count [OF assms, of SUBMITTED "\<lambda>s. True"] lawful_submitted by simp
  have failed: "length (filter (\<lambda>j. j_status j = FAILED) (jobs (db w)))
      + length (filter (\<lambda>j. j_status j = DEAD_LETTER) (jobs (db w)))
      = length (filter (\<lambda>j. j_status j \<in> {FAILED, DEAD_LETTER}) (jobs (db w)))"
    using count_disjoint [of "\<lambda>j. j_status j = FAILED" "\<lambda>j. j_status j = DEAD_LETTER" "jobs (db w)"]
    by simp
  obtain ws where ws: "worker_rows env 200 w = Inr (ws, tick w)"
    by (simp add: worker_rows_def tx_bind_def database_time_def next_clock_def tx_get_def)
  show ?thesis
    unfolding snapshot_def
    by (simp add: tx_bind_def tx_get_def ws database_time_def next_clock_def Let_def
        ended [unfolded get_group_count] sub [unfolded get_group_count] failed [simplified]
        TERMINAL_def get_group_count active_count admitted_active_def del: of_nat_add)
qed

end
