(* ===== verification/Fleet.thy ===== *)
theory Fleet
  imports Contracts Observability
begin

text \<open>
  What the recovery sweep, the worker registry, the credentials and the read routes promise.
\<close>

section \<open>Recovery\<close>

text \<open>
  The recovery sweep never fails. On a reachable database, whatever rows and locks other
  transactions hold, \<^verbatim>\<open>recover_jobs\<close> returns: no transition it makes is illegal, no constraint is
  violated; while another coordinator holds the advisory lock it returns 0 and does nothing.
\<close>

lemma recovery_never_raises:
  assumes "reachable env c (db w)" and "mono (clk w)" and "scan_ok w"
  shows "\<exists>n w'. recover_jobs limit w = Inr (n, w')
    \<and> (recovery_lock_taken w \<longrightarrow> n = 0 \<and> w' = w)"
proof (cases "recovery_lock_taken w")
  case True
  then show ?thesis by (simp add: recover_jobs_def tx_bind_def tx_get_def tx_return_def)
next
  case False
  from recover_jobs_returns [OF reachable_db_inv [OF assms(1)] assms(2,3) False refl] False
  show ?thesis by blast
qed



text \<open>
  The sweep cancels the waiting jobs whose parent failed, was dead-lettered or cancelled, and
  no others: when no lease has expired and no row is locked, every such job is CANCELLED
  afterwards, and every other job row is as it was.
\<close>

lemma recovery_cancels_blocked:
  assumes inv: "db_inv (db w)" and "scan_ok w" and "\<not> recovery_lock_taken w"
    and "locked_jobs w = []" and "expired_join (clk w 0) (db w) = []"
    and "length (blocked_rows (db w)) \<le> limit"
  shows "\<exists>w'. recover_jobs limit w = Inr (0, w') \<and> attempts (db w') = attempts (db w)
    \<and> (\<forall>r \<in> set (jobs (db w')). if j_id r \<in> j_id ` set (blocked_rows (db w))
         then j_status r = CANCELLED else r \<in> set (jobs (db w)))"
proof -
  have page: "locked_page limit (tick w) (expired_join (clk w 0) (db w)) = []"
    using assms(2,5) by (simp add: locked_page_def scan_ok_def) (metis length_0_conv)
  let ?blocked = "locked_page limit (tick w) (blocked_rows (db w))"
  have scan: "scan_ok (tick w)" using assms(2) by (simp add: scan_ok_def)
  have set: "set ?blocked = set (blocked_rows (db w))"
    by (rule page_all [OF scan]) (use assms(4,6) in simp_all)
  have "distinct (map j_id ?blocked)"
    by (rule page_distinct [OF scan])
      (use inv_keys(2) [OF inv] in \<open>simp add: blocked_rows_def distinct_map_filter\<close>)
  moreover have "\<forall>j \<in> set ?blocked. \<exists>r \<in> set (jobs (db (tick w))). j_id r = j_id j
      \<and> j_status r \<in> {QUEUED, RETRY_WAIT}"
    unfolding set by (auto simp: blocked_rows_def)
  ultimately obtain w' where w': "tx_for ?blocked cancel_blocked (tick w) = Inr ((), w')"
    "attempts (db w') = attempts (db w)"
    "\<forall>r \<in> set (jobs (db w')). if j_id r \<in> j_id ` set ?blocked then j_status r = CANCELLED
       else r \<in> set (jobs (db w))"
    using cancel_loop [of "tick w" ?blocked, unfolded tick_simps(1)] inv by auto
  have "recover_jobs limit w = Inr (0, w')"
    using assms(3) w'(1) page
    by (simp add: recover_jobs_def tx_bind_def tx_get_def tx_return_def database_time_def next_clock_def)
  with w'(2,3) set show ?thesis by auto
qed

text \<open>A cancelled parent with a waiting child.\<close>

definition demo_blocked :: database where
  "demo_blocked = demo_registered\<lparr>
     jobs := [(demo_job CANCELLED 0 2000)\<lparr>j_id := 11, j_idempotency_key := None\<rparr>,
       (demo_job QUEUED 0 2000)\<lparr>j_id := 12, j_depends_on := Some 11\<rparr>],
     events := [(demo_event 1 SUBMITTED 1)\<lparr>e_job_id := 11\<rparr>, (demo_event 2 (Entered QUEUED) 1)\<lparr>e_job_id := 11\<rparr>,
       (demo_event 3 SUBMITTED 2)\<lparr>e_job_id := 12\<rparr>, (demo_event 4 (Entered QUEUED) 2)\<lparr>e_job_id := 12\<rparr>,
       (demo_event 5 (Entered CANCELLED) 3)\<lparr>e_job_id := 11\<rparr>]\<rparr>"

lemma demo_blocked_inv: "db_inv demo_blocked"
  by (simp add: db_inv_def keys_ok_def refs_ok_def forest_ok_def parents_first_def fences_ok_def
      fences_def owner_ok_def slots_ok_def results_ok_def budget_ok_def deps_ok_def history_ok_def
      history_def fleet_ok_def worker_ok_def REGISTRY_def demo_blocked_def demo_registered_def demo_rows
      less_Suc_eq_0_disj)

text \<open>
  Failure detection. A sweep that finds no worker row locked returns; afterwards no worker
  silent for longer than \<^verbatim>\<open>suspect_after\<close> is HEALTHY, every worker silent for \<^verbatim>\<open>dead_after\<close> or longer (beyond
  \<^verbatim>\<open>suspect_after\<close>) is DEAD, and a worker that is not silent keeps its row.
\<close>

lemma silent_workers_detected:
  assumes "reachable env c (db w)" and "scan_ok w" and "locked_workers w = []"
  shows "\<exists>w'. detect_workers suspect_after dead_after w = Inr ((), w')
    \<and> (\<forall>v \<in> set (workers (db w')).
         if w_last_seen v < clk w 0 - timedelta suspect_after
         then w_state v \<noteq> HEALTHY
           \<and> (dead_after \<le> of_int (clk w 0 - w_last_seen v) / 1000000 \<longrightarrow> w_state v = DEAD)
         else v \<in> set (workers (db w)))"
proof -
  let ?vs = "silent_workers suspect_after (clk w 0) w"
  obtain w' where run: "detect_workers suspect_after dead_after w = Inr ((), w')"
    and rows: "\<forall>v \<in> set (workers (db w')). (v \<in> set (workers (db w)) \<and> v \<notin> set ?vs)
        \<or> (\<exists>u \<in> set ?vs. v = judged dead_after (clk w 0) u)"
    by (rule detect_workers_returns [OF reachable_db_inv [OF assms(1)] assms(2)])
  have vs: "set ?vs = {v \<in> set (workers (db w)). w_state v \<noteq> DEAD
      \<and> w_last_seen v < clk w 0 - timedelta suspect_after}"
    using assms(2,3) by (auto simp: silent_workers_def scan_ok_def)
  have "if w_last_seen v < clk w 0 - timedelta suspect_after
      then w_state v \<noteq> HEALTHY
        \<and> (dead_after \<le> of_int (clk w 0 - w_last_seen v) / 1000000 \<longrightarrow> w_state v = DEAD)
      else v \<in> set (workers (db w))" if "v \<in> set (workers (db w'))" for v
    using bspec [OF rows that]
  proof (elim disjE conjE bexE)
    assume "v \<in> set (workers (db w))" "v \<notin> set ?vs"
    then show ?thesis unfolding vs by auto
  next
    fix u
    assume "u \<in> set ?vs" "v = judged dead_after (clk w 0) u"
    then show ?thesis unfolding vs by (auto simp: judged_def verdict_def)
  qed
  with run show ?thesis by blast
qed

section \<open>Credentials\<close>

text \<open>The bearer token a request carries and the one its route expects.\<close>

fun bearer :: "request \<Rightarrow> string option" where
  "bearer (SubmitReq auth b) = auth" | "bearer (CancelReq auth i) = auth"
| "bearer (DrainReq auth i) = auth" | "bearer (RegisterReq auth b) = auth"
| "bearer (HeartbeatReq auth i cr) = auth" | "bearer (ClaimReq auth b cr) = auth"
| "bearer (StartReq auth i b cr) = auth" | "bearer (RenewReq auth i b cr) = auth"
| "bearer (FinishReq auth i b cr) = auth" | "bearer RecoverTx = None" | "bearer DetectTx = None"

fun expected_token :: "settings \<Rightarrow> request \<Rightarrow> string" where
  "expected_token c (SubmitReq auth b) = cfg_client_token c"
| "expected_token c (CancelReq auth i) = cfg_client_token c"
| "expected_token c (DrainReq auth i) = cfg_client_token c"
| "expected_token c r = ws_worker_token c"

text \<open>
  A request without the bearer token its route expects is answered 401 and changes nothing;
  under accepted settings the worker token does not open a client route nor the client token a
  worker route, since the two differ.
\<close>

lemma unauthorized_has_no_effect:
  assumes "r \<noteq> RecoverTx" and "r \<noteq> DetectTx" and "bearer r \<noteq> Some (''Bearer '' @ expected_token c r)"
  shows "handle (transact env c r) w = (Inl (401, Detail ''Invalid bearer token'', []), w)"
proof -
  have "transact env c r w = Inl (HTTPException 401 (Detail ''Invalid bearer token''))"
    using assms by (cases r) (auto simp: effect_def submit_route_def cancel_route_def drain_route_def
        register_route_def Let_def heartbeat_route_def claim_route_def start_route_def renew_route_def
        finish_route_def client_def worker_def authorize_def tx_bind_def tx_raise_def)
  then show ?thesis by (simp add: handle_def run_tx_def)
qed

text \<open>
  A worker process that takes over the id of a DEAD worker revokes its session: a registration
  with a new token succeeds only on a DEAD id, afterwards the old session is refused with 401 and
  the new one accepted, and no job or attempt is touched (the old attempts stay fenced by
  their leases).
\<close>

lemma takeover_revokes_session:
  assumes "db_inv (db w)" and "worker_by_id (reg_worker_id body) (db w) = Some v"
    and "register_route env c auth body w = Inr (x, w1)"
    and "or_empty (w_session_hash v) \<noteq> sha256 env (reg_session_token body)"
    and "sha256 env old = or_empty (w_session_hash v)" and "sha256 env (reg_session_token body) \<noteq> []"
  shows "w_state v = DEAD \<and> jobs (db w1) = jobs (db w) \<and> attempts (db w1) = attempts (db w)
    \<and> identity env (reg_worker_id body) (Some old) w1
        = Inl (HTTPException 401 (Detail ''Invalid worker session''))
    \<and> (\<exists>v'. identity env (reg_worker_id body) (Some (reg_session_token body)) w1 = Inr (v', w1)
        \<and> w_state v' = HEALTHY \<and> \<not> w_drain_requested v')"
  using assms(3)
proof (cases rule: register_route_cases)
  case (takeover u)
  let ?f = "\<lambda>v. v\<lparr>w_session_hash := Some (sha256 env (reg_session_token body)),
    w_capacity := reg_capacity body, w_capabilities := reg_capabilities body,
    w_state := HEALTHY, w_last_seen := clk w 0, w_drain_requested := False\<rparr>"
  have u: "u = v" "w_id v = reg_worker_id body" "v \<in> set (workers (db w))"
    using takeover(1) assms(2) worker_by_id_Some [OF assms(2)] by auto
  have "worker_by_id (w_id v) (db w1) = Some (?f v)"
    using worker_table.update_same [OF inv_keys(4) [OF assms(1)] u(3), of ?f] takeover(4) u(2)
    by (simp add: worker_by_id_def row_simps)
  then have row: "worker_by_id (reg_worker_id body) (db w1) = Some (?f v)" by (simp add: u(2))
  then have "identity env (reg_worker_id body) (Some old) w1
      = Inl (HTTPException 401 (Detail ''Invalid worker session''))"
    using assms(4,5) by (simp add: identity_def tx_bind_def tx_get_def tx_raise_def Let_def or_empty_def)
  moreover have "identity env (reg_worker_id body) (Some (reg_session_token body)) w1 = Inr (?f v, w1)"
    using row assms(6) by (simp add: identity_iff or_empty_def)
  ultimately show ?thesis using takeover u by (auto simp: row_simps)
qed (use assms(2,4) in auto)

text \<open>
  A drain request survives the worker's silence. A worker marked for draining answers DRAINING to
  every authenticated heartbeat, also after it was declared dead, and keeps the mark, so
  its process is told to stop.
\<close>

lemma drained_worker_stays_draining:
  assumes "db_inv (db w)" and "worker_by_id wid (db w) = Some v" and "w_drain_requested v"
    and "heartbeat_route env c auth wid cred w = Inr (x, w1)"
  shows "x = DRAINING \<and> (\<exists>v'. worker_by_id wid (db w1) = Some v' \<and> w_state v' = DRAINING
    \<and> w_drain_requested v' \<and> w_last_seen v' = clk w 0)"
proof -
  let ?f = "\<lambda>v. v\<lparr>w_last_seen := clk w 0, w_state := resumed v\<rparr>"
  from assms(4) obtain u es where u: "identity env wid cred w = Inr (u, w)" "x = resumed u"
    "db w1 = (db w)\<lparr>workers := set_row w_id wid ?f (workers (db w)), system_events := es\<rparr>"
    by (rule heartbeat_route_iff)
  have v: "u = v" "w_id v = wid" "v \<in> set (workers (db w))"
    using u(1) assms(2) worker_by_id_Some [OF assms(2)] by (auto simp: identity_iff)
  have "worker_by_id (w_id v) (db w1) = Some (?f v)"
    using worker_table.update_same [OF inv_keys(4) [OF assms(1)] v(3), of ?f] u(3) v(2)
    by (simp add: worker_by_id_def)
  with v u(2) assms(3) show ?thesis by (simp add: resumed_def)
qed

section \<open>What clients read\<close>

text \<open>
  C35: the counters are exact. On a reachable database the metrics snapshot counts as submitted every
  job, as completed those that SUCCEEDED, as failed those that are FAILED or DEAD_LETTER, although
  it counts events; the active count is the one admission control compares with the limit; and
  reading it changes nothing.
\<close>

theorem metrics_match_jobs:
  assumes "reachable env c (db w)"
  shows "\<exists>data w'. snapshot env agg limit w = Inr (data, w') \<and> db w' = db w
    \<and> sn_submitted data = length (jobs (db w))
    \<and> sn_completed data = length (filter (\<lambda>j. j_status j = SUCCEEDED) (jobs (db w)))
    \<and> sn_failed data = length (filter (\<lambda>j. j_status j \<in> {FAILED, DEAD_LETTER}) (jobs (db w)))
    \<and> int (sn_admitted_active data) = admitted_active (db w)"
  by (rule snapshot_counters [OF reachable_db_inv [OF assms]])

theorem metrics_match_jobs_witness:
  "\<exists>data w'. snapshot demo_env \<lparr>pg_avg = \<lambda>xs. None, pg_percentile_cont = \<lambda>q xs. None\<rparr> 100
      (demo_world demo_done 9000 30) = Inr (data, w')
    \<and> sn_submitted data = 1 \<and> sn_completed data = 1 \<and> sn_failed data = 0"
  using metrics_match_jobs [of demo_env demo_settings "demo_world demo_done 9000 30"
      "\<lparr>pg_avg = \<lambda>xs. None, pg_percentile_cont = \<lambda>q xs. None\<rparr>" 100] demo_done_reachable
  by (auto simp: demo_dbs demo_job_def)

lemma batch_lookup:
  "k \<in> K \<Longrightarrow> map_of (map (\<lambda>r. (key r, r)) (filter (\<lambda>r. key r \<in> K) rs)) k = find_row key k rs"
  by (induction rs) (auto simp: find_row_def)

text \<open>
  A page of jobs shows each job exactly as its own route does: attaching the results loaded
  in one batch gives the answer of the single lookup.
\<close>

lemma page_matches_single_jobs:
  assumes "db_inv (db w)" and "client c auth w = Inr ((), w)"
  shows "\<exists>outs. jobs_route env c auth limit offset state w = Inr (outs, w)
    \<and> list_all2 (\<lambda>j out. job_route env c auth (j_id j) w = Inr (out, w))
        (jobs_page limit offset state (db w)) outs"
proof -
  let ?rows = "jobs_page limit offset state (db w)"
  let ?found = "map_of (map (\<lambda>r. (r_job_id r, r))
      (filter (\<lambda>r. r_job_id r \<in> j_id ` set ?rows) (results (db w))))"
  have known: "?rows ! n \<in> set (jobs (db w))" if "n < length ?rows" for n
    using nth_mem [OF that] by (auto simp: jobs_page_def dest!: in_set_takeD in_set_dropD)
  have batch: "?found (j_id j) = result_by_job (j_id j) (db w)" if "j \<in> set ?rows" for j
    using that by (simp add: batch_lookup result_by_job_def)
  have "job_route env c auth (j_id (?rows ! n)) w
      = Inr (serialize env (db w) (Some ?found) (?rows ! n), w)" if "n < length ?rows" for n
    using inv_parts(1) [OF assms(1)] known [OF that] batch [OF nth_mem [OF that]] assms(2)
    by (simp add: job_route_def get_job_def tx_bind_def tx_get_def tx_return_def serialize_def
        job_by_id_def keys_ok_def job_table.lookup_unique)
  moreover have "jobs_route env c auth limit offset state w
      = Inr (map (serialize env (db w) (Some ?found)) ?rows, w)"
    using assms(2) by (simp add: jobs_route_def tx_bind_def tx_get_def Let_def)
  ultimately show ?thesis by (auto simp: list_all2_conv_all_nth)
qed

end
