(* ===== verification/Executors.thy ===== *)
theory Executors
  imports Protocol
begin

text \<open>
  \<^verbatim>\<open>greyqueue/executors.py\<close>: how one job's execution becomes the result the worker reports. A result
  is the dictionary the program builds (a JSON object). What the operating system and the
  event loop contribute (a process ending, a deadline passing, an exception in the pool) is
  the observation the strategy is given; the JSON decoder is the parameter \<open>loads\<close>.
\<close>

section \<open>Results\<close>

record exec_job =
  ej_task :: string
  ej_args :: json
  ej_attempt_count :: "int option"
  ej_timeout :: seconds

definition failure :: "string \<Rightarrow> bool \<Rightarrow> json" where
  "failure err retryable = JObj [(''error'', JStr err), (''retryable'', JBool retryable)]"

definition success :: "json \<Rightarrow> json" where
  "success out = JObj [(''output'', out)]"

text \<open>An exception other than the two that are caught leaves \<^verbatim>\<open>invoke\<close>.\<close>

definition invoke :: "env \<Rightarrow> exec_job \<Rightarrow> exn + json" where
  "invoke env job =
     (case execute env (ej_task job) (ej_args job)
         (case ej_attempt_count job of None \<Rightarrow> 1 | Some n \<Rightarrow> n) of
        Inr (slept, out) \<Rightarrow> Inr (success out)
      | Inl (RetryableTaskError m) \<Rightarrow> Inr (failure (message (RetryableTaskError m)) True)
      | Inl e \<Rightarrow> if is_value_error e then Inr (failure (message e) False) else Inl e)"

definition has_key :: "string \<Rightarrow> json \<Rightarrow> bool" where
  "has_key k v = (case v of JObj kvs \<Rightarrow> k \<in> fst ` set kvs | _ \<Rightarrow> False)"

definition is_dict :: "json \<Rightarrow> bool" where
  "is_dict v = (case v of JObj kvs \<Rightarrow> True | _ \<Rightarrow> False)"

definition parse_output :: "(string \<Rightarrow> json option) \<Rightarrow> string \<Rightarrow> json" where
  "parse_output loads stdout =
     (case loads stdout of
        None \<Rightarrow> failure ''Task produced invalid output'' False
      | Some result \<Rightarrow>
          if \<not> is_dict result \<or> has_key ''output'' result = has_key ''error'' result
          then failure ''Task produced invalid output'' False else result)"

definition dict_get :: "string \<Rightarrow> json \<Rightarrow> json" where
  "dict_get k v = (case v of JObj kvs \<Rightarrow> (case map_of kvs k of None \<Rightarrow> JNull | Some x \<Rightarrow> x) | _ \<Rightarrow> JNull)"

definition bounded :: "env \<Rightarrow> json \<Rightarrow> json" where
  "bounded env result =
     (if \<not> has_key ''output'' result then result
      else case dumps (float_repr env) False (dict_get ''output'' result) of
        None \<Rightarrow> failure ''Task output is not JSON-serialisable'' False
      | Some encoded \<Rightarrow>
          if OUTPUT_LIMIT < length encoded
          then failure (''Task output exceeds '' @ nat_text OUTPUT_LIMIT @ '' characters'') False
          else if sublist nul_escape encoded then failure ''Task output contains NUL characters'' False
          else result)"

section \<open>Strategies\<close>

text \<open>
  What a strategy observes of one execution: the callable's own end, an exception of the
  machinery around it, the deadline, or the end of a task process with its return code and streams.
\<close>

datatype observation =
    Returned
  | Raised exn
  | Deadline
  | Exited int string string
  | PoolBroken

definition last_chars :: "nat \<Rightarrow> string \<Rightarrow> string" where
  "last_chars n s = drop (length s - n) s"

definition subprocess_result :: "(string \<Rightarrow> json option) \<Rightarrow> observation \<Rightarrow> exn + json" where
  "subprocess_result loads obs =
     (case obs of
        Exited code stdout stderr \<Rightarrow>
          if code \<noteq> 0
          then Inr (failure (''Task process exited '' @ int_text code @ '': '' @ last_chars 1000 stderr) True)
          else Inr (parse_output loads stdout)
      | Raised e \<Rightarrow> Inl e
      | _ \<Rightarrow> Inr (failure ''Task execution timeout'' True))"

definition dispatch :: "env \<Rightarrow> (string \<Rightarrow> json option) \<Rightarrow> string \<Rightarrow> exec_job \<Rightarrow> observation \<Rightarrow> exn + json" where
  "dispatch env loads strategy job obs =
     (if strategy = ''subprocess'' then subprocess_result loads obs
      else if strategy = ''hybrid'' \<and> ej_task job = ''sleep'' then
        (case obs of
           Returned \<Rightarrow> Inr (success (JObj [(''slept_seconds'', dict_get ''seconds'' (ej_args job))]))
         | Raised e \<Rightarrow> Inl e
         | _ \<Rightarrow> Inr (failure ''Task execution timeout'' True))
      else
        (case obs of
           Returned \<Rightarrow> invoke env job
         | Raised e \<Rightarrow> Inl e
         | _ \<Rightarrow> Inr (failure ''Task execution timeout (pool callable drained)'' True)))"

text \<open>\<^verbatim>\<open>Executor.run\<close>: a broken pool is raised (\<open>None\<close>), every other exception is the job's failure.\<close>

definition run_job ::
    "env \<Rightarrow> (string \<Rightarrow> json option) \<Rightarrow> string \<Rightarrow> exec_job \<Rightarrow> observation \<Rightarrow> json option" where
  "run_job env loads strategy job obs =
     (if obs = PoolBroken then None
      else Some (case dispatch env loads strategy job obs of
        Inr result \<Rightarrow> bounded env result
      | Inl e \<Rightarrow> failure (''Executor failed: '' @ message e) True))"

text \<open>The task process (\<^verbatim>\<open>python -m greyqueue.tasks\<close>): what it writes to stdout, or its exception.\<close>

definition tasks_main :: "env \<Rightarrow> exec_job \<Rightarrow> exn + string" where
  "tasks_main env request =
     (case invoke env request of
        Inl e \<Rightarrow> Inl e
      | Inr result \<Rightarrow> (case dumps (float_repr env) False result of
          None \<Rightarrow> Inl (ValueError ''Out of range float values are not JSON compliant'')
        | Some text \<Rightarrow> Inr text))"

section \<open>Lemmas\<close>

lemma has_key_failure [simp]:
  "has_key ''error'' (failure e r)" "\<not> has_key ''output'' (failure e r)"
  "has_key ''output'' (success out)" "\<not> has_key ''error'' (success out)"
  "is_dict (failure e r)" "is_dict (success out)" "dict_get ''output'' (success out) = out"
  by (simp_all add: has_key_def failure_def success_def is_dict_def dict_get_def)

text \<open>A result names an output or an error, never both.\<close>

definition one_sided :: "json \<Rightarrow> bool" where
  "one_sided v \<longleftrightarrow> is_dict v \<and> has_key ''output'' v \<noteq> has_key ''error'' v"

lemma one_sided_basic: "one_sided (failure e r)" "one_sided (success out)"
  by (simp_all add: one_sided_def)

lemma parse_output_one_sided: "one_sided (parse_output loads s)"
  by (auto simp: parse_output_def one_sided_def split: option.splits)

lemma invoke_one_sided: "invoke env job = Inr r \<Longrightarrow> one_sided r"
  by (auto simp: invoke_def one_sided_basic split: sum.splits exn.splits if_splits)

lemma dispatch_one_sided: "dispatch env loads strategy job obs = Inr r \<Longrightarrow> one_sided r"
  by (auto simp: dispatch_def subprocess_result_def one_sided_basic parse_output_one_sided
      dest: invoke_one_sided split: observation.splits if_splits)

lemma bounded_one_sided: "one_sided r \<Longrightarrow> one_sided (bounded env r)"
  by (auto simp: bounded_def one_sided_basic split: option.splits)

lemma bounded_storable:
  assumes "has_key ''output'' (bounded env r)"
  shows "bounded env r = r"
    and "\<exists>e. storable (float_repr env) (dict_get ''output'' r) OUTPUT_LIMIT label = Inr e"
  using assms by (auto simp: bounded_def storable_def split: option.splits if_splits)

section \<open>Properties\<close>



text \<open>
  Running a task in a process of its own reports what running it in the worker would: if the
  decoder inverts the encoder on the task's result, the subprocess strategy's result is that
  of \<^verbatim>\<open>invoke\<close>.
\<close>

lemma subprocess_matches_invoke:
  assumes "invoke env job = Inr r" and "tasks_main env job = Inr text" and "loads text = Some r"
  shows "run_job env loads ''subprocess'' job (Exited 0 text [])
    = run_job env loads ''thread'' job Returned"
proof -
  have "parse_output loads text = r"
    using assms(3) invoke_one_sided [OF assms(1)] by (simp add: parse_output_def one_sided_def)
  with assms(1) show ?thesis by (simp add: run_job_def dispatch_def subprocess_result_def)
qed

end
