(* ===== verification/Middleware.thy ===== *)
theory Middleware
  imports Json
begin

text \<open>
  \<^verbatim>\<open>greyqueue/middleware.py\<close>: \<^verbatim>\<open>BoundRequests\<close>, which reads a whole request body under a size and a
  time bound before the application sees it, replays it, and adds headers to the response. The
  messages the server delivers are a list; the passing of the ten seconds is an event in it.
\<close>

section \<open>Reading the body\<close>

datatype message_event = Request string bool | Disconnect | BodyTimeout

record scope =
  sc_type :: string
  sc_scheme :: string
  sc_path :: string

text \<open>Refused with a status and a detail, dropped, or passed on with the messages to replay.\<close>

datatype decision = Reply nat string | Dropped | Forward "(string \<times> bool) list" | Passthrough

definition BODY_LIMIT :: nat where
  "BODY_LIMIT = 131072"

text \<open>The receive loop; \<open>None\<close> while the server has delivered nothing decisive yet.\<close>

fun read_body :: "nat \<Rightarrow> (string \<times> bool) list \<Rightarrow> message_event list \<Rightarrow> decision option" where
  "read_body got seen [] = None"
| "read_body got seen (Disconnect # rest) = Some Dropped"
| "read_body got seen (BodyTimeout # rest) = Some (Reply 408 ''Request body timeout'')"
| "read_body got seen (Request body cont # rest) =
     (if BODY_LIMIT < got + length body then Some (Reply 413 ''Request too large'')
      else if \<not> cont then Some (Forward (seen @ [(body, cont)]))
      else read_body (got + length body) (seen @ [(body, cont)]) rest)"

definition bound_requests :: "bool \<Rightarrow> scope \<Rightarrow> message_event list \<Rightarrow> decision option" where
  "bound_requests require_tls sc incoming =
     (if sc_type sc \<noteq> ''http'' then Some Passthrough
      else if require_tls \<and> sc_scheme sc \<noteq> ''https'' \<and> sc_path sc \<noteq> ''/health''
      then Some (Reply 426 ''HTTPS required'')
      else read_body 0 [] incoming)"

section \<open>Replaying the body\<close>

text \<open>\<^verbatim>\<open>replay\<close>: the stored messages first, then whatever the server delivers.\<close>

fun replay :: "(string \<times> bool) list \<Rightarrow> message_event list
    \<Rightarrow> (message_event \<times> (string \<times> bool) list \<times> message_event list) option" where
  "replay ((body, cont) # messages) incoming = Some (Request body cont, messages, incoming)"
| "replay [] (e # incoming) = Some (e, [], incoming)"
| "replay [] [] = None"

section \<open>Response headers\<close>

definition squote :: "string \<Rightarrow> string" where
  "squote s = [CHR 0x27] @ s @ [CHR 0x27]"

definition STRICT_POLICY :: string where
  "STRICT_POLICY =
     ''default-src '' @ squote ''self'' @ ''; script-src '' @ squote ''self''
     @ ''; style-src '' @ squote ''self'' @ ''; frame-ancestors '' @ squote ''none''"

definition DOCS_POLICY :: string where
  "DOCS_POLICY =
     ''default-src '' @ squote ''self''
     @ ''; script-src '' @ squote ''self'' @ '' '' @ squote ''unsafe-inline'' @ '' https://cdn.jsdelivr.net''
     @ ''; style-src '' @ squote ''self'' @ '' '' @ squote ''unsafe-inline'' @ '' https://cdn.jsdelivr.net''
     @ ''; img-src '' @ squote ''self'' @ '' data: https://fastapi.tiangolo.com''
     @ ''; frame-ancestors '' @ squote ''none''"

definition added_headers :: "string \<Rightarrow> string \<Rightarrow> (string \<times> string) list" where
  "added_headers path request_id =
     [(''x-request-id'', request_id), (''x-content-type-options'', ''nosniff''),
      (''cache-control'', ''no-store''),
      (''content-security-policy'',
       if path = ''/docs'' \<or> path = ''/redoc'' then DOCS_POLICY else STRICT_POLICY)]"

section \<open>What the application sees\<close>

definition as_request :: "string \<times> bool \<Rightarrow> message_event" where
  "as_request m = Request (fst m) (snd m)"

definition body_size :: "(string \<times> bool) list \<Rightarrow> nat" where
  "body_size ms = (\<Sum>m\<leftarrow>ms. length (fst m))"

lemma read_body_forward:
  assumes "read_body got seen incoming = Some (Forward ms)" and "got \<le> BODY_LIMIT"
  obtains new rest where "ms = seen @ new" "incoming = map as_request new @ rest" "new \<noteq> []"
    "got + body_size new \<le> BODY_LIMIT" "\<forall>m \<in> set (butlast new). snd m" "\<not> snd (last new)"
  using assms
proof (induction got seen incoming arbitrary: thesis rule: read_body.induct)
  case (4 got seen body cont rest)
  have fits: "got + length body \<le> BODY_LIMIT" using 4(3) by (auto split: if_splits)
  show ?case
  proof (cases cont)
    case False
    with 4(3) fits show ?thesis
      by (intro 4(2) [of "[(body, cont)]" rest]) (auto simp: as_request_def body_size_def split: if_splits)
  next
    case True
    then have "read_body (got + length body) (seen @ [(body, cont)]) rest = Some (Forward ms)"
      using 4(3) fits by simp
    then obtain new rest' where n: "ms = (seen @ [(body, cont)]) @ new" "rest = map as_request new @ rest'"
      "new \<noteq> []" "got + length body + body_size new \<le> BODY_LIMIT" "\<forall>m \<in> set (butlast new). snd m"
      "\<not> snd (last new)"
      using 4(1) fits True by (metis not_le)
    then show ?thesis
      by (intro 4(2) [of "(body, cont) # new" rest'])
        (auto simp: as_request_def body_size_def True)
  qed
qed auto

text \<open>The messages \<^verbatim>\<open>replay\<close> delivers, in order.\<close>

fun replayed :: "nat \<Rightarrow> (string \<times> bool) list \<Rightarrow> message_event list \<Rightarrow> message_event list" where
  "replayed 0 ms incoming = []"
| "replayed (Suc n) ms incoming =
     (case replay ms incoming of None \<Rightarrow> [] | Some (e, ms', incoming') \<Rightarrow> e # replayed n ms' incoming')"

lemma replayed_take: "replayed n ms rest = take n (map as_request ms @ rest)"
proof (induction n arbitrary: ms rest)
  case (Suc n)
  show ?case
  proof (cases ms)
    case Nil
    then show ?thesis using Suc by (cases rest) auto
  next
    case (Cons m ms')
    then show ?thesis using Suc by (cases m) (auto simp: as_request_def)
  qed
qed simp

text \<open>
  C34: a request the middleware lets through is complete and at most 131072 bytes, and the
  application receives exactly the messages the server delivered, in the same order, as if it
  had read them itself.
\<close>

theorem forwarded_requests_bounded:
  assumes "sc_type sc = ''http''" and "bound_requests tls sc incoming = Some (Forward ms)"
  shows "body_size ms \<le> 131072 \<and> ms \<noteq> [] \<and> \<not> snd (last ms) \<and> (\<forall>m \<in> set (butlast ms). snd m)
    \<and> replayed n ms (drop (length ms) incoming) = take n incoming"
proof -
  have "read_body 0 [] incoming = Some (Forward ms)"
    using assms by (auto simp: bound_requests_def split: if_splits)
  then obtain rest where ms: "incoming = map as_request ms @ rest" "ms \<noteq> []" "body_size ms \<le> BODY_LIMIT"
    "\<forall>m \<in> set (butlast ms). snd m" "\<not> snd (last ms)"
    by (rule read_body_forward) auto
  then show ?thesis by (simp add: BODY_LIMIT_def replayed_take)
qed

theorem forwarded_requests_bounded_witness:
  "bound_requests False \<lparr>sc_type = ''http'', sc_scheme = ''http'', sc_path = ''/jobs''\<rparr>
     [Request ''ab'' True, Request ''c'' False] = Some (Forward [(''ab'', True), (''c'', False)])
   \<and> body_size [(''ab'', True), (''c'', False)] \<le> 131072"
proof -
  let ?sc = "\<lparr>sc_type = ''http'', sc_scheme = ''http'', sc_path = ''/jobs''\<rparr>"
  have "sc_type ?sc = ''http''" by simp
  moreover have run: "bound_requests False ?sc [Request ''ab'' True, Request ''c'' False]
      = Some (Forward [(''ab'', True), (''c'', False)])"
    by (simp add: bound_requests_def BODY_LIMIT_def)
  ultimately show ?thesis using forwarded_requests_bounded by blast
qed

end
