(* ===== verification/Worker.thy ===== *)
theory Worker
  imports Executors
begin

text \<open>
  \<^verbatim>\<open>greyqueue/worker.py\<close>: the worker process as a function of what the coordinator answers: the
  retrying \<^verbatim>\<open>post\<close>, the report of a result, one round of a slot's loop, the heartbeat, and the
  identity it registers with. Scheduling of the asyncio tasks is not modelled; what a round
  does is determined by the outcomes of its calls, in their order.
\<close>

section \<open>Calling the coordinator\<close>

definition TRANSIENT :: "nat set" where "TRANSIENT = {408, 429}"

definition FENCED :: "nat set" where "FENCED = {404, 409}"

definition REJECTED :: "nat set" where "REJECTED = {413, 422}"

datatype reply = Response nat json | TransportError string

datatype post_outcome = Answer json | StatusError nat

text \<open>
  \<^verbatim>\<open>post\<close>: the delays slept and the outcome, \<open>None\<close> while every reply so far asked for a retry.
  \<^verbatim>\<open>raise_for_status\<close> accepts the 2xx statuses.
\<close>

definition decisive :: "reply \<Rightarrow> bool" where
  "decisive r = (case r of Response st body \<Rightarrow> st < 500 \<and> st \<notin> TRANSIENT | TransportError e \<Rightarrow> False)"

definition outcome_of :: "reply \<Rightarrow> post_outcome" where
  "outcome_of r =
     (case r of Response st body \<Rightarrow> if 200 \<le> st \<and> st < 300 then Answer body else StatusError st
      | TransportError e \<Rightarrow> StatusError 0)"

fun post_from :: "rat \<Rightarrow> reply list \<Rightarrow> rat list \<times> post_outcome option" where
  "post_from delay [] = ([], None)"
| "post_from delay (r # rs) =
     (if decisive r then ([], Some (outcome_of r))
      else let (slept, out) = post_from (min (delay * 2) 3) rs in (delay # slept, out))"

definition post :: "reply list \<Rightarrow> rat list \<times> post_outcome option" where
  "post replies = post_from (2 / 10) replies"

section \<open>Reporting a result\<close>

definition rejection :: "nat \<Rightarrow> json" where
  "rejection status =
     failure (''Coordinator rejected the result (HTTP '' @ nat_text status @ '')'') False"

text \<open>\<^verbatim>\<open>finish\<close>: the result that was recorded, or the status error it raises.\<close>

definition report :: "json \<Rightarrow> post_outcome \<Rightarrow> post_outcome \<Rightarrow> nat + json" where
  "report result first second =
     (case first of
        Answer _ \<Rightarrow> Inr result
      | StatusError st \<Rightarrow>
          if st \<notin> REJECTED then Inl st
          else (case second of Answer _ \<Rightarrow> Inr (rejection st) | StatusError st' \<Rightarrow> Inl st'))"

section \<open>One round of a slot\<close>

datatype round_end = Polled | Crashed nat | Dropped_job nat | Recorded string

definition fenced_or_crash :: "nat \<Rightarrow> round_end" where
  "fenced_or_crash st = (if st \<in> FENCED then Dropped_job st else Crashed st)"

text \<open>
  \<^verbatim>\<open>renewal\<close> is the status that ended the renewal task before the execution did, if any; the
  renewal loop ends only by raising.
\<close>

definition consume_round ::
    "post_outcome \<Rightarrow> post_outcome \<Rightarrow> nat option \<Rightarrow> json \<Rightarrow> post_outcome \<Rightarrow> post_outcome \<Rightarrow> round_end"
  where
  "consume_round claimed started renewal result first second =
     (case claimed of
        StatusError st \<Rightarrow> if st \<noteq> 409 then Crashed st else Polled
      | Answer assignment \<Rightarrow>
          if assignment = JNull then Polled
          else (case started of
             StatusError st \<Rightarrow> fenced_or_crash st
           | Answer _ \<Rightarrow>
          (case renewal of
             Some st \<Rightarrow> fenced_or_crash st
           | None \<Rightarrow>
          (case report result first second of
             Inl st \<Rightarrow> fenced_or_crash st
           | Inr recorded \<Rightarrow>
               Recorded (if has_key ''error'' recorded then ''FAILED'' else ''SUCCEEDED'')))))"

section \<open>The heartbeat\<close>

text \<open>Whether the replies of successive heartbeats set the stop flag, or a status error ends the task.\<close>

fun heartbeat :: "post_outcome list \<Rightarrow> bool \<Rightarrow> nat + bool" where
  "heartbeat [] stopped = Inr stopped"
| "heartbeat (StatusError st # rest) stopped = Inl st"
| "heartbeat (Answer body # rest) stopped =
     heartbeat rest (stopped \<or> dict_get ''state'' body = JStr ''DRAINING'')"

section \<open>Identity\<close>

text \<open>\<^verbatim>\<open>config.worker_id or f"worker-{uuid4().hex[:12]}"\<close>.\<close>

definition own_id :: "worker_settings \<Rightarrow> uuid \<Rightarrow> string" where
  "own_id config u =
     (if ws_worker_id config = [] then ''worker-'' @ take 12 (padded 16 32 u) else ws_worker_id config)"

definition registration_body :: "worker_settings \<Rightarrow> uuid \<Rightarrow> string \<Rightarrow> registration" where
  "registration_body config u credential =
     \<lparr>reg_worker_id = own_id config u, reg_capacity = ws_capacity config,
      reg_capabilities = ws_capabilities config, reg_session_token = credential\<rparr>"

section \<open>Lemmas\<close>

lemma capped_doubling:
  assumes "0 < x" and "1 \<le> (p::rat)"
  shows "min (min (x * 2) 3 * p) 3 = min (x * (2 * p)) 3"
proof (cases "x * 2 \<le> 3")
  case False
  have "3 * 1 \<le> x * 2 * p" using False assms by (intro mult_mono) auto
  with False assms show ?thesis by (simp add: min_def mult.assoc)
qed (simp add: min_def mult.assoc)

lemma post_from_delays:
  assumes "0 < delay" and "delay \<le> 3" and "post_from delay rs = (slept, out)" and "i < length slept"
  shows "slept ! i = min (delay * 2 ^ i) 3"
  using assms
proof (induction delay rs arbitrary: slept i out rule: post_from.induct)
  case (2 delay r rs)
  obtain ss last where ss: "post_from (min (delay * 2) 3) rs = (ss, last)" by fastforce
  have slept: "slept = delay # ss" "\<not> decisive r" using 2(4,5) ss by (auto split: if_splits)
  show ?case
  proof (cases i)
    case 0
    with slept 2(3) show ?thesis by simp
  next
    case (Suc k)
    have "ss ! k = min (min (delay * 2) 3 * 2 ^ k) 3"
      using 2(1) [OF slept(2) _ _ ss] 2(2,5) slept Suc by simp
    with slept Suc capped_doubling [OF 2(2), of "2 ^ k"] show ?thesis by simp
  qed
qed simp

lemma post_from_outcome:
  "snd (post_from delay rs) = (case find decisive rs of None \<Rightarrow> None | Some r \<Rightarrow> Some (outcome_of r))"
  by (induction delay rs rule: post_from.induct) (auto simp: case_prod_beta)

lemma fenced_or_crash_iff: "fenced_or_crash st = Crashed st' \<longleftrightarrow> st' = st \<and> st \<notin> FENCED"
  by (auto simp: fenced_or_crash_def)

section \<open>Properties\<close>

text \<open>
  \<^verbatim>\<open>post\<close> retries exactly the transport errors, the 5xx and the statuses 408 and 429: its
  outcome is that of the first other reply, and before its i-th retry it sleeps 0.2 seconds
  doubled i times, never more than 3.
\<close>

lemma post_backoff:
  "snd (post replies) = (case find decisive replies of None \<Rightarrow> None | Some r \<Rightarrow> Some (outcome_of r))
   \<and> fst (post replies) = map (\<lambda>i. min (2 / 10 * 2 ^ i) 3)
        [0..<length (takeWhile (\<lambda>r. \<not> decisive r) replies)]"
proof -
  have len: "length (fst (post_from delay replies)) = length (takeWhile (\<lambda>r. \<not> decisive r) replies)"
    for delay by (induction delay replies rule: post_from.induct) (auto simp: case_prod_beta)
  obtain slept out where run: "post_from (2 / 10) replies = (slept, out)" by fastforce
  have "slept ! i = min (2 / 10 * 2 ^ i) 3" if "i < length slept" for i
    using post_from_delays [OF _ _ run that] by simp
  moreover have "length slept = length (takeWhile (\<lambda>r. \<not> decisive r) replies)"
    using len [of "2 / 10"] run by simp
  ultimately have "slept = map (\<lambda>i. min (2 / 10 * 2 ^ i) 3)
      [0..<length (takeWhile (\<lambda>r. \<not> decisive r) replies)]"
    by (intro nth_equalityI) auto
  then show ?thesis using post_from_outcome [of "2 / 10" replies] run by (simp add: post_def)
qed

text \<open>
  Losing a lease never takes the worker down. A round crashes only on a status that is
  neither 404 nor 409 (for the claim itself: other than 409), and a refused result (413, 422)
  crashes it only if the short failure report that replaces the result is refused too.
\<close>

lemma fencing_never_crashes:
  assumes "consume_round claimed started renewal result first second = Crashed st"
  shows "st \<noteq> 409 \<and> (st = 404 \<longrightarrow> claimed = StatusError 404)
    \<and> (st \<in> REJECTED \<longrightarrow> claimed = StatusError st \<or> started = StatusError st \<or> renewal = Some st
         \<or> (\<exists>st'. first = StatusError st' \<and> st' \<in> REJECTED \<and> second = StatusError st))"
  using assms unfolding consume_round_def report_def
  by (auto simp: fenced_or_crash_iff FENCED_def REJECTED_def
      split: post_outcome.splits option.splits sum.splits if_splits)

text \<open>
  The failure the worker reports in place of a refused result always passes the
  coordinator's \<^verbatim>\<open>Completion\<close> model, so the replacement cannot be refused for its contents.
\<close>

lemma rejection_report_accepted:
  assumes "Identity_fields wid" and "st \<in> REJECTED"
  shows "\<exists>e. rejection st = failure e False \<and> Completion_accepted env \<lparr>as_worker_id = wid, as_token = tok,
     co_output = None, co_error = Some e, co_retryable = False\<rparr>"
proof -
  define e where "e = ''Coordinator rejected the result (HTTP '' @ nat_text st @ '')''"
  have digits: "nat_text 413 = ''413''" "nat_text 422 = ''422''"
    by (simp_all add: nat_text.simps digit_char_def)
  have ok: "\<not> sublist nul_escape (quoted e)" "length (quoted e) \<le> 60" "1 \<le> length e" "length e \<le> 4000"
    using assms(2) digits
    by (auto simp: e_def REJECTED_def quoted_def escape_char_def nul_escape_def sublist_code)
  have "Completion_accepted env \<lparr>as_worker_id = wid, as_token = tok, co_output = None,
      co_error = Some e, co_retryable = False\<rparr>"
    using assms(1) ok
    by (simp add: Completion_accepted_def result_shape_def storable_def opt_json_def opt_str_def
        OUTPUT_LIMIT_def TEXT_LIMIT_def nul_escape_def sublist_code)
  then show ?thesis by (intro exI [of _ e]) (simp add: rejection_def e_def)
qed

text \<open>
  A worker started from accepted settings registers with an accepted body: its generated or
  configured ID matches the coordinator's pattern, provided its capabilities are known tasks
  and its session token has 32 to 128 characters.
\<close>

lemma registration_accepted:
  assumes "WorkerSettings_fields config" and "ws_capabilities config \<noteq> []"
    and "set (ws_capabilities config) \<subseteq> fst ` set REGISTRY" and "length (ws_capabilities config) \<le> 32"
    and "32 \<le> length credential" and "length credential \<le> 128"
  shows "Registration_accepted (registration_body config u credential)"
proof -
  have "\<forall>k < 16. id_char (''0123456789abcdef'' ! k)" by code_simp
  then have digits: "id_char (digit_char n)" for n by (simp add: digit_char_def)
  have hex: "list_all id_char (padded b k n) \<and> length (padded b k n) = k" for b k n
    by (induction b k n rule: padded.induct) (auto simp: digits)
  have "list_all id_char (take 12 (padded 16 32 u))" "length (padded 16 32 u) = 32"
    using hex [of 16 32 u] by (auto simp: list_all_iff dest: in_set_takeD)
  then have "Identity_fields (own_id config u)"
    using assms(1) by (cases "ws_worker_id config")
      (auto simp: own_id_def Identity_fields_def WORKER_ID_def WorkerSettings_fields_def id_char_def)
  with assms show ?thesis
    by (simp add: Registration_accepted_def registration_body_def known_capabilities_def
        WorkerSettings_fields_def)
qed

end
