(* ===== verification/Migrations.thy ===== *)
theory Migrations
  imports Json
begin

text \<open>
  \<^verbatim>\<open>migrations/versions\<close>: the four Alembic revisions as programs over a catalogue of tables, run on
  the rows they find. The operations are those of \<^verbatim>\<open>alembic.op\<close> the scripts call, with the errors
  PostgreSQL answers them with; how PostgreSQL names an unnamed constraint and evaluates a column's
  default for existing rows are parameters.
\<close>

section \<open>Catalogues\<close>

datatype col_type = UuidType | StringType nat | IntegerType | BigIntegerType | FloatType
  | BooleanType | TextType | JsonbType | DateTimeTz

datatype server_default = Literal string | Expression string

record column =
  c_name :: string
  c_type :: col_type
  c_default :: "server_default option"
  c_nullable :: bool

text \<open>The predicates of the check constraints and of the partial indexes.\<close>

datatype cell = NULL | Txt string | Num int | Flag bool | Val string

type_synonym row = "string \<Rightarrow> cell"

datatype predicate = In string "string list" | IsNull string | NotNull string | Both predicate predicate

fun holds_on :: "predicate \<Rightarrow> row \<Rightarrow> bool" where
  "holds_on (In col vals) r = (\<exists>v \<in> set vals. r col = Txt v)"
| "holds_on (IsNull col) r = (r col = NULL)"
| "holds_on (NotNull col) r = (r col \<noteq> NULL)"
| "holds_on (Both p q) r = (holds_on p r \<and> holds_on q r)"

fun mentions :: "predicate \<Rightarrow> string list" where
  "mentions (In col vals) = [col]"
| "mentions (IsNull col) = [col]"
| "mentions (NotNull col) = [col]"
| "mentions (Both p q) = mentions p @ mentions q"

datatype constr =
    PrimaryKey (con_name: string) "string list"
  | ForeignKey (con_name: string) "string list" string "string list"
  | Unique (con_name: string) "string list"
  | Check (con_name: string) predicate

fun con_columns :: "constr \<Rightarrow> string list" where
  "con_columns (PrimaryKey n cols) = cols"
| "con_columns (ForeignKey n cols ref rcols) = cols"
| "con_columns (Unique n cols) = cols"
| "con_columns (Check n p) = mentions p"

record index =
  ix_name :: string
  ix_columns :: "string list"
  ix_unique :: bool
  ix_where :: "predicate option"

record tbl =
  t_columns :: "column list"
  t_constraints :: "constr list"
  t_indexes :: "index list"
  t_sequence :: "(string \<times> col_type) option"

record catalog =
  cat_tables :: "(string \<times> tbl) list"
  cat_rows :: "string \<Rightarrow> row list"
  cat_last_value :: "string \<Rightarrow> int"

definition empty_catalog :: catalog where
  "empty_catalog = \<lparr>cat_tables = [], cat_rows = \<lambda>t. [], cat_last_value = \<lambda>s. 1\<rparr>"

datatype mig_error =
    UndefinedTable string | DuplicateTable string | UndefinedColumn string | DuplicateColumn string
  | UndefinedObject string | DuplicateObject string | DependentObjects string
  | CheckViolation string | UniqueViolation string | ForeignKeyViolation string | OutOfRange string
  | RuntimeError string

type_synonym mig = "catalog \<Rightarrow> mig_error + catalog"

text \<open>A revision is a sequence of operations; the first error ends it (and rolls it back).\<close>

fun run_ops :: "mig list \<Rightarrow> mig" where
  "run_ops [] c = Inr c"
| "run_ops (m # ms) c = (case m c of Inl e \<Rightarrow> Inl e | Inr c' \<Rightarrow> run_ops ms c')"

record postgres =
  pg_name :: "string \<Rightarrow> string list \<Rightarrow> string \<Rightarrow> string"
  pg_default :: "col_type \<Rightarrow> server_default \<Rightarrow> nat \<Rightarrow> cell"

section \<open>Operations\<close>

definition tbl_put :: "string \<Rightarrow> tbl \<Rightarrow> catalog \<Rightarrow> catalog" where
  "tbl_put t tb c = c\<lparr>cat_tables := map (\<lambda>(n, x). (n, if n = t then tb else x)) (cat_tables c)\<rparr>"

definition on_table :: "string \<Rightarrow> (tbl \<Rightarrow> mig) \<Rightarrow> mig" where
  "on_table t k c = (case map_of (cat_tables c) t of None \<Rightarrow> Inl (UndefinedTable t) | Some tb \<Rightarrow> k tb c)"

definition column_names :: "tbl \<Rightarrow> string list" where
  "column_names tb = map c_name (t_columns tb)"

text \<open>Index and constraint names are unique in the schema.\<close>

definition index_names :: "catalog \<Rightarrow> string list" where
  "index_names c = concat (map (\<lambda>(n, tb). map ix_name (t_indexes tb)) (cat_tables c))"

text \<open>An integer primary key of one column that is no foreign key draws from a sequence.\<close>

definition serial :: "postgres \<Rightarrow> string \<Rightarrow> column list \<Rightarrow> constr list \<Rightarrow> (string \<times> col_type) option" where
  "serial pg name cols cons =
     (case [c. PrimaryKey n [k] \<leftarrow> cons, c \<leftarrow> cols, c_name c = k,
               c_type c = IntegerType \<or> c_type c = BigIntegerType] of
        [] \<Rightarrow> None | c # _ \<Rightarrow> Some (pg_name pg name [c_name c] ''seq'', c_type c))"

definition create_table :: "postgres \<Rightarrow> string \<Rightarrow> column list \<Rightarrow> constr list \<Rightarrow> mig" where
  "create_table pg name cols cons c =
     (if name \<in> fst ` set (cat_tables c) then Inl (DuplicateTable name)
      else Inr (c\<lparr>cat_tables := cat_tables c @ [(name, \<lparr>t_columns = cols, t_constraints = cons,
          t_indexes = [], t_sequence = serial pg name cols cons\<rparr>)],
        cat_rows := (cat_rows c)(name := [])\<rparr>))"

fun references :: "string \<Rightarrow> constr \<Rightarrow> bool" where
  "references t (ForeignKey n cols ref rcols) = (ref = t)"
| "references t _ = False"

definition drop_table :: "string \<Rightarrow> mig" where
  "drop_table t = on_table t (\<lambda>tb c.
     if \<exists>(n, x) \<in> set (cat_tables c). n \<noteq> t \<and> list_ex (references t) (t_constraints x)
     then Inl (DependentObjects t)
     else Inr (c\<lparr>cat_tables := filter (\<lambda>(n, x). n \<noteq> t) (cat_tables c),
        cat_rows := (cat_rows c)(t := [])\<rparr>))"

definition add_column :: "postgres \<Rightarrow> string \<Rightarrow> column \<Rightarrow> mig" where
  "add_column pg t col = on_table t (\<lambda>tb c.
     if c_name col \<in> set (column_names tb) then Inl (DuplicateColumn (c_name col))
     else Inr ((tbl_put t (tb\<lparr>t_columns := t_columns tb @ [col]\<rparr>) c)\<lparr>cat_rows :=
       (cat_rows c)(t := map (\<lambda>(i, r). r(c_name col :=
          (case c_default col of None \<Rightarrow> NULL | Some d \<Rightarrow> pg_default pg (c_type col) d i)))
         (enumerate 0 (cat_rows c t)))\<rparr>))"

text \<open>Dropping a column drops the indexes and constraints that use it.\<close>

definition uses_column :: "string \<Rightarrow> index \<Rightarrow> bool" where
  "uses_column col ix = (col \<in> set (ix_columns ix)
     \<or> (case ix_where ix of None \<Rightarrow> False | Some p \<Rightarrow> col \<in> set (mentions p)))"

definition drop_column :: "string \<Rightarrow> string \<Rightarrow> mig" where
  "drop_column t col = on_table t (\<lambda>tb c.
     if col \<notin> set (column_names tb) then Inl (UndefinedColumn col)
     else Inr ((tbl_put t (tb\<lparr>t_columns := filter (\<lambda>x. c_name x \<noteq> col) (t_columns tb),
         t_indexes := filter (\<lambda>ix. \<not> uses_column col ix) (t_indexes tb),
         t_constraints := filter (\<lambda>k. col \<notin> set (con_columns k)) (t_constraints tb)\<rparr>) c)\<lparr>cat_rows :=
       (cat_rows c)(t := map (\<lambda>r. r(col := NULL)) (cat_rows c t))\<rparr>))"

definition unique_rows :: "string list \<Rightarrow> row list \<Rightarrow> bool" where
  "unique_rows cols rs = distinct (filter (\<lambda>k. NULL \<notin> set k) (map (\<lambda>r. map r cols) rs))"

definition create_index ::
    "string \<Rightarrow> string \<Rightarrow> string list \<Rightarrow> bool \<Rightarrow> predicate option \<Rightarrow> mig" where
  "create_index name t cols uniq cond = on_table t (\<lambda>tb c.
     if name \<in> set (index_names c) then Inl (DuplicateObject name)
     else if uniq \<and> \<not> unique_rows cols
         (filter (\<lambda>r. case cond of None \<Rightarrow> True | Some p \<Rightarrow> holds_on p r) (cat_rows c t))
     then Inl (UniqueViolation name)
     else Inr (tbl_put t (tb\<lparr>t_indexes := t_indexes tb @ [\<lparr>ix_name = name, ix_columns = cols,
        ix_unique = uniq, ix_where = cond\<rparr>]\<rparr>) c))"

definition drop_index :: "string \<Rightarrow> string \<Rightarrow> mig" where
  "drop_index name t = on_table t (\<lambda>tb c.
     if name \<notin> ix_name ` set (t_indexes tb) then Inl (UndefinedObject name)
     else Inr (tbl_put t (tb\<lparr>t_indexes := filter (\<lambda>ix. ix_name ix \<noteq> name) (t_indexes tb)\<rparr>) c))"

definition satisfied :: "catalog \<Rightarrow> string \<Rightarrow> constr \<Rightarrow> mig_error option" where
  "satisfied c t k =
     (case k of
        PrimaryKey n cols \<Rightarrow> if unique_rows cols (cat_rows c t) then None else Some (UniqueViolation n)
      | Unique n cols \<Rightarrow> if unique_rows cols (cat_rows c t) then None else Some (UniqueViolation n)
      | ForeignKey n cols ref rcols \<Rightarrow>
          if \<forall>r \<in> set (cat_rows c t). NULL \<in> set (map r cols)
               \<or> (\<exists>p \<in> set (cat_rows c ref). map p rcols = map r cols)
          then None else Some (ForeignKeyViolation n)
      | Check n p \<Rightarrow>
          if \<forall>r \<in> set (cat_rows c t). holds_on p r \<or> (\<exists>col \<in> set (mentions p). r col = NULL)
          then None else Some (CheckViolation n))"

definition create_constraint :: "string \<Rightarrow> constr \<Rightarrow> mig" where
  "create_constraint t k = on_table t (\<lambda>tb c.
     if con_name k \<in> con_name ` set (t_constraints tb) then Inl (DuplicateObject (con_name k))
     else case satisfied c t k of
        Some e \<Rightarrow> Inl e
      | None \<Rightarrow> Inr (tbl_put t (tb\<lparr>t_constraints := t_constraints tb @ [k]\<rparr>) c))"

definition drop_constraint :: "string \<Rightarrow> string \<Rightarrow> mig" where
  "drop_constraint name t = on_table t (\<lambda>tb c.
     if name \<notin> con_name ` set (t_constraints tb) then Inl (UndefinedObject name)
     else Inr (tbl_put t
       (tb\<lparr>t_constraints := filter (\<lambda>k. con_name k \<noteq> name) (t_constraints tb)\<rparr>) c))"

definition change_column :: "string \<Rightarrow> string \<Rightarrow> (column \<Rightarrow> column) \<Rightarrow> mig" where
  "change_column t col f = on_table t (\<lambda>tb c.
     if col \<notin> set (column_names tb) then Inl (UndefinedColumn col)
     else Inr (tbl_put t
       (tb\<lparr>t_columns := map (\<lambda>x. if c_name x = col then f x else x) (t_columns tb)\<rparr>) c))"

definition drop_default :: "string \<Rightarrow> string \<Rightarrow> mig" where
  "drop_default t col = change_column t col (\<lambda>x. x\<lparr>c_default := None\<rparr>)"

definition int_max :: int where
  "int_max = 2147483647"

definition too_large :: "cell \<Rightarrow> bool" where
  "too_large v = (case v of Num n \<Rightarrow> int_max < n | _ \<Rightarrow> False)"

definition alter_type :: "string \<Rightarrow> string \<Rightarrow> col_type \<Rightarrow> mig" where
  "alter_type t col ty c =
     (if ty = IntegerType \<and> (\<exists>r \<in> set (cat_rows c t). too_large (r col)) then Inl (OutOfRange col)
      else change_column t col (\<lambda>x. x\<lparr>c_type := ty\<rparr>) c)"

definition alter_sequence :: "string \<Rightarrow> string \<Rightarrow> col_type \<Rightarrow> mig" where
  "alter_sequence s t ty = on_table t (\<lambda>tb c.
     if map_option fst (t_sequence tb) \<noteq> Some s then Inl (UndefinedObject s)
     else if ty = IntegerType \<and> int_max < cat_last_value c s then Inl (OutOfRange s)
     else Inr (tbl_put t (tb\<lparr>t_sequence := Some (s, ty)\<rparr>) c))"

definition update_rows :: "string \<Rightarrow> (catalog \<Rightarrow> row \<Rightarrow> row) \<Rightarrow> mig" where
  "update_rows t f c = Inr (c\<lparr>cat_rows := (cat_rows c)(t := map (f c) (cat_rows c t))\<rparr>)"

definition refuse_if :: "(catalog \<Rightarrow> bool) \<Rightarrow> string \<Rightarrow> mig" where
  "refuse_if p msg c = (if p c then Inl (RuntimeError msg) else Inr c)"

section \<open>Revision 5cb4bac13ed5\<close>

definition col :: "string \<Rightarrow> col_type \<Rightarrow> server_default option \<Rightarrow> bool \<Rightarrow> column" where
  "col name ty def null = \<lparr>c_name = name, c_type = ty, c_default = def, c_nullable = null\<rparr>"

definition NOW :: "server_default option" where
  "NOW = Some (Expression ''now()'')"

definition ACTIVE_ROWS :: "predicate option" where
  "ACTIVE_ROWS = Some (IsNull ''finished_at'')"

definition OLD_STATUSES :: "string list" where
  "OLD_STATUSES = [''QUEUED'', ''LEASED'', ''RUNNING'', ''SUCCEEDED'', ''FAILED'', ''CANCELLED'']"

definition upgrade_5cb4bac13ed5 :: "postgres \<Rightarrow> mig" where
  "upgrade_5cb4bac13ed5 pg = run_ops
     [create_table pg ''jobs''
        [col ''id'' UuidType None False, col ''task'' (StringType 64) None False,
         col ''args'' JsonbType None False, col ''status'' (StringType 24) None False,
         col ''created_at'' DateTimeTz NOW False, col ''updated_at'' DateTimeTz NOW False]
        [Check (pg_name pg ''jobs'' [''status''] ''check'') (In ''status'' OLD_STATUSES),
         PrimaryKey (pg_name pg ''jobs'' [] ''pkey'') [''id'']],
      create_index ''ix_jobs_queue'' ''jobs'' [''created_at'', ''id''] False
        (Some (In ''status'' [''QUEUED''])),
      create_table pg ''workers''
        [col ''id'' (StringType 100) None False, col ''last_seen'' DateTimeTz NOW False]
        [PrimaryKey (pg_name pg ''workers'' [] ''pkey'') [''id'']],
      create_table pg ''attempts''
        [col ''id'' UuidType None False, col ''job_id'' UuidType None False,
         col ''worker_id'' (StringType 100) None False, col ''created_at'' DateTimeTz NOW False,
         col ''started_at'' DateTimeTz None True, col ''finished_at'' DateTimeTz None True]
        [ForeignKey (pg_name pg ''attempts'' [''job_id''] ''fkey'') [''job_id''] ''jobs'' [''id''],
         ForeignKey (pg_name pg ''attempts'' [''worker_id''] ''fkey'') [''worker_id''] ''workers'' [''id''],
         PrimaryKey (pg_name pg ''attempts'' [] ''pkey'') [''id'']],
      create_index ''ix_attempt_active_job'' ''attempts'' [''job_id''] True ACTIVE_ROWS,
      create_index ''ix_attempt_active_worker'' ''attempts'' [''worker_id''] True ACTIVE_ROWS,
      create_table pg ''events''
        [col ''id'' IntegerType None False, col ''job_id'' UuidType None False,
         col ''state'' (StringType 24) None False, col ''created_at'' DateTimeTz NOW False]
        [ForeignKey (pg_name pg ''events'' [''job_id''] ''fkey'') [''job_id''] ''jobs'' [''id''],
         PrimaryKey (pg_name pg ''events'' [] ''pkey'') [''id'']],
      create_index ''ix_events_job_id'' ''events'' [''job_id''] False None,
      create_table pg ''results''
        [col ''job_id'' UuidType None False, col ''output'' JsonbType None True,
         col ''error'' TextType None True]
        [ForeignKey (pg_name pg ''results'' [''job_id''] ''fkey'') [''job_id''] ''jobs'' [''id''],
         PrimaryKey (pg_name pg ''results'' [] ''pkey'') [''job_id'']]]"

definition downgrade_5cb4bac13ed5 :: mig where
  "downgrade_5cb4bac13ed5 = run_ops
     [drop_table ''results'', drop_index ''ix_events_job_id'' ''events'', drop_table ''events'',
      drop_index ''ix_attempt_active_worker'' ''attempts'',
      drop_index ''ix_attempt_active_job'' ''attempts'', drop_table ''attempts'',
      drop_table ''workers'', drop_index ''ix_jobs_queue'' ''jobs'', drop_table ''jobs'']"

section \<open>Revision 4c3b17726280\<close>

definition ALL_STATUSES :: "string list" where
  "ALL_STATUSES = OLD_STATUSES @ [''RETRY_WAIT'', ''DEAD_LETTER'']"

definition WAITING :: "predicate option" where
  "WAITING = Some (In ''status'' [''QUEUED'', ''RETRY_WAIT''])"

text \<open>\<^verbatim>\<open>UPDATE jobs SET attempt_count = (SELECT count(*) FROM attempts WHERE ...)\<close>.\<close>

definition count_attempts :: "catalog \<Rightarrow> row \<Rightarrow> row" where
  "count_attempts c r = r(''attempt_count'' :=
     Num (int (length (filter (\<lambda>a. a ''job_id'' = r ''id'') (cat_rows c ''attempts'')))))"

text \<open>\<^verbatim>\<open>UPDATE attempts SET outcome = jobs.status FROM jobs WHERE ... finished_at IS NOT NULL\<close>.\<close>

definition copy_outcome :: "catalog \<Rightarrow> row \<Rightarrow> row" where
  "copy_outcome c a =
     (case find (\<lambda>r. r ''id'' = a ''job_id'') (cat_rows c ''jobs'') of
        Some r \<Rightarrow> if a ''finished_at'' \<noteq> NULL then a(''outcome'' := r ''status'') else a
      | None \<Rightarrow> a)"

definition upgrade_4c3b17726280 :: "postgres \<Rightarrow> mig" where
  "upgrade_4c3b17726280 pg = run_ops
     [create_table pg ''system_events''
        [col ''id'' IntegerType None False, col ''kind'' (StringType 64) None False,
         col ''worker_id'' (StringType 100) None True,
         col ''detail'' JsonbType (Some (Literal (CHR 0x7B # [CHR 0x7D]))) False,
         col ''created_at'' DateTimeTz NOW False]
        [PrimaryKey (pg_name pg ''system_events'' [] ''pkey'') [''id'']],
      add_column pg ''attempts'' (col ''slot'' IntegerType (Some (Literal ''0'')) False),
      add_column pg ''attempts'' (col ''claim_id'' UuidType (Some (Expression ''gen_random_uuid()'')) False),
      add_column pg ''attempts'' (col ''fence'' IntegerType (Some (Literal ''1'')) False),
      add_column pg ''attempts'' (col ''expires_at'' DateTimeTz NOW False),
      add_column pg ''attempts'' (col ''outcome'' (StringType 32) None True),
      add_column pg ''attempts'' (col ''output'' JsonbType None True),
      add_column pg ''attempts'' (col ''error'' TextType None True),
      drop_index ''ix_attempt_active_worker'' ''attempts'',
      create_index ''ix_attempt_active_slot'' ''attempts'' [''worker_id'', ''slot''] True ACTIVE_ROWS,
      create_index ''ix_attempts_expires_at'' ''attempts'' [''expires_at''] False None,
      create_constraint ''attempts'' (Unique ''attempts_claim_id_key'' [''claim_id'']),
      add_column pg ''jobs'' (col ''priority'' IntegerType (Some (Literal ''0'')) False),
      add_column pg ''jobs'' (col ''timeout'' FloatType (Some (Literal ''15'')) False),
      add_column pg ''jobs'' (col ''max_retries'' IntegerType (Some (Literal ''0'')) False),
      add_column pg ''jobs'' (col ''retry_delay'' FloatType (Some (Literal ''1'')) False),
      add_column pg ''jobs'' (col ''retry_jitter'' BooleanType (Some (Literal ''true'')) False),
      add_column pg ''jobs'' (col ''attempt_count'' IntegerType (Some (Literal ''0'')) False),
      add_column pg ''jobs'' (col ''idempotency_key'' (StringType 128) None True),
      add_column pg ''jobs'' (col ''request_hash'' (StringType 64) None True),
      add_column pg ''jobs'' (col ''metadata_json'' JsonbType
        (Some (Literal (CHR 0x7B # [CHR 0x7D]))) False),
      add_column pg ''jobs'' (col ''available_at'' DateTimeTz NOW False),
      add_column pg ''jobs'' (col ''depends_on'' UuidType None True),
      drop_index ''ix_jobs_queue'' ''jobs'',
      create_index ''ix_jobs_queue'' ''jobs'' [''priority'', ''available_at'', ''created_at''] False WAITING,
      create_index ''ix_jobs_created'' ''jobs'' [''created_at''] False None,
      create_index ''ix_jobs_status'' ''jobs'' [''status''] False None,
      create_constraint ''jobs'' (Unique ''jobs_idempotency_key_key'' [''idempotency_key'']),
      create_constraint ''jobs'' (ForeignKey ''jobs_depends_on_fkey'' [''depends_on''] ''jobs'' [''id'']),
      add_column pg ''workers'' (col ''state'' (StringType 24) (Some (Literal ''HEALTHY'')) False),
      add_column pg ''workers'' (col ''capacity'' IntegerType (Some (Literal ''1'')) False),
      add_column pg ''workers'' (col ''capabilities'' JsonbType
        (Some (Literal (''['' @ join '','' (map (\<lambda>t. [CHR 0x22] @ t @ [CHR 0x22])
           [''sleep'', ''calculate_pi'', ''hash_text'', ''flaky'']) @ '']''))) False),
      add_column pg ''workers'' (col ''session_hash'' (StringType 64) None True),
      add_column pg ''workers'' (col ''registered_at'' DateTimeTz NOW False),
      drop_default ''attempts'' ''claim_id'',
      update_rows ''jobs'' count_attempts,
      update_rows ''attempts'' copy_outcome,
      drop_constraint ''jobs_status_check'' ''jobs'',
      create_constraint ''jobs'' (Check ''jobs_status_check'' (In ''status'' ALL_STATUSES))]"

definition has_active :: "catalog \<Rightarrow> bool" where
  "has_active c = (\<exists>a \<in> set (cat_rows c ''attempts''). a ''finished_at'' = NULL)"

definition has_new_status :: "catalog \<Rightarrow> bool" where
  "has_new_status c = (\<exists>j \<in> set (cat_rows c ''jobs''). holds_on (In ''status'' [''RETRY_WAIT'', ''DEAD_LETTER'']) j)"

definition has_busy_worker :: "catalog \<Rightarrow> bool" where
  "has_busy_worker c = (\<exists>a \<in> set (cat_rows c ''attempts'').
     1 < length (filter (\<lambda>b. b ''finished_at'' = NULL \<and> b ''worker_id'' = a ''worker_id'') (cat_rows c ''attempts'')))"

definition downgrade_4c3b17726280 :: mig where
  "downgrade_4c3b17726280 = run_ops
     [refuse_if has_active ''Stop workers and let active attempts finish or expire first'',
      refuse_if has_new_status ''Resolve RETRY_WAIT/DEAD_LETTER jobs before downgrading'',
      refuse_if has_busy_worker ''Drain concurrent worker slots before downgrading'',
      drop_constraint ''jobs_status_check'' ''jobs'',
      create_constraint ''jobs'' (Check ''jobs_status_check'' (In ''status'' OLD_STATUSES)),
      drop_column ''workers'' ''registered_at'', drop_column ''workers'' ''session_hash'',
      drop_column ''workers'' ''capabilities'', drop_column ''workers'' ''capacity'',
      drop_column ''workers'' ''state'',
      drop_constraint ''jobs_depends_on_fkey'' ''jobs'', drop_constraint ''jobs_idempotency_key_key'' ''jobs'',
      drop_index ''ix_jobs_status'' ''jobs'', drop_index ''ix_jobs_created'' ''jobs'',
      drop_index ''ix_jobs_queue'' ''jobs'',
      create_index ''ix_jobs_queue'' ''jobs'' [''created_at'', ''id''] False
        (Some (In ''status'' [''QUEUED''])),
      drop_column ''jobs'' ''depends_on'', drop_column ''jobs'' ''available_at'',
      drop_column ''jobs'' ''metadata_json'', drop_column ''jobs'' ''request_hash'',
      drop_column ''jobs'' ''idempotency_key'', drop_column ''jobs'' ''attempt_count'',
      drop_column ''jobs'' ''retry_jitter'', drop_column ''jobs'' ''retry_delay'',
      drop_column ''jobs'' ''max_retries'', drop_column ''jobs'' ''timeout'',
      drop_column ''jobs'' ''priority'',
      drop_constraint ''attempts_claim_id_key'' ''attempts'',
      drop_index ''ix_attempts_expires_at'' ''attempts'', drop_index ''ix_attempt_active_slot'' ''attempts'',
      create_index ''ix_attempt_active_worker'' ''attempts'' [''worker_id''] True ACTIVE_ROWS,
      drop_column ''attempts'' ''error'', drop_column ''attempts'' ''output'',
      drop_column ''attempts'' ''outcome'', drop_column ''attempts'' ''expires_at'',
      drop_column ''attempts'' ''fence'', drop_column ''attempts'' ''claim_id'',
      drop_column ''attempts'' ''slot'', drop_table ''system_events'']"

section \<open>Revision 7d2e9a41c0b8\<close>

definition widen_ids :: "string \<Rightarrow> mig" where
  "widen_ids t = run_ops
     [alter_type t ''id'' BigIntegerType, alter_sequence (t @ ''_id_seq'') t BigIntegerType]"

definition upgrade_7d2e9a41c0b8 :: mig where
  "upgrade_7d2e9a41c0b8 = run_ops
     [drop_index ''ix_jobs_queue'' ''jobs'',
      create_index ''ix_jobs_queue_fifo'' ''jobs'' [''created_at'', ''id''] False WAITING,
      create_index ''ix_jobs_queue_priority'' ''jobs'' [''priority DESC'', ''created_at'', ''id''] False WAITING,
      create_index ''ix_jobs_succeeded'' ''jobs'' [''updated_at''] False (Some (In ''status'' [''SUCCEEDED''])),
      drop_index ''ix_attempts_expires_at'' ''attempts'',
      create_index ''ix_attempts_active_expiry'' ''attempts'' [''expires_at''] False ACTIVE_ROWS,
      create_index ''ix_attempts_job_fence'' ''attempts'' [''job_id'', ''fence''] False None,
      create_index ''ix_attempts_finished'' ''attempts'' [''finished_at''] False (Some (NotNull ''finished_at'')),
      create_constraint ''workers'' (Check ''workers_state_check''
        (In ''state'' [''HEALTHY'', ''SUSPECT'', ''DEAD'', ''DRAINING''])),
      widen_ids ''events'', widen_ids ''system_events'']"

definition too_big :: "string \<Rightarrow> catalog \<Rightarrow> bool" where
  "too_big t c = ((\<exists>r \<in> set (cat_rows c t). too_large (r ''id'')) \<or> int_max < cat_last_value c (t @ ''_id_seq''))"

definition narrow_ids :: "string \<Rightarrow> mig" where
  "narrow_ids t = run_ops
     [refuse_if (too_big t) (t @ '' ids exceed integer range; cannot downgrade''),
      alter_sequence (t @ ''_id_seq'') t IntegerType, alter_type t ''id'' IntegerType]"

definition downgrade_7d2e9a41c0b8 :: mig where
  "downgrade_7d2e9a41c0b8 = run_ops
     [narrow_ids ''events'', narrow_ids ''system_events'',
      drop_constraint ''workers_state_check'' ''workers'',
      drop_index ''ix_attempts_finished'' ''attempts'', drop_index ''ix_attempts_job_fence'' ''attempts'',
      drop_index ''ix_attempts_active_expiry'' ''attempts'',
      create_index ''ix_attempts_expires_at'' ''attempts'' [''expires_at''] False None,
      drop_index ''ix_jobs_succeeded'' ''jobs'', drop_index ''ix_jobs_queue_priority'' ''jobs'',
      drop_index ''ix_jobs_queue_fifo'' ''jobs'',
      create_index ''ix_jobs_queue'' ''jobs'' [''priority'', ''available_at'', ''created_at''] False WAITING]"

section \<open>Revision b8f1c3a7d952\<close>

definition WAITING_CHILDREN :: "predicate option" where
  "WAITING_CHILDREN = Some (Both (NotNull ''depends_on'') (In ''status'' [''QUEUED'', ''RETRY_WAIT'']))"

text \<open>\<^verbatim>\<open>UPDATE workers SET drain_requested = true WHERE state = 'DRAINING'\<close>.\<close>

definition mark_draining :: "catalog \<Rightarrow> row \<Rightarrow> row" where
  "mark_draining c r = (if r ''state'' = Txt ''DRAINING'' then r(''drain_requested'' := Flag True) else r)"

definition upgrade_b8f1c3a7d952 :: "postgres \<Rightarrow> mig" where
  "upgrade_b8f1c3a7d952 pg = run_ops
     [add_column pg ''workers'' (col ''drain_requested'' BooleanType (Some (Expression ''false'')) False),
      update_rows ''workers'' mark_draining,
      create_index ''ix_jobs_waiting_children'' ''jobs'' [''depends_on''] False WAITING_CHILDREN,
      create_index ''ix_workers_last_seen'' ''workers'' [''last_seen''] False None]"

definition downgrade_b8f1c3a7d952 :: mig where
  "downgrade_b8f1c3a7d952 = run_ops
     [drop_index ''ix_workers_last_seen'' ''workers'', drop_index ''ix_jobs_waiting_children'' ''jobs'',
      drop_column ''workers'' ''drain_requested'']"

section \<open>The metadata of the models\<close>

definition primary :: "postgres \<Rightarrow> string \<Rightarrow> string \<Rightarrow> constr" where
  "primary pg t c = PrimaryKey (pg_name pg t [] ''pkey'') [c]"

definition refers :: "postgres \<Rightarrow> string \<Rightarrow> string \<Rightarrow> string \<Rightarrow> constr" where
  "refers pg t c ref = ForeignKey (pg_name pg t [c] ''fkey'') [c] ref [''id'']"

definition model_table ::
    "postgres \<Rightarrow> string \<Rightarrow> column list \<Rightarrow> constr list \<Rightarrow> index list \<Rightarrow> string \<times> tbl" where
  "model_table pg t cols cons ixs =
     (t, \<lparr>t_columns = cols, t_constraints = cons, t_indexes = ixs, t_sequence = serial pg t cols cons\<rparr>)"

definition ix :: "string \<Rightarrow> string list \<Rightarrow> bool \<Rightarrow> predicate option \<Rightarrow> index" where
  "ix name cols uniq cond = \<lparr>ix_name = name, ix_columns = cols, ix_unique = uniq, ix_where = cond\<rparr>"

definition Worker_table :: "postgres \<Rightarrow> string \<times> tbl" where
  "Worker_table pg = model_table pg ''workers''
     [col ''id'' (StringType 100) None False,
      col ''state'' (StringType 24) (Some (Literal ''HEALTHY'')) False,
      col ''capacity'' IntegerType (Some (Literal ''1'')) False,
      col ''capabilities'' JsonbType
        (Some (Literal (''['' @ join '','' (map (\<lambda>t. [CHR 0x22] @ t @ [CHR 0x22])
           [''sleep'', ''calculate_pi'', ''hash_text'', ''flaky'']) @ '']''))) False,
      col ''session_hash'' (StringType 64) None True,
      col ''drain_requested'' BooleanType (Some (Expression ''false'')) False,
      col ''registered_at'' DateTimeTz NOW False, col ''last_seen'' DateTimeTz NOW False]
     [Check ''workers_state_check'' (In ''state'' [''HEALTHY'', ''SUSPECT'', ''DEAD'', ''DRAINING'']),
      primary pg ''workers'' ''id'']
     [ix ''ix_workers_last_seen'' [''last_seen''] False None]"

definition Job_table :: "postgres \<Rightarrow> string \<times> tbl" where
  "Job_table pg = model_table pg ''jobs''
     [col ''id'' UuidType None False, col ''priority'' IntegerType (Some (Literal ''0'')) False,
      col ''timeout'' FloatType (Some (Literal ''15'')) False,
      col ''max_retries'' IntegerType (Some (Literal ''0'')) False,
      col ''retry_delay'' FloatType (Some (Literal ''1'')) False,
      col ''retry_jitter'' BooleanType (Some (Literal ''true'')) False,
      col ''attempt_count'' IntegerType (Some (Literal ''0'')) False,
      col ''idempotency_key'' (StringType 128) None True, col ''request_hash'' (StringType 64) None True,
      col ''metadata_json'' JsonbType (Some (Literal (CHR 0x7B # [CHR 0x7D]))) False,
      col ''available_at'' DateTimeTz NOW False, col ''depends_on'' UuidType None True,
      col ''task'' (StringType 64) None False, col ''args'' JsonbType None False,
      col ''status'' (StringType 24) None False,
      col ''created_at'' DateTimeTz NOW False, col ''updated_at'' DateTimeTz NOW False]
     [Check (pg_name pg ''jobs'' [''status''] ''check'') (In ''status'' ALL_STATUSES),
      primary pg ''jobs'' ''id'', refers pg ''jobs'' ''depends_on'' ''jobs'',
      Unique (pg_name pg ''jobs'' [''idempotency_key''] ''key'') [''idempotency_key'']]
     [ix ''ix_jobs_queue_fifo'' [''created_at'', ''id''] False WAITING,
      ix ''ix_jobs_queue_priority'' [''priority DESC'', ''created_at'', ''id''] False WAITING,
      ix ''ix_jobs_status'' [''status''] False None, ix ''ix_jobs_created'' [''created_at''] False None,
      ix ''ix_jobs_succeeded'' [''updated_at''] False (Some (In ''status'' [''SUCCEEDED''])),
      ix ''ix_jobs_waiting_children'' [''depends_on''] False WAITING_CHILDREN]"

definition Attempt_table :: "postgres \<Rightarrow> string \<times> tbl" where
  "Attempt_table pg = model_table pg ''attempts''
     [col ''id'' UuidType None False, col ''job_id'' UuidType None False,
      col ''worker_id'' (StringType 100) None False, col ''created_at'' DateTimeTz NOW False,
      col ''slot'' IntegerType (Some (Literal ''0'')) False, col ''claim_id'' UuidType None False,
      col ''fence'' IntegerType (Some (Literal ''1'')) False, col ''expires_at'' DateTimeTz NOW False,
      col ''outcome'' (StringType 32) None True, col ''output'' JsonbType None True,
      col ''error'' TextType None True, col ''started_at'' DateTimeTz None True,
      col ''finished_at'' DateTimeTz None True]
     [primary pg ''attempts'' ''id'', refers pg ''attempts'' ''job_id'' ''jobs'',
      refers pg ''attempts'' ''worker_id'' ''workers'',
      Unique (pg_name pg ''attempts'' [''claim_id''] ''key'') [''claim_id'']]
     [ix ''ix_attempt_active_slot'' [''worker_id'', ''slot''] True ACTIVE_ROWS,
      ix ''ix_attempt_active_job'' [''job_id''] True ACTIVE_ROWS,
      ix ''ix_attempts_active_expiry'' [''expires_at''] False ACTIVE_ROWS,
      ix ''ix_attempts_job_fence'' [''job_id'', ''fence''] False None,
      ix ''ix_attempts_finished'' [''finished_at''] False (Some (NotNull ''finished_at''))]"

definition Result_table :: "postgres \<Rightarrow> string \<times> tbl" where
  "Result_table pg = model_table pg ''results''
     [col ''job_id'' UuidType None False, col ''output'' JsonbType None True, col ''error'' TextType None True]
     [primary pg ''results'' ''job_id'', refers pg ''results'' ''job_id'' ''jobs''] []"

definition Event_table :: "postgres \<Rightarrow> string \<times> tbl" where
  "Event_table pg = model_table pg ''events''
     [col ''id'' BigIntegerType None False, col ''job_id'' UuidType None False,
      col ''state'' (StringType 24) None False, col ''created_at'' DateTimeTz NOW False]
     [primary pg ''events'' ''id'', refers pg ''events'' ''job_id'' ''jobs'']
     [ix ''ix_events_job_id'' [''job_id''] False None]"

definition SystemEvent_table :: "postgres \<Rightarrow> string \<times> tbl" where
  "SystemEvent_table pg = model_table pg ''system_events''
     [col ''id'' BigIntegerType None False, col ''kind'' (StringType 64) None False,
      col ''worker_id'' (StringType 100) None True,
      col ''detail'' JsonbType (Some (Literal (CHR 0x7B # [CHR 0x7D]))) False,
      col ''created_at'' DateTimeTz NOW False]
     [primary pg ''system_events'' ''id''] []"

definition models_metadata :: "postgres \<Rightarrow> (string \<times> tbl) list" where
  "models_metadata pg = [Worker_table pg, Job_table pg, Attempt_table pg, Result_table pg,
     Event_table pg, SystemEvent_table pg]"

section \<open>Comparing catalogues\<close>

text \<open>Equal up to the order of tables, columns, constraints and indexes, as Alembic compares them.\<close>

definition same_table :: "tbl \<Rightarrow> tbl \<Rightarrow> bool" where
  "same_table t u \<longleftrightarrow> set (t_columns t) = set (t_columns u) \<and> set (t_constraints t) = set (t_constraints u)
     \<and> set (t_indexes t) = set (t_indexes u) \<and> t_sequence t = t_sequence u"

definition same_schema :: "(string \<times> tbl) list \<Rightarrow> (string \<times> tbl) list \<Rightarrow> bool" where
  "same_schema s s' \<longleftrightarrow> set (map fst s) = set (map fst s')
     \<and> list_all (\<lambda>(n, t). case map_of s' n of None \<Rightarrow> False | Some u \<Rightarrow> same_table t u) s"

text \<open>The revisions in the order of their \<^verbatim>\<open>down_revision\<close> links.\<close>

definition upgrades :: "postgres \<Rightarrow> mig list" where
  "upgrades pg = [upgrade_5cb4bac13ed5 pg, upgrade_4c3b17726280 pg, upgrade_7d2e9a41c0b8,
     upgrade_b8f1c3a7d952 pg]"

definition downgrades :: "mig list" where
  "downgrades = [downgrade_5cb4bac13ed5, downgrade_4c3b17726280, downgrade_7d2e9a41c0b8,
     downgrade_b8f1c3a7d952]"

text \<open>PostgreSQL's documented names: table, columns and kind joined by underscores.\<close>

definition underscored :: "string \<Rightarrow> string list \<Rightarrow> string \<Rightarrow> string" where
  "underscored t cols kind = join ''_'' (t # cols @ [kind])"

definition pg_names_constraints :: "postgres \<Rightarrow> bool" where
  "pg_names_constraints pg \<longleftrightarrow> (\<forall>t cols kind. pg_name pg t cols kind = underscored t cols kind)"

section \<open>Lemmas\<close>

lemma pg_names_eq:
  assumes "pg_names_constraints pg"
  shows "pg = \<lparr>pg_name = underscored, pg_default = pg_default pg\<rparr>"
proof -
  have "pg_name pg = underscored" using assms by (intro ext) (simp add: pg_names_constraints_def)
  then show ?thesis by (cases pg) simp
qed

lemma head_schema:
  "case run_ops (upgrades \<lparr>pg_name = underscored, pg_default = d\<rparr>) empty_catalog of
     Inl e \<Rightarrow> False
   | Inr c \<Rightarrow> same_schema (cat_tables c) (models_metadata \<lparr>pg_name = underscored, pg_default = d\<rparr>)"
  by code_simp

text \<open>Running a revision and its downgrade from where the previous revisions end.\<close>

definition undone :: "postgres \<Rightarrow> nat \<Rightarrow> bool" where
  "undone pg n =
     (case run_ops (take n (upgrades pg)) empty_catalog of Inl e \<Rightarrow> False | Inr c \<Rightarrow>
     (case (upgrades pg ! n) c of Inl e \<Rightarrow> False | Inr c1 \<Rightarrow>
     (case (downgrades ! n) c1 of Inl e \<Rightarrow> False | Inr c2 \<Rightarrow>
        same_schema (cat_tables c2) (cat_tables c))))"

lemma undone_0: "undone \<lparr>pg_name = underscored, pg_default = d\<rparr> 0" by code_simp

lemma undone_1: "undone \<lparr>pg_name = underscored, pg_default = d\<rparr> 1" by code_simp

lemma undone_2: "undone \<lparr>pg_name = underscored, pg_default = d\<rparr> 2" by code_simp

lemma undone_3: "undone \<lparr>pg_name = underscored, pg_default = d\<rparr> 3" by code_simp

lemma map_of_put:
  "n \<noteq> t \<Longrightarrow> map_of (map (\<lambda>(k, x). (k, if k = t then tb else x)) xs) n = map_of xs n"
  "t \<in> fst ` set xs \<Longrightarrow> map_of (map (\<lambda>(k, x). (k, if k = t then tb else x)) xs) t = Some tb"
  by (induction xs) auto

lemma tbl_put_other: "n \<noteq> t \<Longrightarrow> map_of (cat_tables (tbl_put t tb c)) n = map_of (cat_tables c) n"
  by (simp add: tbl_put_def map_of_put(1))

lemma tbl_put_same:
  assumes "map_of (cat_tables c) t = Some old"
  shows "map_of (cat_tables (tbl_put t tb c)) t = Some tb"
proof -
  have "t \<in> fst ` set (cat_tables c)" using assms by (force dest: map_of_SomeD)
  then show ?thesis by (simp add: tbl_put_def map_of_put(2))
qed

lemma tbl_put_rows [simp]:
  "cat_rows (tbl_put t tb c) = cat_rows c" "cat_last_value (tbl_put t tb c) = cat_last_value c"
  by (simp_all add: tbl_put_def)

lemma on_table_Some: "map_of (cat_tables c) t = Some tb \<Longrightarrow> on_table t k c = k tb c"
  by (simp add: on_table_def)

lemma index_names_put:
  "set (index_names (tbl_put t tb c)) \<subseteq> set (index_names c) \<union> ix_name ` set (t_indexes tb)"
  by (auto simp: index_names_def tbl_put_def split: if_splits)

lemma index_names_table:
  "map_of (cat_tables c) t = Some tb \<Longrightarrow> ix_name ` set (t_indexes tb) \<subseteq> set (index_names c)"
  by (auto simp: index_names_def dest!: map_of_SomeD)

lemma known_put:
  "map_of (cat_tables c) t = Some old \<Longrightarrow>
     map_of (cat_tables (tbl_put t tb c)) n = None \<longleftrightarrow> map_of (cat_tables c) n = None"
  by (cases "n = t") (simp_all add: tbl_put_other tbl_put_same)

text \<open>A plain index can always be built: only its name must be new.\<close>

lemma create_plain_index:
  assumes "map_of (cat_tables c) t = Some tb" and "name \<notin> set (index_names c)"
  obtains c' where "create_index name t cols False cond c = Inr c'" "cat_rows c' = cat_rows c"
    "set (index_names c') \<subseteq> insert name (set (index_names c))"
    "\<And>n. map_of (cat_tables c') n = None \<longleftrightarrow> map_of (cat_tables c) n = None"
proof -
  let ?tb = "tb\<lparr>t_indexes := t_indexes tb @ [\<lparr>ix_name = name, ix_columns = cols,
    ix_unique = False, ix_where = cond\<rparr>]\<rparr>"
  have "set (index_names (tbl_put t ?tb c)) \<subseteq> insert name (set (index_names c))"
    using index_names_put [of t ?tb c] index_names_table [OF assms(1)] by auto
  then show thesis
    using assms by (intro that [of "tbl_put t ?tb c"])
      (simp_all add: create_index_def on_table_Some known_put)
qed

lemma add_column_rows:
  assumes "map_of (cat_tables c) t = Some tb" and "c_name x \<notin> set (column_names tb)"
    and "c_default x = Some d" and "\<And>i. pg_default pg (c_type x) d i = v"
  obtains c' where "add_column pg t x c = Inr c'"
    "cat_rows c' = (cat_rows c)(t := map (\<lambda>r. r(c_name x := v)) (cat_rows c t))"
    "set (index_names c') \<subseteq> set (index_names c)"
    "\<And>n. map_of (cat_tables c') n = None \<longleftrightarrow> map_of (cat_tables c) n = None"
proof -
  let ?tb = "tb\<lparr>t_columns := t_columns tb @ [x]\<rparr>"
  let ?c = "(tbl_put t ?tb c)\<lparr>cat_rows := (cat_rows c)(t := map (\<lambda>r. r(c_name x := v)) (cat_rows c t))\<rparr>"
  have rows: "map (\<lambda>(i, r). r(c_name x := v)) (enumerate n rs) = map (\<lambda>r. r(c_name x := v)) rs" for n rs
    by (induction rs arbitrary: n) simp_all
  have "set (index_names ?c) \<subseteq> set (index_names c)"
    using index_names_put [of t ?tb c] index_names_table [OF assms(1)]
    by (simp add: index_names_def) blast
  then show thesis
    using assms rows by (intro that [of ?c])
      (simp_all add: add_column_def on_table_Some known_put)
qed

section \<open>Properties\<close>





text \<open>
  The drain flag is backfilled. Adding \<^verbatim>\<open>drain_requested\<close> marks exactly the workers that are
  DRAINING, keeps every other cell of every worker, and leaves the rows of all other tables alone.
\<close>

lemma drain_intent_backfilled:
  assumes tables: "map_of (cat_tables c) ''workers'' = Some v" "map_of (cat_tables c) ''jobs'' = Some j"
    and fresh: "''drain_requested'' \<notin> set (column_names v)"
      "''ix_jobs_waiting_children'' \<notin> set (index_names c)" "''ix_workers_last_seen'' \<notin> set (index_names c)"
    and default: "\<And>i. pg_default pg BooleanType (Expression ''false'') i = Flag False"
  shows "\<exists>c'. upgrade_b8f1c3a7d952 pg c = Inr c'
    \<and> cat_rows c' ''workers'' = map (\<lambda>r. r(''drain_requested'' := Flag (r ''state'' = Txt ''DRAINING'')))
        (cat_rows c ''workers'')
    \<and> (\<forall>t. t \<noteq> ''workers'' \<longrightarrow> cat_rows c' t = cat_rows c t)"
proof -
  let ?col = "col ''drain_requested'' BooleanType (Some (Expression ''false'')) False"
  have named: "c_name ?col = ''drain_requested''" "c_type ?col = BooleanType"
    "c_default ?col = Some (Expression ''false'')" by (simp_all add: col_def)
  obtain c1 where c1: "add_column pg ''workers'' ?col c = Inr c1"
    "cat_rows c1 = (cat_rows c)(''workers'' := map (\<lambda>r. r(''drain_requested'' := Flag False))
       (cat_rows c ''workers''))"
    "set (index_names c1) \<subseteq> set (index_names c)"
    "\<And>n. map_of (cat_tables c1) n = None \<longleftrightarrow> map_of (cat_tables c) n = None"
    by (rule add_column_rows [OF tables(1), of ?col, unfolded named, OF fresh(1) refl default]) blast
  define c2 where "c2 = c1\<lparr>cat_rows := (cat_rows c1)(''workers'' := map (mark_draining c1) (cat_rows c1 ''workers''))\<rparr>"
  have c2: "index_names c2 = index_names c1" "cat_tables c2 = cat_tables c1"
    by (simp_all add: c2_def index_names_def)
  obtain j2 where j2: "map_of (cat_tables c2) ''jobs'' = Some j2"
    using c1(4) [of "''jobs''"] tables(2) c2(2) by fastforce
  have "''ix_jobs_waiting_children'' \<notin> set (index_names c2)" using c1(3) c2(1) fresh(2) by auto
  from create_plain_index [OF j2 this, of "[''depends_on'']" WAITING_CHILDREN] obtain c3 where
    c3: "create_index ''ix_jobs_waiting_children'' ''jobs'' [''depends_on''] False WAITING_CHILDREN c2 = Inr c3"
      "cat_rows c3 = cat_rows c2"
      "set (index_names c3) \<subseteq> insert ''ix_jobs_waiting_children'' (set (index_names c2))"
      "\<And>n. map_of (cat_tables c3) n = None \<longleftrightarrow> map_of (cat_tables c2) n = None" by blast
  obtain w3 where w3: "map_of (cat_tables c3) ''workers'' = Some w3"
    using c3(4) [of "''workers''"] c1(4) [of "''workers''"] tables(1) c2(2) by fastforce
  have "''ix_workers_last_seen'' \<notin> set (index_names c3)" using c1(3) c2(1) c3(3) fresh(3) by auto
  from create_plain_index [OF w3 this, of "[''last_seen'']" None] obtain c4 where
    c4: "create_index ''ix_workers_last_seen'' ''workers'' [''last_seen''] False None c3 = Inr c4"
      "cat_rows c4 = cat_rows c3" by blast
  have "upgrade_b8f1c3a7d952 pg c = Inr c4"
    using c1(1) c3(1) c4(1) by (simp add: upgrade_b8f1c3a7d952_def update_rows_def flip: c2_def)
  moreover have "cat_rows c4 ''workers''
      = map (\<lambda>r. r(''drain_requested'' := Flag (r ''state'' = Txt ''DRAINING''))) (cat_rows c ''workers'')"
    using c1(2) c3(2) c4(2) by (simp add: c2_def mark_draining_def)
  moreover have "cat_rows c4 t = cat_rows c t" if "t \<noteq> ''workers''" for t
    using c1(2) c3(2) c4(2) that by (simp add: c2_def)
  ultimately show ?thesis by blast
qed

text \<open>
  Narrowing the ids back to 32 bits is guarded: the downgrade refuses a table when an id or the
  last value of its sequence exceeds 2147483647, and otherwise both changes succeed, so PostgreSQL's own
  range error never shows and no id is lost.
\<close>

lemma narrowing_guarded:
  assumes "map_of (cat_tables c) t = Some tb" and "''id'' \<in> set (column_names tb)"
    and "t_sequence tb = Some (t @ ''_id_seq'', BigIntegerType)"
  shows "if too_big t c
    then narrow_ids t c = Inl (RuntimeError (t @ '' ids exceed integer range; cannot downgrade''))
    else \<exists>c' tb'. narrow_ids t c = Inr c' \<and> cat_rows c' = cat_rows c
      \<and> map_of (cat_tables c') t = Some tb' \<and> t_sequence tb' = Some (t @ ''_id_seq'', IntegerType)
      \<and> (\<forall>x \<in> set (t_columns tb'). c_name x = ''id'' \<longrightarrow> c_type x = IntegerType)"
proof (cases "too_big t c")
  case False
  let ?tb = "tb\<lparr>t_sequence := Some (t @ ''_id_seq'', IntegerType)\<rparr>"
  let ?tb' = "?tb\<lparr>t_columns := map (\<lambda>x. if c_name x = ''id'' then x\<lparr>c_type := IntegerType\<rparr> else x) (t_columns tb)\<rparr>"
  let ?c = "tbl_put t ?tb c"
  have seq: "alter_sequence (t @ ''_id_seq'') t IntegerType c = Inr ?c"
    using assms(3) False by (simp add: alter_sequence_def on_table_Some [OF assms(1)] too_big_def)
  have "alter_type t ''id'' IntegerType ?c = Inr (tbl_put t ?tb' ?c)"
    using assms(2) False
    by (simp add: alter_type_def change_column_def on_table_Some [OF tbl_put_same [OF assms(1)]]
        too_big_def column_names_def)
  with seq False have "narrow_ids t c = Inr (tbl_put t ?tb' ?c)"
    by (simp add: narrow_ids_def refuse_if_def)
  moreover have "map_of (cat_tables (tbl_put t ?tb' ?c)) t = Some ?tb'"
    by (rule tbl_put_same [OF tbl_put_same [OF assms(1)]])
  ultimately show ?thesis using False by auto
qed (simp add: narrow_ids_def refuse_if_def)

end
