(* ===== verification/Queue_Spec.thy ===== *)
theory Queue_Spec
  imports Contracts
begin

text \<open>
  The queue as its clients see it: a map from job ids to a status, the attempts used and the
  retries allowed, with the few moves a job can make. The coordinators simulate this
  specification step by step, and since every move uses up a rank, a job makes boundedly many.
\<close>

section \<open>The specification\<close>

type_synonym job_view = "job_status \<times> int \<times> int"

inductive job_move :: "job_view \<Rightarrow> job_view \<Rightarrow> bool" where
  lease: "st \<in> {QUEUED, RETRY_WAIT} \<Longrightarrow> n \<le> m \<Longrightarrow> job_move (st, n, m) (LEASED, n + 1, m)"
| start: "job_move (LEASED, n, m) (RUNNING, n, m)"
| succeed: "job_move (RUNNING, n, m) (SUCCEEDED, n, m)"
| fail: "job_move (RUNNING, n, m) (FAILED, n, m)"
| retry: "st \<in> {LEASED, RUNNING} \<Longrightarrow> n \<le> m \<Longrightarrow> job_move (st, n, m) (RETRY_WAIT, n, m)"
| bury: "st \<in> {LEASED, RUNNING} \<Longrightarrow> m < n \<Longrightarrow> job_move (st, n, m) (DEAD_LETTER, n, m)"
| cancel: "st \<in> {QUEUED, RETRY_WAIT} \<Longrightarrow> job_move (st, n, m) (CANCELLED, n, m)"

inductive_cases job_moveE: "job_move x y"

inductive queue_step :: "(uuid \<rightharpoonup> job_view) \<Rightarrow> (uuid \<rightharpoonup> job_view) \<Rightarrow> bool" where
  submit: "s i = None \<Longrightarrow> 0 \<le> m \<Longrightarrow> queue_step s (s(i \<mapsto> (QUEUED, 0, m)))"
| move: "s i = Some x \<Longrightarrow> job_move x y \<Longrightarrow> queue_step s (s(i \<mapsto> y))"

section \<open>The abstraction\<close>

definition view :: "job_row \<Rightarrow> job_view" where
  "view j = (j_status j, j_attempt_count j, j_max_retries j)"

definition queue_view :: "database \<Rightarrow> uuid \<rightharpoonup> job_view" where
  "queue_view d i = map_option view (job_by_id i d)"

text \<open>
  A concrete system simulates a specification through an abstraction: every concrete step from a
  state with the invariant is a run of the specification. Then so is every concrete run.
\<close>

locale simulation = invariant_system step inv
  for step :: "'s \<Rightarrow> 's \<Rightarrow> bool" and inv :: "'s \<Rightarrow> bool" +
  fixes spec_step :: "'t \<Rightarrow> 't \<Rightarrow> bool" and abs :: "'s \<Rightarrow> 't"
  assumes simulates: "inv s \<Longrightarrow> step s s' \<Longrightarrow> spec_step\<^sup>*\<^sup>* (abs s) (abs s')"
begin

lemma run_simulates:
  assumes "step\<^sup>*\<^sup>* s s'" and "inv s"
  shows "spec_step\<^sup>*\<^sup>* (abs s) (abs s')"
  using assms(1)
proof induction
  case (step t u)
  then show ?case using simulates [OF run_inv [OF step.hyps(1) assms(2)]] by (meson rtranclp_trans)
qed simp

end

text \<open>What one step of the tables does to the jobs, as the specification sees it.\<close>

lemma step_view:
  assumes inv: "db_inv d" and step: "db_step d d'"
  obtains (new) tn j where "d' = admitted tn j d" "job_by_id (j_id j) d = None"
      "view j = (QUEUED, 0, j_max_retries j)" "0 \<le> j_max_retries j"
  | (moved) j j' e where "j \<in> set (jobs d)" "jobs d' = set_row j_id (j_id j) (\<lambda>_. j') (jobs d)"
      "j_id j' = j_id j" "job_move (view j) (view j')"
      "events d' = events d @ [e]" "e_job_id e = j_id j"
  | (same) "jobs d' = jobs d" "events d' = events d"
  using step
proof cases
  case (submitted j tn)
  then show ?thesis
    by (intro new) (auto simp: view_def job_by_id_def job_table.lookup_None_iff)
next
  case (leased j j' t a tn)
  have "j_attempt_count j \<le> j_max_retries j"
    using inv_parts(8) [OF inv] leased by (auto simp: budget_ok_def)
  with leased show ?thesis
    by (intro moved [of j j']) (auto simp: row_simps view_def intro: job_move.lease)
next
  case (started a j a' s j' t tn)
  then show ?thesis
    by (intro moved [of j j']) (auto simp: row_simps view_def holds_def intro: job_move.start)
next
  case (succeeded a j a' out f j' t tn)
  then show ?thesis
    by (intro moved [of j j']) (auto simp: row_simps view_def holds_def intro: job_move.succeed)
next
  case (retried a j oc a' f err j' av t tn)
  then show ?thesis
    by (intro moved [of j j']) (auto simp: row_simps view_def holds_def intro: job_move.retry)
next
  case (buried a j st oc a' f err j' t tn)
  have "j_status j \<in> {LEASED, RUNNING}" using holds_running(1) [OF inv_parts(5) [OF inv] buried(2)] .
  with buried show ?thesis
    by (intro moved [of j j']) (auto simp: row_simps view_def holds_def intro: job_move.fail job_move.bury)
next
  case (cancelled j j' t tn)
  then show ?thesis
    by (intro moved [of j j']) (auto simp: row_simps view_def intro: job_move.cancel)
qed (auto simp: row_simps intro: same)

lemma moved_view:
  assumes "keys_ok d" and "j \<in> set (jobs d)" and "jobs d' = set_row j_id (j_id j) (\<lambda>_. j') (jobs d)"
    and "j_id j' = j_id j"
  shows "queue_view d (j_id j) = Some (view j)" and "queue_view d' = (queue_view d)(j_id j \<mapsto> view j')"
proof -
  show "queue_view d (j_id j) = Some (view j)"
    using assms by (simp add: queue_view_def job_by_id_def keys_ok_def job_table.lookup_unique)
  show "queue_view d' = (queue_view d)(j_id j \<mapsto> view j')"
    using assms by (intro ext) (simp add: queue_view_def job_by_id_def keys_ok_def job_table.replace_lookup)
qed

lemma queue_view_admitted:
  assumes "job_by_id (j_id j) d = None"
  shows "queue_view (admitted tn j d) = (queue_view d)(j_id j \<mapsto> view j)"
proof -
  have "find_row j_id i (rows @ [j]) = (case find_row j_id i rows of None \<Rightarrow> if i = j_id j then Some j else None
      | Some x \<Rightarrow> Some x)" for i rows
    by (induction rows) (auto simp: find_row_def)
  with assms show ?thesis
    by (intro ext) (auto simp: queue_view_def job_by_id_def row_simps split: option.splits)
qed

lemma step_simulates:
  assumes "db_inv d" and "db_step d d'"
  shows "queue_step\<^sup>*\<^sup>* (queue_view d) (queue_view d')"
  using assms
proof (cases rule: step_view)
  case (new tn j)
  then have "queue_step (queue_view d) (queue_view d')"
    using queue_step.submit [of "queue_view d" "j_id j" "j_max_retries j"]
    by (simp add: queue_view_admitted queue_view_def [of d "j_id j"])
  then show ?thesis by blast
next
  case (moved j j' e)
  note v = moved_view [OF inv_parts(1) [OF assms(1)] moved(1-3)]
  have "queue_step (queue_view d) (queue_view d')"
    unfolding v(2) using queue_step.move [where s = "queue_view d", OF v(1) moved(4)] .
  then show ?thesis by blast
next
  case same
  then have "queue_view d' = queue_view d" by (intro ext) (simp add: queue_view_def job_by_id_def)
  then show ?thesis by simp
qed

interpretation tables: simulation db_step db_inv queue_step queue_view
  by unfold_locales (rule step_simulates)

interpretation queue: simulation "coordinator_step env c" db_inv queue_step queue_view for env c
  by unfold_locales (blast intro: coordinator_refines tables.run_simulates)

section \<open>Every move uses up a rank\<close>

fun rank :: "job_view \<Rightarrow> int" where
  "rank (QUEUED, n, m) = 3 * (m + 1 - n)"
| "rank (RETRY_WAIT, n, m) = 3 * (m + 1 - n)"
| "rank (LEASED, n, m) = 3 * (m + 1 - n) + 2"
| "rank (RUNNING, n, m) = 3 * (m + 1 - n) + 1"
| "rank _ = 0"

lemma move_rank:
  assumes "job_move x y" and "fst (snd x) \<le> snd (snd x) + 1" and "fst x = RETRY_WAIT \<or> fst x = QUEUED \<longrightarrow> fst (snd x) \<le> snd (snd x)"
  shows "rank y < rank x"
  using assms by cases auto

text \<open>The events of a job and the moves it has left never exceed those of one full budget.\<close>

definition log_bounded :: "database \<Rightarrow> bool" where
  "log_bounded d \<longleftrightarrow>
     (\<forall>j \<in> set (jobs d). int (length (history (j_id j) d)) + rank (view j) \<le> 3 * (j_max_retries j + 1) + 2)"

lemma view_budget:
  assumes "db_inv d" and "j \<in> set (jobs d)"
  shows "fst (snd (view j)) \<le> snd (snd (view j)) + 1"
    and "fst (view j) = RETRY_WAIT \<or> fst (view j) = QUEUED \<longrightarrow> fst (snd (view j)) \<le> snd (snd (view j))"
  using inv_parts(8) [OF assms(1)] assms(2) by (auto simp: budget_ok_def view_def)

lemma step_log_bounded:
  assumes "db_inv d" and "db_step d d'" and "log_bounded d"
  shows "log_bounded d'"
  using assms(1,2)
proof (cases rule: step_view)
  case (new tn j)
  have "history (j_id j) d = []"
    using new(2) inv_parts(2) [OF assms(1)] by (intro refs_history_fresh)
      (auto simp: job_by_id_def job_table.lookup_None_iff)
  moreover have "j_id i \<noteq> j_id j" if "i \<in> set (jobs d)" for i
    using new(2) imageI [OF that, of j_id] by (auto simp: job_by_id_def job_table.lookup_None_iff)
  ultimately show ?thesis using new assms(3) by (auto simp: log_bounded_def row_simps view_def)
next
  case (moved j j' e)
  have rows: "set (jobs d') = insert j' (set (jobs d) - {j})"
    unfolding moved(2) using inv_parts(1) [OF assms(1)] moved by (intro put_job_rows)
  have hist: "history i d' = history i d @ (if i = j_id j then [e_state e] else [])" for i
    using moved by (simp add: history_def)
  have "rank (view j') < rank (view j)"
    using move_rank [OF moved(4)] view_budget [OF assms(1) moved(1)] by blast
  moreover have "j_max_retries j' = j_max_retries j" using moved(4) by (auto simp: view_def elim: job_moveE)
  moreover have "j_id i \<noteq> j_id j" if "i \<in> set (jobs d) - {j}" for i
    using that job_id_inj [OF inv_parts(1) [OF assms(1)] _ moved(1)] by auto
  ultimately show ?thesis
    using assms(3) moved(1,3) unfolding log_bounded_def rows hist by fastforce
next
  case same
  then show ?thesis using assms(3) by (simp add: log_bounded_def history_def)
qed

lemma reachable_log_bounded:
  assumes "reachable env c d"
  shows "log_bounded d"
proof -
  have "db_step\<^sup>*\<^sup>* empty_db d" using assms reachable_run empty_db_inv unfolding reachable_def by blast
  moreover have "log_bounded empty_db" by (simp add: log_bounded_def empty_db_def)
  ultimately show ?thesis
    using lifecycle.run_keeps [of empty_db d log_bounded] empty_db_inv step_log_bounded by blast
qed

section \<open>Properties\<close>

text \<open>
  C2: refinement. The coordinators, with all their tables, leases, clocks and sweeps, implement the
  queue specification: whatever sequence of requests and sweeps runs, the jobs as clients see them
  move along a run of \<open>queue_step\<close>.
\<close>

theorem coordinator_implements_queue:
  assumes "reachable env c d" and "(coordinator_step env c)\<^sup>*\<^sup>* d d'"
  shows "queue_step\<^sup>*\<^sup>* (queue_view d) (queue_view d')"
  by (rule queue.run_simulates [OF assms(2) reachable_db_inv [OF assms(1)]])

theorem coordinator_implements_queue_witness:
  "queue_step\<^sup>*\<^sup>* (queue_view empty_db) (queue_view demo_done)
    \<and> queue_view demo_done 10 = Some (SUCCEEDED, 1, 1)"
proof
  have "reachable demo_env demo_settings empty_db" by (simp add: reachable_def)
  then show "queue_step\<^sup>*\<^sup>* (queue_view empty_db) (queue_view demo_done)"
    by (rule coordinator_implements_queue) (use demo_done_reachable in \<open>simp add: reachable_def\<close>)
  show "queue_view demo_done 10 = Some (SUCCEEDED, 1, 1)"
    by (simp add: queue_view_def view_def job_by_id_def find_row_def demo_dbs demo_job_def)
qed

text \<open>
  C15: termination. A job cannot cycle for ever: its event log never holds more than the two events of
  its submission and three for each attempt its retry budget allows, and a job that has used
  them all up is in a terminal state.
\<close>

theorem job_lifecycle_terminates:
  assumes "reachable env c d" and "j \<in> set (jobs d)"
  shows "int (length (history (j_id j) d)) \<le> 3 * (j_max_retries j + 1) + 2
    \<and> (int (length (history (j_id j) d)) = 3 * (j_max_retries j + 1) + 2 \<longrightarrow> j_status j \<in> TERMINAL)"
proof -
  have "int (length (history (j_id j) d)) + rank (view j) \<le> 3 * (j_max_retries j + 1) + 2"
    using reachable_log_bounded [OF assms(1)] assms(2) by (simp add: log_bounded_def)
  moreover have "0 \<le> rank (view j) \<and> (rank (view j) = 0 \<longrightarrow> j_status j \<in> TERMINAL)"
    using view_budget [OF reachable_db_inv [OF assms(1)] assms(2)]
    by (cases "j_status j") (auto simp: view_def TERMINAL_def)
  ultimately show ?thesis by linarith
qed

theorem job_lifecycle_terminates_witness:
  "int (length (history 10 demo_done)) \<le> 8"
proof -
  have j: "demo_job SUCCEEDED 1 5003 \<in> set (jobs demo_done)" "j_id (demo_job SUCCEEDED 1 5003) = 10"
    "j_max_retries (demo_job SUCCEEDED 1 5003) = 1" by (simp_all add: demo_dbs demo_job_def)
  from job_lifecycle_terminates [OF demo_done_reachable j(1), unfolded j(2,3)] show ?thesis by simp
qed

end
