(* ===== verification/Maintenance.thy ===== *)
theory Maintenance
  imports Fleet
begin

text \<open>
  \<^verbatim>\<open>recovery.maintain\<close>: the loop every coordinator runs beside its routes. What happens outside the
  loop (other transactions, the clock, the stop event, database outages) comes with each sweep.
\<close>

section \<open>The loop\<close>

text \<open>
  One iteration: whether \<^verbatim>\<open>stop\<close> is set at its head, what the world has become when each of the two
  transactions of \<^verbatim>\<open>tick\<close> begins, and the class of the \<^verbatim>\<open>SQLAlchemyError\<close> that interrupts the first or
  the second transaction, if any.
\<close>

datatype outage = Up | Down_first string | Down_second string

record sweep =
  sw_stop :: bool
  sw_begin :: "world \<Rightarrow> world"
  sw_between :: "world \<Rightarrow> world"
  sw_outage :: outage

text \<open>\<^verbatim>\<open>tick\<close> under an outage: the interrupted transaction is rolled back and the error leaves \<^verbatim>\<open>tick\<close>.\<close>

datatype tick_end = Ticked | Sql_error string | Raised_in_tick exn

definition tick_sweep :: "settings \<Rightarrow> sweep \<Rightarrow> world \<Rightarrow> tick_end \<times> world" where
  "tick_sweep c s w =
     (case sw_outage s of
        Down_first e \<Rightarrow> (Sql_error e, w)
      | Down_second e \<Rightarrow>
          (case run_tx (recover_jobs 100) w of
             (Inl x, w1) \<Rightarrow> (Raised_in_tick x, w1)
           | (Inr n, w1) \<Rightarrow> (Sql_error e, sw_between s w1))
      | Up \<Rightarrow>
          (case maintenance_tick (sw_between s) (cfg_suspect_after c) (cfg_dead_after c) w of
             (Inl x, w1) \<Rightarrow> (Raised_in_tick x, w1)
           | (Inr u, w1) \<Rightarrow> (Ticked, w1)))"

definition outage_warning :: "string \<Rightarrow> string" where
  "outage_warning e =
     [CHR 0x7B, CHR 0x22] @ ''event'' @ [CHR 0x22, CHR 0x3A, CHR 0x22] @ ''recovery_database_unavailable''
     @ [CHR 0x22, CHR 0x2C, CHR 0x22] @ ''type'' @ [CHR 0x22, CHR 0x3A, CHR 0x22] @ e @ [CHR 0x22, CHR 0x7D]"

text \<open>Only SQL errors are caught; any other exception ends the task.\<close>

datatype loop_end = Sweeping | Stopped | Died exn

fun maintain :: "settings \<Rightarrow> sweep list \<Rightarrow> world \<Rightarrow> loop_end \<times> string list \<times> world" where
  "maintain c [] w = (Sweeping, [], w)"
| "maintain c (s # ss) w =
     (if sw_stop s then (Stopped, [], w)
      else case tick_sweep c s (sw_begin s w) of
        (Ticked, w1) \<Rightarrow> maintain c ss w1
      | (Sql_error e, w1) \<Rightarrow> (case maintain c ss w1 of (r, ls, w2) \<Rightarrow> (r, outage_warning e # ls, w2))
      | (Raised_in_tick x, w1) \<Rightarrow> (Died x, [], w1))"

section \<open>The loop on reachable databases\<close>

definition world_ok :: "env \<Rightarrow> settings \<Rightarrow> world \<Rightarrow> bool" where
  "world_ok env c w \<longleftrightarrow> reachable env c (db w) \<and> scan_ok w \<and> mono (clk w)"

text \<open>Between the transactions of the loop the world moves on as the coordinators move it.\<close>

definition sweep_ok :: "env \<Rightarrow> settings \<Rightarrow> sweep \<Rightarrow> bool" where
  "sweep_ok env c s \<longleftrightarrow>
     (\<forall>w. reachable env c (db w) \<longrightarrow> world_ok env c (sw_begin s w) \<and> world_ok env c (sw_between s w))"

lemma reachable_recover:
  assumes "world_ok env c w" and "recover_jobs n w = Inr (x, w')" and "n = 100"
  shows "reachable env c (db w')"
proof -
  have "run_tx (transact env c RecoverTx) w = (Inr (), w')"
    using assms by (simp add: effect_def run_tx_def tx_bind_def tx_return_def)
  then have "coordinator_step env c (db w) (db w')"
    using assms(1) by (intro coordinator_step.transaction [of env RecoverTx]) (auto simp: world_ok_def)
  with assms(1) show ?thesis
    by (auto simp: world_ok_def reachable_def intro: rtranclp.rtrancl_into_rtrancl)
qed

lemma reachable_detect:
  assumes "world_ok env c w" and "detect_workers (cfg_suspect_after c) (cfg_dead_after c) w = Inr (x, w')"
  shows "reachable env c (db w')"
proof -
  have "run_tx (transact env c DetectTx) w = (Inr x, w')" using assms(2) by (simp add: run_tx_def)
  then have "coordinator_step env c (db w) (db w')"
    using assms(1) by (intro coordinator_step.transaction [of env DetectTx]) (auto simp: world_ok_def)
  with assms(1) show ?thesis
    by (auto simp: world_ok_def reachable_def intro: rtranclp.rtrancl_into_rtrancl)
qed

lemma recover_total:
  assumes "world_ok env c w"
  obtains n w' where "recover_jobs 100 w = Inr (n, w')" "reachable env c (db w')"
proof -
  have "\<exists>n w'. recover_jobs 100 w = Inr (n, w')"
  proof (cases "recovery_lock_taken w")
    case True
    then show ?thesis by (simp add: recover_jobs_def tx_bind_def tx_get_def tx_return_def)
  next
    case False
    have ok: "reachable env c (db w)" "scan_ok w" "mono (clk w)" using assms by (simp_all add: world_ok_def)
    from recover_jobs_returns [OF reachable_db_inv [OF ok(1)] ok(3,2) False refl] show ?thesis by blast
  qed
  then obtain n w' where "recover_jobs 100 w = Inr (n, w')" by blast
  with reachable_recover [OF assms] show thesis by (intro that) auto
qed

lemma detect_total:
  assumes "world_ok env c w"
  obtains w' where "detect_workers (cfg_suspect_after c) (cfg_dead_after c) w = Inr ((), w')"
    "reachable env c (db w')"
proof -
  obtain w1 where w1: "detect_workers (cfg_suspect_after c) (cfg_dead_after c) w = Inr ((), w1)"
    by (rule detect_workers_returns [OF reachable_db_inv]) (use assms in \<open>auto simp: world_ok_def\<close>)
  with reachable_detect [OF assms] show thesis by (intro that) auto
qed

text \<open>No exception but an outage leaves \<^verbatim>\<open>tick\<close>.\<close>

lemma tick_sweep_cases:
  assumes "sweep_ok env c s" and "world_ok env c w"
  obtains (up) w1 where "tick_sweep c s w = (Ticked, w1)" "sw_outage s = Up" "reachable env c (db w1)"
  | (down) e w1 where "tick_sweep c s w = (Sql_error e, w1)" "sw_outage s \<in> {Down_first e, Down_second e}"
      "reachable env c (db w1)"
proof -
  obtain n w1 where rec: "recover_jobs 100 w = Inr (n, w1)" "reachable env c (db w1)"
    by (rule recover_total [OF assms(2)])
  have next_ok: "world_ok env c (sw_between s w1)" using assms(1) rec(2) by (simp add: sweep_ok_def)
  obtain w2 where det: "detect_workers (cfg_suspect_after c) (cfg_dead_after c) (sw_between s w1) = Inr ((), w2)"
    "reachable env c (db w2)" by (rule detect_total [OF next_ok])
  show thesis
  proof (cases "sw_outage s")
    case Up
    with rec det show thesis
      by (intro up [of w2]) (simp_all add: tick_sweep_def maintenance_tick_def run_tx_def)
  next
    case (Down_first e)
    with assms(2) show thesis by (intro down [of e w]) (simp_all add: tick_sweep_def world_ok_def)
  next
    case (Down_second e)
    with rec next_ok show thesis
      by (intro down [of e "sw_between s w1"]) (simp_all add: tick_sweep_def run_tx_def world_ok_def)
  qed
qed

section \<open>Properties\<close>

text \<open>
  C25: the maintenance loop survives. On reachable databases it never dies of an exception: it runs
  until \<^verbatim>\<open>stop\<close> is set and no longer, it writes one warning for each sweep before that in which
  the database was unavailable and no other, and the database stays reachable throughout.
\<close>

theorem maintenance_loop_survives:
  assumes "\<forall>s \<in> set ss. sweep_ok env c s" and "reachable env c (db w)"
  shows "\<exists>ls w'. maintain c ss w = (if \<exists>s \<in> set ss. sw_stop s then Stopped else Sweeping, ls, w')
    \<and> length ls = length (filter (\<lambda>s. sw_outage s \<noteq> Up) (takeWhile (\<lambda>s. \<not> sw_stop s) ss))
    \<and> reachable env c (db w')"
  using assms
proof (induction c ss w rule: maintain.induct)
  case (2 c s ss w)
  show ?case
  proof (cases "sw_stop s")
    case False
    have ok: "sweep_ok env c s" "world_ok env c (sw_begin s w)"
      using 2(3,4) by (auto simp: sweep_ok_def)
    have rest: "\<forall>s \<in> set ss. sweep_ok env c s" using 2(3) by simp
    show ?thesis
    proof (rule tick_sweep_cases [OF ok])
      fix w1
      assume up: "tick_sweep c s (sw_begin s w) = (Ticked, w1)" "sw_outage s = Up" "reachable env c (db w1)"
      from 2(1) [OF False up(1) [symmetric] refl rest up(3)] up False show ?thesis by simp
    next
      fix e w1
      assume down: "tick_sweep c s (sw_begin s w) = (Sql_error e, w1)"
        "sw_outage s \<in> {Down_first e, Down_second e}" "reachable env c (db w1)"
      from 2(2) [OF False down(1) [symmetric] refl rest down(3)] down False show ?thesis by auto
    qed
  qed (use 2 in simp)
qed simp

theorem maintenance_loop_survives_witness:
  "\<exists>ls w'. maintain demo_settings
      [\<lparr>sw_stop = False, sw_begin = \<lambda>w. demo_world (db w) 20000000 60,
        sw_between = \<lambda>w. demo_world (db w) 21000000 70, sw_outage = Down_first ''OperationalError''\<rparr>,
       \<lparr>sw_stop = False, sw_begin = \<lambda>w. demo_world (db w) 22000000 60,
        sw_between = \<lambda>w. demo_world (db w) 23000000 70, sw_outage = Up\<rparr>]
      (demo_world demo_running 5000 50) = (Sweeping, ls, w') \<and> length ls = 1"
proof -
  have ok: "sweep_ok demo_env demo_settings \<lparr>sw_stop = b, sw_begin = \<lambda>w. demo_world (db w) t u,
      sw_between = \<lambda>w. demo_world (db w) t' u', sw_outage = out\<rparr>" for b t u t' u' out
    using demo_scan demo_clock by (simp add: sweep_ok_def world_ok_def)
  show ?thesis
    using maintenance_loop_survives [of
        "[\<lparr>sw_stop = False, sw_begin = \<lambda>w. demo_world (db w) 20000000 60,
        sw_between = \<lambda>w. demo_world (db w) 21000000 70, sw_outage = Down_first ''OperationalError''\<rparr>,
       \<lparr>sw_stop = False, sw_begin = \<lambda>w. demo_world (db w) 22000000 60,
        sw_between = \<lambda>w. demo_world (db w) 23000000 70, sw_outage = Up\<rparr>]" demo_env demo_settings
        "demo_world demo_running 5000 50"] ok demo_running_reachable by (auto simp del: maintain.simps)
qed

end
