(* ===== verification/Routes.thy ===== *)
theory Routes
  imports Fleet Executors
begin

text \<open>
  The rest of \<^verbatim>\<open>greyqueue/api.py\<close>: the read-only routes, the handlers of database errors, the static
  files, and the OpenAPI document with the credentials it declares for each route.
\<close>

section \<open>Read-only routes\<close>

definition health_route :: "json dbtx" where
  "health_route = tx_return (JObj [(''status'', JStr ''ok''), (''version'', JStr ''1.0.0'')])"

definition workers_route ::
    "env \<Rightarrow> settings \<Rightarrow> string option \<Rightarrow> nat \<Rightarrow> worker_out list dbtx" where
  "workers_route env c auth limit = tx_bind (client c auth) (\<lambda>_. worker_rows env limit)"

definition operations_route ::
    "env \<Rightarrow> aggregates \<Rightarrow> settings \<Rightarrow> string option \<Rightarrow> snapshot_out dbtx" where
  "operations_route env agg c auth =
     tx_bind (client c auth) (\<lambda>_. snapshot env agg (cfg_queue_limit c))"

definition PROMETHEUS_TEXT :: string where
  "PROMETHEUS_TEXT = ''text/plain; version=0.0.4; charset=utf-8''"

definition metrics_route ::
    "env \<Rightarrow> aggregates \<Rightarrow> settings \<Rightarrow> string option \<Rightarrow> (string \<times> string) dbtx" where
  "metrics_route env agg c auth =
     tx_bind (client c auth) (\<lambda>_.
     tx_bind (snapshot env agg (cfg_queue_limit c)) (\<lambda>data.
     tx_return (PROMETHEUS_TEXT, prometheus env data)))"

text \<open>The file a static route sends, below the \<^verbatim>\<open>dashboard\<close> directory.\<close>

definition dashboard_route :: "exn + string" where
  "dashboard_route = Inr ''dashboard/index.html''"

definition asset_route :: "string \<Rightarrow> exn + string" where
  "asset_route name =
     (if name \<notin> {''app.js'', ''style.css''} then Inl (HTTPException 404 (Detail ''Not Found''))
      else Inr (''dashboard/'' @ name))"

text \<open>The bounds of the query parameters: \<^verbatim>\<open>STATE_FILTER\<close> is the empty text or one of the states.\<close>

definition STATE_FILTER :: "string \<Rightarrow> bool" where
  "STATE_FILTER s \<longleftrightarrow> s = [] \<or> s \<in> status_name ` set STATUSES"

datatype read_request =
    ReadJobs "string option" nat nat "string option"
  | ReadJob "string option" uuid
  | ReadAttempts "string option" uuid
  | ReadWorkers "string option" nat
  | ReadOperations "string option"
  | ReadMetrics "string option"
  | ReadHealth

fun read_accepted :: "read_request \<Rightarrow> bool" where
  "read_accepted (ReadJobs auth limit offset state) \<longleftrightarrow> 1 \<le> limit \<and> limit \<le> 200 \<and> offset \<le> 1000000
     \<and> (case state of None \<Rightarrow> True | Some s \<Rightarrow> length s \<le> 24 \<and> STATE_FILTER s)"
| "read_accepted (ReadWorkers auth limit) \<longleftrightarrow> 1 \<le> limit \<and> limit \<le> 200"
| "read_accepted _ \<longleftrightarrow> True"

fun read_transact :: "env \<Rightarrow> aggregates \<Rightarrow> settings \<Rightarrow> read_request \<Rightarrow> unit dbtx" where
  "read_transact env agg c (ReadJobs auth limit offset state) = effect (jobs_route env c auth limit offset state)"
| "read_transact env agg c (ReadJob auth i) = effect (job_route env c auth i)"
| "read_transact env agg c (ReadAttempts auth i) = effect (attempts_route c auth i)"
| "read_transact env agg c (ReadWorkers auth limit) = effect (workers_route env c auth limit)"
| "read_transact env agg c (ReadOperations auth) = effect (operations_route env agg c auth)"
| "read_transact env agg c (ReadMetrics auth) = effect (metrics_route env agg c auth)"
| "read_transact env agg c ReadHealth = effect health_route"

section \<open>Database errors\<close>

text \<open>
  An error of the driver can interrupt any transaction, which is then rolled back: the handlers
  \<^verbatim>\<open>unavailable\<close> and \<^verbatim>\<open>invalid_data\<close> answer it, any other is a 500.
\<close>

datatype driver_error = SQLTimeoutError | OperationalError | DataError | OtherDriverError

fun driver_response :: "driver_error \<Rightarrow> nat \<times> http_detail \<times> (string \<times> string) list" where
  "driver_response DataError = (422, Errors [(''value_error'', [''request''], ''Value cannot be stored'')], [])"
| "driver_response OtherDriverError = (500, Detail ''Internal Server Error'', [])"
| "driver_response e = (503, Detail ''Database temporarily unavailable'', [])"

definition serve :: "driver_error option \<Rightarrow> 'a dbtx \<Rightarrow> world
    \<Rightarrow> ((nat \<times> http_detail \<times> (string \<times> string) list) + 'a) \<times> world" where
  "serve fault m w = (case fault of None \<Rightarrow> handle m w | Some e \<Rightarrow> (Inl (driver_response e), w))"

section \<open>The OpenAPI document\<close>

definition dict_set :: "string \<Rightarrow> json \<Rightarrow> json \<Rightarrow> json" where
  "dict_set k v d =
     (case d of
        JObj kvs \<Rightarrow>
          if k \<in> fst ` set kvs then JObj (map (\<lambda>(n, x). (n, if n = k then v else x)) kvs)
          else JObj (kvs @ [(k, v)])
      | _ \<Rightarrow> d)"

definition map_values :: "(json \<Rightarrow> json) \<Rightarrow> json \<Rightarrow> json" where
  "map_values f d = (case d of JObj kvs \<Rightarrow> JObj (map (\<lambda>(k, v). (k, f v)) kvs) | _ \<Rightarrow> d)"

definition security_schemes :: json where
  "security_schemes = JObj
     [(''clientToken'', JObj [(''type'', JStr ''http''), (''scheme'', JStr ''bearer'')]),
      (''workerToken'', JObj [(''type'', JStr ''http''), (''scheme'', JStr ''bearer'')]),
      (''workerSession'', JObj [(''type'', JStr ''apiKey''), (''in'', JStr ''header''),
         (''name'', JStr ''X-Worker-Session'')])]"

text \<open>The schemes a path requires together; none for \<^verbatim>\<open>/health\<close>.\<close>

definition security_of :: "string \<Rightarrow> string list option" where
  "security_of path =
     (if path = ''/health'' then None
      else if path = ''/internal/workers/register'' then Some [''workerToken'']
      else if prefix ''/internal/'' path then Some [''workerToken'', ''workerSession'']
      else Some [''clientToken''])"

definition security_json :: "string list \<Rightarrow> json" where
  "security_json schemes = JArr [JObj (map (\<lambda>s. (s, JArr [])) schemes)]"

definition secure_path :: "string \<times> json \<Rightarrow> string \<times> json" where
  "secure_path p =
     (case security_of (fst p) of
        None \<Rightarrow> p
      | Some schemes \<Rightarrow> (fst p, map_values (dict_set ''security'' (security_json schemes)) (snd p)))"

text \<open>\<^verbatim>\<open>openapi\<close>: the document FastAPI generated, completed, or the one completed before.\<close>

definition openapi :: "json option \<Rightarrow> json \<Rightarrow> json" where
  "openapi cached generated =
     (case cached of
        Some schema \<Rightarrow> schema
      | None \<Rightarrow>
          let components = (if has_key ''components'' generated then dict_get ''components'' generated else JObj []);
              schema = dict_set ''components'' (dict_set ''securitySchemes'' security_schemes components) generated
          in dict_set ''paths''
               (case dict_get ''paths'' schema of JObj ps \<Rightarrow> JObj (map secure_path ps) | x \<Rightarrow> x) schema)"

section \<open>Paths and the credentials a request presents\<close>

fun request_path :: "request \<Rightarrow> string" where
  "request_path (SubmitReq auth b) = ''/jobs''"
| "request_path (CancelReq auth i) = ''/jobs/'' @ [CHR 0x7B] @ ''job_id'' @ [CHR 0x7D]"
| "request_path (DrainReq auth i) = ''/workers/'' @ [CHR 0x7B] @ ''worker_id'' @ [CHR 0x7D] @ ''/drain''"
| "request_path (RegisterReq auth b) = ''/internal/workers/register''"
| "request_path (HeartbeatReq auth i cr) = ''/internal/workers/heartbeat''"
| "request_path (ClaimReq auth b cr) = ''/internal/claim''"
| "request_path (StartReq auth i b cr) = ''/internal/jobs/'' @ [CHR 0x7B] @ ''job_id'' @ [CHR 0x7D] @ ''/start''"
| "request_path (RenewReq auth i b cr) = ''/internal/jobs/'' @ [CHR 0x7B] @ ''job_id'' @ [CHR 0x7D] @ ''/renew''"
| "request_path (FinishReq auth i b cr) = ''/internal/jobs/'' @ [CHR 0x7B] @ ''job_id'' @ [CHR 0x7D] @ ''/finish''"
| "request_path RecoverTx = []"
| "request_path DetectTx = []"

fun session_of :: "request \<Rightarrow> (string \<times> string option) option" where
  "session_of (HeartbeatReq auth i cr) = Some (i, cr)"
| "session_of (ClaimReq auth b cr) = Some (cl_worker_id b, cr)"
| "session_of (StartReq auth i b cr) = Some (as_worker_id b, cr)"
| "session_of (RenewReq auth i b cr) = Some (as_worker_id b, cr)"
| "session_of (FinishReq auth i b cr) = Some (as_worker_id b, cr)"
| "session_of _ = None"

definition session_held :: "env \<Rightarrow> database \<Rightarrow> string \<times> string option \<Rightarrow> bool" where
  "session_held env d s =
     (case worker_by_id (fst s) d of
        None \<Rightarrow> False
      | Some v \<Rightarrow> or_empty (w_session_hash v) \<noteq> []
          \<and> or_empty (w_session_hash v) = sha256 env (or_empty (snd s)))"

definition presents :: "env \<Rightarrow> settings \<Rightarrow> database \<Rightarrow> request \<Rightarrow> string \<Rightarrow> bool" where
  "presents env c d r scheme =
     (if scheme = ''clientToken'' then bearer r = Some (''Bearer '' @ cfg_client_token c)
      else if scheme = ''workerToken'' then bearer r = Some (''Bearer '' @ ws_worker_token c)
      else case session_of r of None \<Rightarrow> False | Some s \<Rightarrow> session_held env d s)"

section \<open>Lemmas\<close>

lemma identity_refuses:
  assumes "\<not> session_held env (db w) (i, cr)"
  shows "identity env i cr w = Inl (HTTPException 401 (Detail ''Invalid worker session''))"
  using assms by (auto simp: session_held_def identity_def tx_bind_def tx_get_def tx_raise_def Let_def
      split: option.splits)

lemma security_simps:
  "security_of (request_path (SubmitReq auth b)) = Some [''clientToken'']"
  "security_of (request_path (CancelReq auth i)) = Some [''clientToken'']"
  "security_of (request_path (DrainReq auth n)) = Some [''clientToken'']"
  "security_of (request_path (RegisterReq auth g)) = Some [''workerToken'']"
  "security_of (request_path (HeartbeatReq auth n cr)) = Some [''workerToken'', ''workerSession'']"
  "security_of (request_path (ClaimReq auth cl cr)) = Some [''workerToken'', ''workerSession'']"
  "security_of (request_path (StartReq auth i ab cr)) = Some [''workerToken'', ''workerSession'']"
  "security_of (request_path (RenewReq auth i ab cr)) = Some [''workerToken'', ''workerSession'']"
  "security_of (request_path (FinishReq auth i co cr)) = Some [''workerToken'', ''workerSession'']"
  by (simp_all add: security_of_def)

lemma authorize_cases:
  "client c auth w = (if auth = Some (''Bearer '' @ cfg_client_token c) then Inr ((), w)
     else Inl (HTTPException 401 (Detail ''Invalid bearer token'')))"
  "worker c auth w = (if auth = Some (''Bearer '' @ ws_worker_token c) then Inr ((), w)
     else Inl (HTTPException 401 (Detail ''Invalid bearer token'')))"
  by (auto simp: client_def worker_def authorize_def tx_return_def tx_raise_def)

lemma missing_credential:
  assumes "r \<noteq> RecoverTx" and "r \<noteq> DetectTx" and "security_of (request_path r) = Some schemes"
    and "s \<in> set schemes" and "\<not> presents env c (db w) r s"
  shows "\<exists>m. transact env c r w = Inl (HTTPException 401 (Detail m))"
  using assms
  by (cases r) (auto simp: security_of_def presents_def effect_def submit_route_def cancel_route_def
      drain_route_def register_route_def Let_def heartbeat_route_def claim_route_def start_route_def
      renew_route_def finish_route_def tx_bind_def authorize_cases identity_refuses)

text \<open>A transaction that only reads.\<close>

definition reads :: "'a dbtx \<Rightarrow> bool" where
  "reads m \<longleftrightarrow> (\<forall>w x w'. m w = Inr (x, w') \<longrightarrow> db w' = db w)"

lemma reads_intros:
  "reads (tx_return x)" "reads (tx_get f)" "reads (tx_raise e)" "reads database_time"
  "reads (client c auth)" "reads (get_job i)"
  by (auto simp: reads_def tx_return_def tx_get_def tx_raise_def database_time_def next_clock_def
      authorize_cases get_job_iff split: if_splits)

lemma reads_bind:
  assumes "reads m" and "\<And>x. reads (k x)"
  shows "reads (tx_bind m k)"
  using assms unfolding reads_def tx_bind_def by (auto split: sum.splits)

lemma reads_effect: "reads m \<Longrightarrow> reads (effect m)"
  unfolding effect_def by (intro reads_bind reads_intros)

lemma reads_snapshot: "reads (worker_rows env n)" "reads (snapshot env agg limit)"
  unfolding worker_rows_def snapshot_def Let_def case_prod_beta
  by (intro reads_bind reads_intros)+

lemma read_transact_reads: "reads (read_transact env agg c r)"
  by (cases r) (auto simp: jobs_route_def job_route_def attempts_route_def workers_route_def
      operations_route_def metrics_route_def health_route_def
      intro!: reads_effect reads_bind reads_intros reads_snapshot)

section \<open>Properties\<close>



text \<open>
  Reading is safe. Whatever a read-only route answers, success, refusal or a database error,
  the tables stay as they were; and when the database answers, a client with the token always gets
  the job list, the workers, the operations and the metrics.
\<close>

lemma reads_change_nothing:
  "db (snd (serve fault (read_transact env agg c r) w)) = db w
   \<and> (let gated = (if token = Some (''Bearer '' @ cfg_client_token c) then Inr ()
          else Inl (401, Detail ''Invalid bearer token'', [])) in
      fst (serve None (read_transact env agg c (ReadJobs token limit offset state)) w) = gated
      \<and> fst (serve None (read_transact env agg c (ReadWorkers token limit)) w) = gated
      \<and> fst (serve None (read_transact env agg c (ReadOperations token)) w) = gated
      \<and> fst (serve None (read_transact env agg c (ReadMetrics token)) w) = gated)"
proof -
  have "db (snd (serve fault (read_transact env agg c r) w)) = db w"
    using read_transact_reads [of env agg c r]
    by (auto simp: serve_def handle_def run_tx_def reads_def split: option.splits sum.splits)
  moreover obtain ws where ws: "worker_rows env n w = Inr (ws n, tick w)" for n
    by (simp add: worker_rows_def tx_bind_def database_time_def next_clock_def tx_get_def)
  moreover obtain data w' where "snapshot env agg (cfg_queue_limit c) w = Inr (data, w')"
    using ws [of 200] by (simp add: snapshot_def tx_bind_def tx_get_def database_time_def next_clock_def Let_def)
  ultimately show ?thesis
    by (auto simp: serve_def handle_def run_tx_def effect_def jobs_route_def workers_route_def
        operations_route_def metrics_route_def tx_bind_def authorize_cases tx_get_def tx_return_def Let_def)
qed

end
