(* ===== verification/Pools.thy ===== *)
theory Pools
  imports Executors
begin

text \<open>
  The process pool of \<^verbatim>\<open>greyqueue/executors.py\<close>: its warm-up behind a shared barrier, as steps of the pool and
  its processes, and the environments task processes are given.
\<close>

section \<open>Environments\<close>

definition TASK_ENV :: "string list" where
  "TASK_ENV = [''PATH'', ''SYSTEMROOT'', ''WINDIR'', ''TEMP'', ''TMP'', ''PYTHONPATH'', ''VIRTUAL_ENV'', ''LANG'']"

definition SECRETS :: "string list" where
  "SECRETS = [''WORKER_TOKEN'', ''CLIENT_TOKEN'', ''DATABASE_URL'', ''POSTGRES_PASSWORD'', ''APP_DB_PASSWORD'']"

text \<open>What the subprocess strategy passes on, and what the pool's initializer leaves.\<close>

definition subprocess_env :: "(string \<rightharpoonup> string) \<Rightarrow> string \<rightharpoonup> string" where
  "subprocess_env environ = environ |` set TASK_ENV"

definition bind_barrier_env :: "(string \<rightharpoonup> string) \<Rightarrow> string \<rightharpoonup> string" where
  "bind_barrier_env environ = fold (\<lambda>key e. e(key := None)) SECRETS environ"

section \<open>Warming the pool\<close>

text \<open>
  The standard library's pool spawns lazily: a submission uses a process whose last task has finished
  (\<open>idle\<close> counts these) and spawns a new one only if there is none and fewer than \<^verbatim>\<open>max_workers\<close> exist.
  A warm-up task that a process has taken waits at the barrier; when \<^verbatim>\<open>capacity\<close> tasks wait, all
  of them return.
\<close>

record pool =
  capacity :: nat
  submitted :: nat
  spawned :: nat
  idle :: nat
  queued :: nat
  waiting :: nat
  returned :: nat

definition new_pool :: "nat \<Rightarrow> pool" where
  "new_pool c = \<lparr>capacity = c, submitted = 0, spawned = 0, idle = 0, queued = 0, waiting = 0, returned = 0\<rparr>"

definition pool_submit :: "pool \<Rightarrow> pool" where
  "pool_submit p =
     (let p' = p\<lparr>submitted := submitted p + 1, queued := queued p + 1\<rparr> in
      if 0 < idle p then p'\<lparr>idle := idle p - 1\<rparr>
      else if spawned p < capacity p then p'\<lparr>spawned := spawned p + 1\<rparr>
      else p')"

inductive warm_step :: "pool \<Rightarrow> pool \<Rightarrow> bool" where
  submit_task: "submitted p < capacity p \<Longrightarrow> warm_step p (pool_submit p)"
| take_task: "0 < queued p \<Longrightarrow> waiting p < spawned p
    \<Longrightarrow> warm_step p (p\<lparr>queued := queued p - 1, waiting := waiting p + 1\<rparr>)"
| open_barrier: "waiting p = capacity p \<Longrightarrow> 0 < waiting p
    \<Longrightarrow> warm_step p (p\<lparr>waiting := 0, returned := returned p + waiting p, idle := idle p + waiting p\<rparr>)"

inductive_cases warm_stepE: "warm_step p q"

text \<open>The same pool without the barrier: a warm-up task returns as soon as it is taken.\<close>

inductive lazy_step :: "pool \<Rightarrow> pool \<Rightarrow> bool" where
  lazy_submit: "submitted p < capacity p \<Longrightarrow> lazy_step p (pool_submit p)"
| lazy_return: "0 < queued p \<Longrightarrow> 0 < spawned p
    \<Longrightarrow> lazy_step p (p\<lparr>queued := queued p - 1, returned := returned p + 1, idle := idle p + 1\<rparr>)"

section \<open>Lemmas\<close>

text \<open>Until the barrier opens every submitted task has a process of its own.\<close>

definition pool_inv :: "pool \<Rightarrow> bool" where
  "pool_inv p \<longleftrightarrow> 0 < capacity p \<and> submitted p \<le> capacity p \<and> spawned p = submitted p
     \<and> (if returned p = 0 then idle p = 0 \<and> queued p + waiting p = submitted p
        else returned p = capacity p \<and> submitted p = capacity p \<and> idle p = capacity p \<and> queued p = 0 \<and> waiting p = 0)"

text \<open>The steps that remain: submissions count two, tasks to take one, and the barrier.\<close>

definition warm_measure :: "pool \<Rightarrow> nat" where
  "warm_measure p = 2 * (capacity p - submitted p) + queued p + (if returned p = 0 then 1 else 0)"

lemma warm_inv: "pool_inv p \<Longrightarrow> warm_step p q \<Longrightarrow> pool_inv q \<and> capacity q = capacity p"
  by (erule warm_stepE) (auto simp: pool_inv_def pool_submit_def Let_def split: if_splits)

lemma warm_decreases: "pool_inv p \<Longrightarrow> warm_step p q \<Longrightarrow> warm_measure q < warm_measure p"
  by (erule warm_stepE) (auto simp: pool_inv_def warm_measure_def pool_submit_def Let_def split: if_splits)

interpretation warming: invariant_system warm_step pool_inv
  by unfold_locales (simp add: warm_inv)

lemma warm_run_length:
  assumes "(warm_step ^^ n) p q" and "pool_inv p"
  shows "n + warm_measure q \<le> warm_measure p"
  using assms
proof (induction n arbitrary: q)
  case (Suc n)
  then obtain r where r: "(warm_step ^^ n) p r" "warm_step r q" by auto
  have "pool_inv r" using warming.run_inv [OF relpowp_imp_rtranclp [OF r(1)] Suc.prems(2)] .
  from warm_decreases [OF this r(2)] Suc.IH [OF r(1) Suc.prems(2)] show ?case by simp
qed simp

lemma warm_stuck:
  assumes "pool_inv p" and "\<nexists>q. warm_step p q"
  shows "returned p = capacity p"
proof (rule ccontr)
  assume "returned p \<noteq> capacity p"
  with assms(1) have early: "returned p = 0" "queued p + waiting p = submitted p" "spawned p = submitted p"
    "submitted p \<le> capacity p" "0 < capacity p" by (auto simp: pool_inv_def split: if_splits)
  from assms(2) have full: "\<not> submitted p < capacity p" "\<not> (0 < queued p \<and> waiting p < spawned p)"
    "\<not> (waiting p = capacity p \<and> 0 < waiting p)" using warm_step.intros by blast+
  with early show False by auto
qed

text \<open>Without the barrier one process can serve both tasks of a pool of two.\<close>

lemma barrier_needed:
  "\<exists>q. lazy_step\<^sup>*\<^sup>* (new_pool 2) q \<and> (\<nexists>r. lazy_step q r) \<and> returned q = 2 \<and> spawned q = 1"
proof -
  let ?p1 = "pool_submit (new_pool 2)"
  let ?p2 = "?p1\<lparr>queued := 0, returned := 1, idle := 1\<rparr>"
  let ?q = "(pool_submit ?p2)\<lparr>queued := 0, returned := 2, idle := 1\<rparr>"
  have "lazy_step (new_pool 2) ?p1" by (rule lazy_submit) (simp add: new_pool_def)
  moreover have "lazy_step ?p1 ?p2"
    using lazy_return [of ?p1] by (simp add: pool_submit_def new_pool_def)
  moreover have "lazy_step ?p2 (pool_submit ?p2)" by (rule lazy_submit) (simp add: pool_submit_def new_pool_def)
  moreover have "lazy_step (pool_submit ?p2) ?q"
    using lazy_return [of "pool_submit ?p2"] by (simp add: pool_submit_def new_pool_def numeral_2_eq_2)
  ultimately have "lazy_step\<^sup>*\<^sup>* (new_pool 2) ?q"
    by (meson converse_rtranclp_into_rtranclp rtranclp.rtrancl_refl)
  moreover have "\<nexists>r. lazy_step ?q r" by (auto elim!: lazy_step.cases simp: pool_submit_def new_pool_def)
  ultimately show ?thesis by (intro exI [of _ ?q]) (simp add: pool_submit_def new_pool_def)
qed

text \<open>Task processes never see the worker's secrets.\<close>

lemma task_environments:
  "dom (subprocess_env environ) \<subseteq> set TASK_ENV" "set TASK_ENV \<inter> set SECRETS = {}"
  "k \<in> set SECRETS \<Longrightarrow> bind_barrier_env environ k = None"
  "k \<notin> set SECRETS \<Longrightarrow> bind_barrier_env environ k = environ k"
  by (auto simp: subprocess_env_def bind_barrier_env_def TASK_ENV_def SECRETS_def)

section \<open>Properties\<close>

text \<open>
  Warming the pool neither hangs nor leaves a process unspawned. However the submissions, the
  processes and the barrier interleave, the warm-up takes at most twice the capacity and one steps, and
  when no step is left every warm-up task has returned and exactly \<^verbatim>\<open>capacity\<close> processes exist, all
  of them free. Without the barrier this fails already for two: one process can serve both tasks.
\<close>

lemma warm_up_completes:
  assumes "0 < c" and "(warm_step ^^ n) (new_pool c) p"
  shows "n \<le> 2 * c + 1
    \<and> ((\<nexists>q. warm_step p q) \<longrightarrow> returned p = c \<and> spawned p = c \<and> idle p = c)
    \<and> (\<exists>q. lazy_step\<^sup>*\<^sup>* (new_pool 2) q \<and> (\<nexists>r. lazy_step q r) \<and> returned q = 2 \<and> spawned q = 1)"
proof -
  have inv0: "pool_inv (new_pool c)" using assms(1) by (simp add: pool_inv_def new_pool_def)
  note run = relpowp_imp_rtranclp [OF assms(2)]
  have "capacity p = c"
    by (rule warming.run_keeps [OF run inv0]) (auto simp: new_pool_def dest: warm_inv)
  then have p: "pool_inv p" "capacity p = c" using warming.run_inv [OF run inv0] by simp_all
  have "n \<le> 2 * c + 1" using warm_run_length [OF assms(2) inv0] by (simp add: warm_measure_def new_pool_def)
  moreover have "returned p = c \<and> spawned p = c \<and> idle p = c" if "\<nexists>q. warm_step p q"
    using warm_stuck [OF p(1) that] p assms(1) by (auto simp: pool_inv_def split: if_splits)
  ultimately show ?thesis using barrier_needed by blast
qed

end
