(* ===== verification/Composition.thy ===== *)
theory Composition
  imports Queue_Spec Worker
begin

text \<open>
  The worker and the coordinator together: one round of a worker's slot (\<^verbatim>\<open>consume\<close> and \<^verbatim>\<open>finish\<close> of
  \<^verbatim>\<open>worker.py\<close>) run against the routes of the coordinator (\<^verbatim>\<open>api.py\<close>) on the tables, with whatever
  happens between the calls supplied from outside.
\<close>

section \<open>A round against the coordinator\<close>

text \<open>A decisive answer as the worker sees it: the status of an error, or the body.\<close>

definition call :: "'a dbtx \<Rightarrow> world \<Rightarrow> (nat + 'a) \<times> world" where
  "call m w = (case handle m w of (Inl (st, d, hs), w') \<Rightarrow> (Inl st, w') | (Inr x, w') \<Rightarrow> (Inr x, w'))"

text \<open>The job the executor is given: the serialized job of the assignment.\<close>

definition exec_of :: "job_out \<Rightarrow> exec_job" where
  "exec_of job = \<lparr>ej_task = jo_task job, ej_args = jo_args job, ej_attempt_count = Some (jo_attempt_count job),
     ej_timeout = jo_timeout job\<rparr>"

text \<open>The body \<^verbatim>\<open>{**ownership, **result}\<close> as the \<^verbatim>\<open>Completion\<close> model reads it.\<close>

definition completion_of :: "string \<Rightarrow> uuid \<Rightarrow> json \<Rightarrow> completion" where
  "completion_of wid tok result =
     \<lparr>as_worker_id = wid, as_token = tok,
      co_output = (case dict_get ''output'' result of JNull \<Rightarrow> None | v \<Rightarrow> Some v),
      co_error = (case dict_get ''error'' result of JStr e \<Rightarrow> Some e | _ \<Rightarrow> None),
      co_retryable = (dict_get ''retryable'' result = JBool True)\<rparr>"

definition finish_call :: "env \<Rightarrow> settings \<Rightarrow> string option \<Rightarrow> string \<Rightarrow> string option \<Rightarrow> uuid \<Rightarrow> uuid
    \<Rightarrow> json \<Rightarrow> world \<Rightarrow> (nat + string) \<times> world" where
  "finish_call env c auth wid cred jid tok result w =
     (let body = completion_of wid tok result in
      if Completion_accepted env body then call (finish_route env c auth jid body cred) w
      else (Inl 422, w))"

text \<open>
  The strategy, what the execution observes, and the worlds in which the later calls arrive are
  supplied; \<open>uuid_of\<close> reads a UUID. The round is one whose execution ends before its renewal task
  fails; renewals are among what happens before the call of \<^verbatim>\<open>finish\<close>. \<open>None\<close>: the pool is broken
  and the process exits.
\<close>

record round_env =
  re_strategy :: string
  re_observed :: observation
  re_start :: "world \<Rightarrow> world"
  re_finish :: "world \<Rightarrow> world"
  re_report :: "world \<Rightarrow> world"
  re_uuid_of :: "string \<Rightarrow> uuid"

definition work_round :: "env \<Rightarrow> (string \<Rightarrow> json option) \<Rightarrow> settings \<Rightarrow> round_env \<Rightarrow> string option
    \<Rightarrow> claim_body \<Rightarrow> string option \<Rightarrow> world \<Rightarrow> round_end option \<times> world" where
  "work_round env loads c re auth body cred w =
     (case call (claim_route env c auth body cred) w of
        (Inl st, w1) \<Rightarrow> (Some (if st \<noteq> 409 then Crashed st else Polled), w1)
      | (Inr None, w1) \<Rightarrow> (Some Polled, w1)
      | (Inr (Some asg), w1) \<Rightarrow>
     let wid = cl_worker_id body;
         jid = re_uuid_of re (jo_id (out_job asg)); tok = re_uuid_of re (out_token asg) in
     (case call (start_route env c auth jid \<lparr>as_worker_id = wid, as_token = tok\<rparr> cred) (re_start re w1) of
        (Inl st, w2) \<Rightarrow> (Some (fenced_or_crash st), w2)
      | (Inr _, w2) \<Rightarrow>
     (case run_job env loads (re_strategy re) (exec_of (out_job asg)) (re_observed re) of
        None \<Rightarrow> (None, w2)
      | Some result \<Rightarrow>
     (case finish_call env c auth wid cred jid tok result (re_finish re w2) of
        (Inr _, w3) \<Rightarrow> (Some (Recorded (if has_key ''error'' result then ''FAILED'' else ''SUCCEEDED'')), w3)
      | (Inl st, w3) \<Rightarrow>
          if st \<notin> REJECTED then (Some (fenced_or_crash st), w3)
          else (case finish_call env c auth wid cred jid tok (rejection st) (re_report re w3) of
             (Inr _, w4) \<Rightarrow> (Some (Recorded ''FAILED''), w4)
           | (Inl st', w4) \<Rightarrow> (Some (fenced_or_crash st'), w4))))))"

section \<open>The holder of a lease is served\<close>

lemma call_Inr: "m w = Inr (x, w') \<Longrightarrow> call m w = (Inr x, w')"
  by (simp add: call_def handle_def run_tx_def)

lemma identity_keeps:
  assumes "identity env wid cred w = Inr (v, w)" and "workers (db w') = workers (db w)"
  shows "identity env wid cred w' = Inr (v, w')"
  using assms by (auto simp: identity_iff worker_by_id_def)

lemma holds_lookup:
  assumes "db_inv d" and "holds a j d"
  shows "job_by_id (j_id j) d = Some j" "attempt_by_id (a_id a) d = Some a"
  using assms inv_parts(1) [OF assms(1)]
  by (auto simp: holds_def job_by_id_def attempt_by_id_def keys_ok_def job_table.lookup_unique
      attempt_table.lookup_unique)

lemma holder_owned:
  assumes "db_inv (db w)" and "holds a j (db w)" and "clk w 0 < a_expires_at a"
  shows "owned (j_id j) (a_worker_id a) (a_id a) fin w = Inr ((j, a), tick w)"
  using assms holds_lookup [OF assms(1,2)] by (simp add: owned_iff holds_def)

lemma holder_starts:
  assumes inv: "db_inv (db w)" and held: "holds a j (db w)" and time: "clk w 0 < a_expires_at a"
  obtains w' j' a' where "start (j_id j) (a_worker_id a) (a_id a) w = Inr ((), w')" "db_inv (db w')"
    "workers (db w') = workers (db w)" "holds a' j' (db w')" "j_id j' = j_id j" "j_status j' = RUNNING"
    "a_id a' = a_id a" "a_worker_id a' = a_worker_id a" "a_expires_at a' = a_expires_at a"
proof -
  note own = holder_owned [OF inv held time, of False]
  have keys: "distinct (map j_id (jobs (db w)))" "distinct (map a_id (attempts (db w)))"
    using inv_parts(1) [OF inv] by (simp_all add: keys_ok_def)
  have rows: "j \<in> set (jobs (db w))" "a \<in> set (attempts (db w))" using held by (simp_all add: holds_def)
  have "j_status j \<in> {LEASED, RUNNING}" by (rule holds_running(1) [OF inv_parts(5) [OF inv] held])
  then consider "j_status j = RUNNING" | "j_status j = LEASED" by auto
  then show thesis
  proof cases
    case 1
    with own have "start (j_id j) (a_worker_id a) (a_id a) w = Inr ((), tick w)" by (auto simp: start_iff)
    with 1 inv held show thesis by (intro that [of "tick w" a j]) auto
  next
    case 2
    let ?a = "a\<lparr>a_started_at := Some (clk w (Suc 0))\<rparr>"
    let ?j = "j\<lparr>j_status := RUNNING, j_updated_at := clk w (Suc (Suc 0))\<rparr>"
    define w' where "w' = (tick (tick (tick w)))\<lparr>db := moved (tx_now w) (clk w (Suc (Suc 0))) (j_id j) RUNNING
      (set_attempt (a_id a) (\<lambda>a. a\<lparr>a_started_at := Some (clk w (Suc 0))\<rparr>) (db w))\<rparr>"
    have run: "start (j_id j) (a_worker_id a) (a_id a) w = Inr ((), w')"
      using own 2 by (auto simp: start_iff w'_def)
    have inv': "db_inv (db w')" using refines_run [OF start_refines inv run] by simp
    have "set (jobs (db w')) = insert ?j (set (jobs (db w)) - {j})"
      "set (attempts (db w')) = insert ?a (set (attempts (db w)) - {a})"
      using job_table.update_set [OF keys(1) rows(1)] attempt_table.update_set [OF keys(2) rows(2)]
      by (simp_all add: w'_def moved_def row_simps)
    then have "holds ?a ?j (db w')" using held by (simp add: holds_def)
    with run inv' show thesis
      by (intro that [of w' ?a ?j]) (simp_all add: w'_def moved_def row_simps)
  qed
qed

lemma holder_finishes:
  assumes inv: "db_inv (db w)" and held: "holds a j (db w)" and running: "j_status j = RUNNING"
    and time: "clk w 0 < a_expires_at a" "clk w 1 < a_expires_at a"
  obtains w' j' where "finish (j_id j) (a_worker_id a) (a_id a) (Some out) None retryable w = Inr ((), w')"
    "job_by_id (j_id j) (db w') = Some j'" "j_status j' = SUCCEEDED"
    "result_by_job (j_id j) (db w') = Some \<lparr>r_job_id = j_id j, r_output = Some out, r_error = None\<rparr>"
proof -
  note own = holder_owned [OF inv held time(1), of True]
  have rows: "j \<in> set (jobs (db w))" "active a" using held by (simp_all add: holds_def)
  have fresh: "j_id j \<notin> r_job_id ` set (results (db w))"
    using inv_parts(7) [OF inv] rows(1) running by (auto simp: results_ok_def)
  define w' where "w' = (tick (tick (tick (tick w))))\<lparr>db :=
     moved (tx_now w) (clk w (Suc (Suc (Suc 0)))) (j_id j) SUCCEEDED
      (with_result (j_id j) (Some out) None
        (set_attempt (a_id a) (\<lambda>a. a\<lparr>a_output := Some out, a_outcome := Some OutSucceeded,
           a_finished_at := Some (clk w (Suc (Suc 0)))\<rparr>) (db w)))\<rparr>"
  have run: "finish (j_id j) (a_worker_id a) (a_id a) (Some out) None retryable w = Inr ((), w')"
    using own rows running time(2) fresh by (auto simp: finish_iff w'_def)
  have "distinct (map j_id (jobs (db w)))" using inv_parts(1) [OF inv] by (simp add: keys_ok_def)
  from job_table.update_same [OF this rows(1)]
  have job: "job_by_id (j_id j) (db w')
      = Some (j\<lparr>j_status := SUCCEEDED, j_updated_at := clk w (Suc (Suc (Suc 0)))\<rparr>)"
    by (simp add: job_by_id_def w'_def moved_def row_simps)
  have inv': "db_inv (db w')" using refines_run [OF finish_refines inv run] by simp
  have "\<lparr>r_job_id = j_id j, r_output = Some out, r_error = None\<rparr> \<in> set (results (db w'))"
    by (simp add: w'_def moved_def row_simps)
  from result_unique [OF inv_parts(1) [OF inv'] this]
  have "result_by_job (j_id j) (db w') = Some \<lparr>r_job_id = j_id j, r_output = Some out, r_error = None\<rparr>"
    by simp
  moreover have "j_status (j\<lparr>j_status := SUCCEEDED, j_updated_at := clk w (Suc (Suc (Suc 0)))\<rparr>) = SUCCEEDED"
    by simp
  ultimately show thesis using that run job by blast
qed

text \<open>What a claim that returns an assignment leaves: a lease the worker holds.\<close>

lemma claim_route_holds:
  assumes inv: "db_inv (db w)" and run: "claim_route env c auth body cred w = Inr (Some asg, w1)"
  obtains job att v where "holds att job (db w1)" "db_inv (db w1)" "a_worker_id att = cl_worker_id body"
    "out_job asg = serialize env (db w1) None job" "out_token asg = uuid_text (a_id att)"
    "out_expires_at asg = a_expires_at att"
    "worker c auth w1 = Inr ((), w1)" "identity env (cl_worker_id body) cred w1 = Inr (v, w1)"
    "a_claim_id att = cl_claim_id body"
proof -
  from run obtain v job att where parts: "worker c auth w = Inr ((), w)"
    "identity env (cl_worker_id body) cred w = Inr (v, w)"
    "claim (cl_worker_id body) (cl_slot body) (Some (cl_claim_id body)) (cfg_scheduler c) (cfg_lease_seconds c) w
       = Inr (Some (job, att), w1)"
    "asg = \<lparr>out_job = serialize env (db w1) None job, out_token = uuid_text (a_id att),
       out_fence = a_fence att, out_expires_at = a_expires_at att\<rparr>"
  proof -
    let ?claim = "claim (cl_worker_id body) (cl_slot body) (Some (cl_claim_id body)) (cfg_scheduler c)
      (cfg_lease_seconds c)"
    from run obtain v w2 w3 item w4 where steps: "worker c auth w = Inr ((), w2)"
      "identity env (cl_worker_id body) cred w2 = Inr (v, w3)"
      "(case ?claim w3 of Inl (Invalid msg field) \<Rightarrow>
          Inl (HTTPException 422 (Errors (unprocessable (Invalid msg field)))) | Inl e \<Rightarrow> Inl e
        | Inr r \<Rightarrow> Inr r) = Inr (item, w4)"
      "(case item of None \<Rightarrow> tx_return None | Some (job, attempt) \<Rightarrow>
         tx_get (\<lambda>w. Some \<lparr>out_job = serialize env (db w) None job, out_token = uuid_text (a_id attempt),
            out_fence = a_fence attempt, out_expires_at = a_expires_at attempt\<rparr>)) w4 = (Inr (Some asg, w1) :: exn + assignment_out option \<times> world)"
      unfolding claim_route_def tx_bind_Inr by (elim exE conjE) (rule that, simp, assumption+)
    have same: "w2 = w" "w3 = w2" using steps(1,2)
      by (auto simp: worker_def authorize_def tx_return_def tx_raise_def identity_iff split: if_splits)
    have "?claim w3 = Inr (item, w4)" using steps(3) by (simp split: sum.splits exn.splits)
    moreover from steps(4) obtain job att where "item = Some (job, att)" "w4 = w1"
      "asg = \<lparr>out_job = serialize env (db w1) None job, out_token = uuid_text (a_id att),
         out_fence = a_fence att, out_expires_at = a_expires_at att\<rparr>"
      by (cases item) (auto simp: tx_return_def tx_get_def)
    ultimately show thesis using steps(1,2) same by (intro that) simp_all
  qed
  note rec = claim_recorded [OF inv parts(3)]
  have inv1: "db_inv (db w1)" using refines_run [OF claim_refines inv parts(3)] by simp
  have att: "att \<in> set (attempts (db w1))" using rec(1) by (auto dest: attempt_by_claim_Some)
  have job: "job \<in> set (jobs (db w1))" "j_id job = a_job_id att" using job_by_id_Some [OF rec(5)] by auto
  have "holds att job (db w1)"
    using inv_lease [OF inv1 job(1) att job(2) [symmetric]] att job rec(4) by (simp add: holds_def lease_ok_def)
  moreover have "worker c auth w1 = Inr ((), w1)"
    using parts(1) by (auto simp: worker_def authorize_def tx_return_def tx_raise_def split: if_splits)
  ultimately show thesis
    using inv1 rec(2) parts(4) identity_keeps [OF parts(2) rec(6)] attempt_by_claim_Some [OF rec(1)]
    by (intro that [of att job v]) simp_all
qed

lemma run_job_storable:
  assumes "run_job env loads strategy job obs = Some (success out)"
  shows "\<exists>e. storable (float_repr env) out OUTPUT_LIMIT ''Output'' = Inr e"
proof -
  from assms obtain r where r: "bounded env r = success out"
    by (auto simp: run_job_def failure_def success_def split: if_splits sum.splits)
  then have "has_key ''output'' (bounded env r)" by simp
  from bounded_storable(1) [OF this] bounded_storable(2) [OF this, of "''Output''"] r show ?thesis
    by (metis has_key_failure(7))
qed

lemma completion_of_success:
  assumes "Identity_fields wid" and "is_dict out"
    and "storable (float_repr env) out OUTPUT_LIMIT ''Output'' = Inr e"
  shows "completion_of wid tok (success out) = \<lparr>as_worker_id = wid, as_token = tok, co_output = Some out,
      co_error = None, co_retryable = False\<rparr>"
    and "Completion_accepted env (completion_of wid tok (success out))"
proof -
  show eq: "completion_of wid tok (success out) = \<lparr>as_worker_id = wid, as_token = tok, co_output = Some out,
      co_error = None, co_retryable = False\<rparr>"
    using assms(2) by (cases out) (simp_all add: completion_of_def success_def dict_get_def is_dict_def)
  show "Completion_accepted env (completion_of wid tok (success out))"
    using assms unfolding eq
    by (cases out) (simp_all add: Completion_accepted_def result_shape_def opt_json_def opt_str_def storable_def
        is_dict_def TEXT_LIMIT_def nul_escape_def sublist_code split: option.splits if_splits)
qed

text \<open>
  What may happen between two calls of a round: other transactions that keep the worker's own lease
  rows and its session.
\<close>

definition keeps_lease :: "env \<Rightarrow> string \<Rightarrow> string option \<Rightarrow> (world \<Rightarrow> world) \<Rightarrow> bool" where
  "keeps_lease env wid cred f \<longleftrightarrow> (\<forall>x. (db_inv (db x) \<longrightarrow> db_inv (db (f x)))
     \<and> (\<forall>a j. holds a j (db x) \<and> a_worker_id a = wid \<longrightarrow> holds a j (db (f x)))
     \<and> (\<forall>v. identity env wid cred x = Inr (v, x) \<longrightarrow> identity env wid cred (f x) = Inr (v, f x)))"

lemma keeps_leaseI:
  assumes "\<And>x. db (f x) = db x"
  shows "keeps_lease env wid cred f"
  unfolding keeps_lease_def using assms by (auto elim: identity_keeps)

section \<open>Properties\<close>


definition demo_round :: round_env where
  "demo_round = \<lparr>re_strategy = ''thread'', re_observed = Returned,
     re_start = (\<lambda>x. demo_world (db x) 4000 30), re_finish = (\<lambda>x. demo_world (db x) 5000 40),
     re_report = (\<lambda>x. demo_world (db x) 6000 50),
     re_uuid_of = (\<lambda>s. if s = uuid_text 10 then 10 else 20)\<rparr>"

definition demo_assignment :: assignment_out where
  "demo_assignment = \<lparr>out_job = serialize demo_env demo_leased None (demo_job LEASED 1 3001),
     out_token = uuid_text 20, out_fence = 1, out_expires_at = 10003000\<rparr>"

lemma demo_claim_route:
  "claim_route demo_env demo_settings demo_worker demo_claim_body (Some demo_session) (demo_world demo_queued 3000 20)
     = Inr (Some demo_assignment, (tick (tick (demo_world demo_queued 3000 20)))
         \<lparr>uuids := (\<lambda>n. 20 + Suc n), db := demo_leased\<rparr>)"
proof -
  have "workers demo_queued = [demo_worker_row]" by (simp add: demo_dbs)
  then show ?thesis using demo_claim
    by (simp add: claim_route_def tx_bind_def demo_auth demo_identity tx_get_def
        demo_claim_body_def demo_settings_fields demo_assignment_def demo_attempt_def)
qed

lemma demo_execution:
  "run_job demo_env loads ''thread'' (exec_of (out_job demo_assignment)) Returned
     = Some (success (JObj [(''attempt'', JInt 1), (''recovered'', JBool True)]))"
proof -
  have "execute demo_env ''flaky'' demo_args 1 = Inr (0, JObj [(''attempt'', JInt 1), (''recovered'', JBool True)])"
    by (simp add: execute_def validate_def REGISTRY_def demo_env_def args_defs in_range_def demo_args_def
        obj_get_def)
  then have "invoke demo_env (exec_of (out_job demo_assignment))
      = Inr (success (JObj [(''attempt'', JInt 1), (''recovered'', JBool True)]))"
    by (simp add: invoke_def exec_of_def demo_assignment_def serialize_def serialize_with_def demo_job_def)
  then show ?thesis
    by (simp add: run_job_def dispatch_def bounded_def OUTPUT_LIMIT_def demo_env_def encoded_member_def quoted_def
        escape_char_def int_text_def nat_text.simps digit_char_def nul_escape_def sublist_code)
qed


end
