(* ===== verification/Supervision.thy ===== *)
theory Supervision
  imports Worker
begin

text \<open>
  \<^verbatim>\<open>worker.run\<close>: the tasks of a worker process (the heartbeat and one loop per slot) as interleaved
  steps, the stop event they share, and the supervision that ends the process. What a call answers is
  part of the event that reports it.
\<close>

section \<open>Slots, heartbeat and stop event\<close>

text \<open>Why a slot's task fails: a status that is not its job's own, or the broken pool.\<close>

datatype slot_error = Status nat | Broken_pool

text \<open>
  Where the task of a slot is: at the head of its loop (or polling), waiting for the answer to a claim,
  working on an assignment, or over.
\<close>

datatype slot_state = Head | Claiming | Holding | Left | Failed slot_error | Cancelled

record worker_proc =
  stop_set :: bool
  beat_error :: "nat option"
  slot_states :: "slot_state list"

definition started_proc :: "nat \<Rightarrow> worker_proc" where
  "started_proc capacity = \<lparr>stop_set = False, beat_error = None, slot_states = replicate capacity Head\<rparr>"

definition running_slot :: "slot_state \<Rightarrow> bool" where
  "running_slot s = (s = Head \<or> s = Claiming \<or> s = Holding)"

definition is_failed :: "slot_state \<Rightarrow> bool" where
  "is_failed s = (case s of Failed e \<Rightarrow> True | _ \<Rightarrow> False)"

text \<open>\<^verbatim>\<open>while not stop.is_set()\<close>.\<close>

definition loop_head :: "bool \<Rightarrow> slot_state" where
  "loop_head stop = (if stop then Left else Claiming)"

definition claim_answered :: "post_outcome \<Rightarrow> slot_state" where
  "claim_answered claimed =
     (case claimed of
        StatusError st \<Rightarrow> if st \<noteq> 409 then Failed (Status st) else Head
      | Answer assignment \<Rightarrow> if assignment = JNull then Head else Holding)"

definition round_over :: "round_end \<Rightarrow> slot_state" where
  "round_over r = (case r of Crashed st \<Rightarrow> Failed (Status st) | _ \<Rightarrow> Head)"

text \<open>The rest of a round whose claim returned an assignment; \<open>None\<close> for a result: the pool is broken.\<close>

definition work_over ::
    "post_outcome \<Rightarrow> nat option \<Rightarrow> json option \<Rightarrow> post_outcome \<Rightarrow> post_outcome \<Rightarrow> slot_state" where
  "work_over started renewal result first second =
     (case result of
        Some r \<Rightarrow> round_over (consume_round (Answer (JObj [])) started renewal r first second)
      | None \<Rightarrow>
          (case started of
             StatusError st \<Rightarrow> round_over (fenced_or_crash st)
           | Answer _ \<Rightarrow> (case renewal of
               Some st \<Rightarrow> round_over (fenced_or_crash st)
             | None \<Rightarrow> Failed Broken_pool)))"

definition beaten :: "post_outcome \<Rightarrow> worker_proc \<Rightarrow> worker_proc" where
  "beaten r p =
     (case heartbeat [r] (stop_set p) of
        Inl st \<Rightarrow> p\<lparr>beat_error := Some st\<rparr>
      | Inr s \<Rightarrow> p\<lparr>stop_set := s\<rparr>)"

definition set_slot :: "nat \<Rightarrow> slot_state \<Rightarrow> worker_proc \<Rightarrow> worker_proc" where
  "set_slot i s p = p\<lparr>slot_states := (slot_states p)[i := s]\<rparr>"

text \<open>
  A failed heartbeat has the slots cancelled; a failed slot has its siblings cancelled by the task group.
\<close>

definition cancelling :: "worker_proc \<Rightarrow> bool" where
  "cancelling p = (beat_error p \<noteq> None \<or> list_ex is_failed (slot_states p))"

datatype proc_event =
    Signal
  | Beat post_outcome
  | Loop nat
  | Claimed nat post_outcome
  | Worked nat post_outcome "nat option" "json option" post_outcome post_outcome
  | Cancel nat

inductive proc_step :: "worker_proc \<Rightarrow> proc_event \<Rightarrow> worker_proc \<Rightarrow> bool" where
  signal: "proc_step p Signal (p\<lparr>stop_set := True\<rparr>)"
| beat: "beat_error p = None \<Longrightarrow> proc_step p (Beat r) (beaten r p)"
| loop: "i < length (slot_states p) \<Longrightarrow> slot_states p ! i = Head
    \<Longrightarrow> proc_step p (Loop i) (set_slot i (loop_head (stop_set p)) p)"
| claimed: "i < length (slot_states p) \<Longrightarrow> slot_states p ! i = Claiming
    \<Longrightarrow> proc_step p (Claimed i r) (set_slot i (claim_answered r) p)"
| worked: "i < length (slot_states p) \<Longrightarrow> slot_states p ! i = Holding
    \<Longrightarrow> proc_step p (Worked i started renewal result first second)
          (set_slot i (work_over started renewal result first second) p)"
| cancel: "i < length (slot_states p) \<Longrightarrow> running_slot (slot_states p ! i) \<Longrightarrow> cancelling p
    \<Longrightarrow> proc_step p (Cancel i) (set_slot i Cancelled p)"

inductive_cases proc_stepE: "proc_step p e q"

inductive proc_run :: "worker_proc \<Rightarrow> proc_event list \<Rightarrow> worker_proc \<Rightarrow> bool" where
  done_run: "proc_run p [] p"
| more_run: "proc_step p e q \<Longrightarrow> proc_run q es r \<Longrightarrow> proc_run p (e # es) r"

section \<open>How the process ends\<close>

datatype worker_error = Heartbeat_error nat | Slot_errors "slot_error list" | Cancelled_error

datatype task_end = Task_done | Task_raised worker_error | Task_cancelled

text \<open>The task group of the slots: its exception group, or its cancellation; \<open>None\<close> while a slot runs.\<close>

definition slots_end :: "worker_proc \<Rightarrow> task_end option" where
  "slots_end p =
     (if list_ex running_slot (slot_states p) then None
      else if list_ex is_failed (slot_states p)
        then Some (Task_raised (Slot_errors [e. Failed e \<leftarrow> slot_states p]))
      else if Cancelled \<in> set (slot_states p) then Some Task_cancelled
      else Some Task_done)"

definition task_result :: "task_end \<Rightarrow> worker_error + unit" where
  "task_result t =
     (case t of Task_done \<Rightarrow> Inr () | Task_raised e \<Rightarrow> Inl e | Task_cancelled \<Rightarrow> Inl Cancelled_error)"

text \<open>\<^verbatim>\<open>with suppress(asyncio.CancelledError): await task\<close>.\<close>

definition await_suppressed :: "task_end \<Rightarrow> worker_error + unit" where
  "await_suppressed t = (case t of Task_raised e \<Rightarrow> Inl e | _ \<Rightarrow> Inr ())"

text \<open>
  The body of the \<^verbatim>\<open>try\<close>, then the \<^verbatim>\<open>finally\<close>: an error raised there replaces the body's and leaves
  before \<^verbatim>\<open>executor.close()\<close>. A heartbeat still pending (\<open>None\<close>) is cancelled. Second component: whether
  the executor was closed.
\<close>

definition supervise :: "task_end option \<Rightarrow> task_end \<Rightarrow> (worker_error + unit) \<times> bool" where
  "supervise beat slots =
     (let body = (case beat of
            Some h \<Rightarrow> (case await_suppressed slots of Inl e \<Rightarrow> Inl e | Inr _ \<Rightarrow> task_result h)
          | None \<Rightarrow> task_result slots);
          pending = (case beat of Some h \<Rightarrow> h | None \<Rightarrow> Task_cancelled) in
      (case await_suppressed pending of
         Inl e \<Rightarrow> (Inl e, False)
       | Inr _ \<Rightarrow> (case await_suppressed slots of Inl e \<Rightarrow> (Inl e, False) | Inr _ \<Rightarrow> (body, True))))"

definition process_end :: "worker_proc \<Rightarrow> ((worker_error + unit) \<times> bool) option" where
  "process_end p =
     map_option (supervise (map_option (\<lambda>st. Task_raised (Heartbeat_error st)) (beat_error p))) (slots_end p)"

section \<open>Lemmas\<close>

lemmas proc_simps = set_slot_def beaten_def loop_head_def

lemma set_slot_fields [simp]:
  "stop_set (set_slot i s p) = stop_set p" "beat_error (set_slot i s p) = beat_error p"
  "slot_states (set_slot i s p) = (slot_states p)[i := s]"
  by (simp_all add: set_slot_def)

lemma beaten_fields [simp]:
  "slot_states (beaten r p) = slot_states p" "stop_set p \<Longrightarrow> stop_set (beaten r p)"
  by (auto simp: beaten_def split: sum.splits post_outcome.splits) (cases r; simp)+

lemma cancelling_beaten: "cancelling p \<Longrightarrow> cancelling (beaten r p)"
  by (auto simp: cancelling_def beaten_def split: sum.splits)

lemma step_keeps_stop: "proc_step p e q \<Longrightarrow> stop_set p \<Longrightarrow> stop_set q"
  by (auto elim!: proc_stepE)

text \<open>Slots leave their loop only when asked to stop, and are cancelled only beside a failure.\<close>

definition proc_inv :: "worker_proc \<Rightarrow> bool" where
  "proc_inv p \<longleftrightarrow> (Left \<in> set (slot_states p) \<longrightarrow> stop_set p) \<and> (Cancelled \<in> set (slot_states p) \<longrightarrow> cancelling p)"

lemma claim_answered_other [simp]: "claim_answered r \<noteq> Left" "claim_answered r \<noteq> Cancelled"
  by (simp_all add: claim_answered_def split: post_outcome.splits)

lemma work_over_other [simp]: "work_over a b c d e \<noteq> Left" "work_over a b c d e \<noteq> Cancelled"
  by (auto simp: work_over_def round_over_def split: option.splits post_outcome.splits round_end.splits)

lemma list_ex_update:
  assumes "i < length xs" and "\<not> P (xs ! i)" and "list_ex P xs"
  shows "list_ex P (xs[i := x])"
  using assms by (auto simp: list_ex_length nth_list_update)

lemma cancelling_set_slot:
  assumes "cancelling p" and "i < length (slot_states p)" and "\<not> is_failed (slot_states p ! i)"
  shows "cancelling (set_slot i s p)"
  using assms list_ex_update [of i "slot_states p" is_failed s] by (auto simp: cancelling_def)

lemma proc_inv_set_slot:
  assumes "proc_inv p" and "i < length (slot_states p)" and "running_slot (slot_states p ! i)"
    and "s = Left \<Longrightarrow> stop_set p" and "s = Cancelled \<Longrightarrow> cancelling p"
  shows "proc_inv (set_slot i s p)"
proof -
  have "\<not> is_failed (slot_states p ! i)" using assms(3) by (auto simp: running_slot_def is_failed_def)
  with cancelling_set_slot [OF _ assms(2)] assms set_update_subset_insert [of "slot_states p" i s]
  show ?thesis by (auto simp: proc_inv_def)
qed

text \<open>How many more steps a slot can take once the stop event is set.\<close>

fun steps_left :: "slot_state \<Rightarrow> nat" where
  "steps_left Head = 1"
| "steps_left Claiming = 3"
| "steps_left Holding = 2"
| "steps_left s = 0"

definition slot_event :: "proc_event \<Rightarrow> bool" where
  "slot_event e = (case e of Signal \<Rightarrow> False | Beat r \<Rightarrow> False | _ \<Rightarrow> True)"

definition drain_measure :: "worker_proc \<Rightarrow> nat" where
  "drain_measure p = sum_list (map steps_left (slot_states p))"

lemma steps_left_smaller:
  "steps_left (claim_answered r) < steps_left Claiming"
  "steps_left (work_over started renewal result first second) < steps_left Holding"
  by (auto simp: claim_answered_def work_over_def round_over_def
      split: option.splits post_outcome.splits round_end.splits)

lemma slot_stepE:
  assumes "proc_step p e q" and "slot_event e"
  obtains i s where "i < length (slot_states p)" "running_slot (slot_states p ! i)" "q = set_slot i s p"
    "s = Left \<Longrightarrow> stop_set p" "s = Cancelled \<Longrightarrow> cancelling p"
    "stop_set p \<Longrightarrow> steps_left s < steps_left (slot_states p ! i)" "stop_set p \<Longrightarrow> s \<noteq> Claiming"
  using assms
proof (cases rule: proc_step.cases)
  case (loop i)
  then show thesis
    by (intro that [of i "loop_head (stop_set p)"]) (auto simp: running_slot_def loop_head_def split: if_splits)
next
  case (claimed i r)
  then show thesis using steps_left_smaller(1) [of r]
    by (intro that [of i "claim_answered r"])
      (auto simp: running_slot_def claim_answered_def split: post_outcome.splits if_splits)
next
  case (worked i started renewal result first second)
  then show thesis using steps_left_smaller(2) [of started renewal result first second]
    by (intro that [of i "work_over started renewal result first second"])
      (auto simp: running_slot_def work_over_def round_over_def split: option.splits post_outcome.splits round_end.splits)
next
  case (cancel i)
  then show thesis by (intro that [of i Cancelled]) (auto simp: running_slot_def)
qed (simp_all add: slot_event_def)

lemma other_step:
  assumes "proc_step p e q" and "\<not> slot_event e"
  shows "slot_states q = slot_states p" "stop_set p \<Longrightarrow> stop_set q" "cancelling p \<Longrightarrow> cancelling q"
  using assms
  by (auto elim!: proc_stepE simp: slot_event_def cancelling_beaten) (simp add: cancelling_def)

lemma proc_inv_step:
  assumes "proc_inv p" and "proc_step p e q"
  shows "proc_inv q"
proof (cases "slot_event e")
  case True
  with assms(2) show ?thesis by (rule slot_stepE) (auto intro: proc_inv_set_slot [OF assms(1)])
next
  case False
  with other_step [OF assms(2)] assms(1) show ?thesis by (simp add: proc_inv_def)
qed

interpretation process: invariant_system "\<lambda>p q. \<exists>e. proc_step p e q" proc_inv
  by unfold_locales (auto intro: proc_inv_step)

lemma run_steps: "proc_run p es q \<Longrightarrow> (\<lambda>p q. \<exists>e. proc_step p e q)\<^sup>*\<^sup>* p q"
  by (induction rule: proc_run.induct) (auto intro: converse_rtranclp_into_rtranclp)

lemma run_slots: "proc_run p es q \<Longrightarrow> length (slot_states q) = length (slot_states p)"
proof (induction rule: proc_run.induct)
  case (more_run p e q es r)
  then show ?case by (cases rule: proc_step.cases [OF more_run(1)]) simp_all
qed simp

lemma started_inv: "proc_inv (started_proc n)"
  by (simp add: proc_inv_def started_proc_def)

lemma drain_measure_set_slot:
  assumes "i < length (slot_states p)" and "steps_left s < steps_left (slot_states p ! i)"
  shows "drain_measure (set_slot i s p) < drain_measure p"
proof -
  have "steps_left (slot_states p ! i) \<le> drain_measure p"
    using assms(1) by (auto simp: drain_measure_def intro: member_le_sum_list)
  with assms show ?thesis by (simp add: drain_measure_def map_update sum_list_update)
qed

lemma drain_step:
  assumes "proc_step p e q" and "stop_set p"
  shows "drain_measure q + (if slot_event e then 1 else 0) \<le> drain_measure p"
    and "i < length (slot_states p) \<Longrightarrow> slot_states q ! i = Claiming \<Longrightarrow> slot_states p ! i = Claiming"
    and "length (slot_states q) = length (slot_states p)"
proof -
  have "drain_measure q + (if slot_event e then 1 else 0) \<le> drain_measure p
    \<and> (i < length (slot_states p) \<longrightarrow> slot_states q ! i = Claiming \<longrightarrow> slot_states p ! i = Claiming)
    \<and> length (slot_states q) = length (slot_states p)"
  proof (cases "slot_event e")
    case True
    with assms(1) show ?thesis
      by (rule slot_stepE) (use assms(2) True drain_measure_set_slot in \<open>auto simp: nth_list_update Suc_le_eq\<close>)
  next
    case False
    with other_step [OF assms(1)] show ?thesis by (simp add: drain_measure_def)
  qed
  then show "drain_measure q + (if slot_event e then 1 else 0) \<le> drain_measure p"
    "i < length (slot_states p) \<Longrightarrow> slot_states q ! i = Claiming \<Longrightarrow> slot_states p ! i = Claiming"
    "length (slot_states q) = length (slot_states p)" by auto
qed

lemma slots_end_stuck:
  assumes "\<And>e r. proc_step p e r \<Longrightarrow> \<not> slot_event e"
  shows "slots_end p \<noteq> None"
proof
  assume "slots_end p = None"
  then obtain i where i: "i < length (slot_states p)" "running_slot (slot_states p ! i)"
    by (auto simp: slots_end_def list_ex_length split: if_splits)
  then consider "slot_states p ! i = Head" | "slot_states p ! i = Claiming" | "slot_states p ! i = Holding"
    by (auto simp: running_slot_def)
  then show False
    using i(1) assms [OF proc_step.loop] assms [OF proc_step.claimed] assms [OF proc_step.worked]
    by cases (auto simp: slot_event_def)
qed

lemma clean_end:
  assumes "proc_inv p" and "slots_end p = Some t" and "\<not> cancelling p"
  shows "t = Task_done" "set (slot_states p) \<subseteq> {Left}" "beat_error p = None"
proof -
  have "s = Left" if "s \<in> set (slot_states p)" for s
    using assms that
    by (cases s) (auto simp: proc_inv_def slots_end_def cancelling_def list_ex_iff running_slot_def is_failed_def
        split: if_splits)
  then show "set (slot_states p) \<subseteq> {Left}" by blast
  show "beat_error p = None" using assms(3) by (simp add: cancelling_def)
  show "t = Task_done" using assms by (auto simp: slots_end_def proc_inv_def cancelling_def split: if_splits)
qed

section \<open>Properties\<close>

text \<open>
  Draining terminates. Once the stop event is set (by a signal or a heartbeat answered DRAINING) it
  stays set, no slot starts another claim, and the slots take at most three more steps each, whatever
  is answered; when none can take a step, every slot is over, and if nothing failed the process ends
  normally with the executor closed.
\<close>

lemma drain_terminates:
  assumes run: "proc_run p es q" and stop: "stop_set p" and inv: "proc_inv p"
  shows "stop_set q
    \<and> (\<forall>i. slot_states q ! i = Claiming \<longrightarrow> i < length (slot_states p) \<longrightarrow> slot_states p ! i = Claiming)
    \<and> length (filter slot_event es) \<le> 3 * length (slot_states p)
    \<and> ((\<forall>e r. proc_step q e r \<longrightarrow> \<not> slot_event e) \<longrightarrow> process_end q \<noteq> None
         \<and> (\<not> cancelling q \<longrightarrow> process_end q = Some (Inr (), True)))"
proof -
  have "steps_left s \<le> 3" for s by (cases s) auto
  then have "sum_list (map steps_left ss) \<le> 3 * length ss" for ss
    by (induction ss) (auto intro: add_mono)
  then have bound: "drain_measure p \<le> 3 * length (slot_states p)" by (simp add: drain_measure_def)
  have "drain_measure q + length (filter slot_event es) \<le> drain_measure p \<and> stop_set q
      \<and> (\<forall>i. slot_states q ! i = Claiming \<longrightarrow> i < length (slot_states p) \<longrightarrow> slot_states p ! i = Claiming)"
    using run stop
  proof induction
    case (more_run p e q es r)
    from drain_step [OF more_run(1,4)] more_run(3) step_keeps_stop [OF more_run(1,4)] show ?case
      by fastforce
  qed auto
  moreover have "proc_inv q" by (rule process.run_inv [OF run_steps [OF run] inv])
  then have "process_end q = Some (Inr (), True)" if "slots_end q \<noteq> None" "\<not> cancelling q"
    using that clean_end [of q] by (auto simp: process_end_def supervise_def await_suppressed_def task_result_def)
  moreover have "process_end q \<noteq> None" if "slots_end q \<noteq> None" using that by (simp add: process_end_def)
  moreover have "slots_end q \<noteq> None" if "\<forall>e r. proc_step q e r \<longrightarrow> \<not> slot_event e"
    using slots_end_stuck that by blast
  ultimately show ?thesis using bound by (intro conjI impI) auto
qed

text \<open>
  C27: how a worker process ends. It ends normally exactly when no task failed, and then only because it
  was asked to stop and every slot left its loop with no job in hand; a failed heartbeat is always the
  error that surfaces. The executor is closed only on the normal path: in the \<^verbatim>\<open>finally\<close> awaiting the
  failed task raises again before \<^verbatim>\<open>executor.close()\<close> is reached.
\<close>

theorem process_ends_cleanly_or_raises:
  assumes run: "proc_run (started_proc n) es p" and capacity: "0 < n"
    and ended: "process_end p = Some (out, shut)"
  shows "(out = Inr () \<longleftrightarrow> \<not> cancelling p)
    \<and> (out = Inr () \<longrightarrow> stop_set p \<and> set (slot_states p) = {Left} \<and> length (slot_states p) = n)
    \<and> (\<forall>st. beat_error p = Some st \<longrightarrow> out = Inl (Heartbeat_error st))
    \<and> (shut \<longleftrightarrow> out = Inr ())"
proof -
  have inv: "proc_inv p" by (rule process.run_inv [OF run_steps [OF run] started_inv])
  have len: "length (slot_states p) = n"
    using run_slots [OF run] by (simp add: started_proc_def)
  obtain t where t: "slots_end p = Some t"
    "(out, shut) = supervise (map_option (\<lambda>st. Task_raised (Heartbeat_error st)) (beat_error p)) t"
    using ended by (auto simp: process_end_def)
  show ?thesis
  proof (cases "cancelling p")
    case False
    from clean_end [OF inv t(1) False] len capacity have "t = Task_done" "beat_error p = None" "set (slot_states p) = {Left}"
      by (auto simp: subset_singleton_iff)
    with t(2) False inv len show ?thesis
      by (auto simp: supervise_def await_suppressed_def task_result_def proc_inv_def)
  next
    case True
    then consider st where "beat_error p = Some st" | "beat_error p = None" "list_ex is_failed (slot_states p)"
      by (auto simp: cancelling_def)
    then show ?thesis
    proof cases
      case 1
      with t(2) True show ?thesis by (auto simp: supervise_def await_suppressed_def)
    next
      case 2
      with t True show ?thesis
        by (auto simp: supervise_def await_suppressed_def slots_end_def split: if_splits)
    qed
  qed
qed

theorem process_ends_cleanly_or_raises_witness:
  "process_end \<lparr>stop_set = False, beat_error = Some 401, slot_states = [Cancelled]\<rparr>
     = Some (Inl (Heartbeat_error 401), False)"
proof -
  let ?p = "\<lparr>stop_set = False, beat_error = Some 401, slot_states = [Cancelled]\<rparr>"
  have "proc_step (started_proc 1) (Beat (StatusError 401)) (?p\<lparr>slot_states := [Head]\<rparr>)"
    using proc_step.beat [of "started_proc 1" "StatusError 401"] by (simp add: started_proc_def beaten_def)
  moreover have "proc_step (?p\<lparr>slot_states := [Head]\<rparr>) (Cancel 0) ?p"
    using proc_step.cancel [of 0 "?p\<lparr>slot_states := [Head]\<rparr>"]
    by (simp add: set_slot_def running_slot_def cancelling_def)
  ultimately have run: "proc_run (started_proc 1) [Beat (StatusError 401), Cancel 0] ?p"
    by (auto intro: proc_run.intros)
  obtain out shut where e: "process_end ?p = Some (out, shut)"
    by (cases "process_end ?p")
      (auto simp: process_end_def slots_end_def running_slot_def is_failed_def)
  from process_ends_cleanly_or_raises [OF run _ e] e show ?thesis by simp
qed

end
