(* ===== verification/Frames.thy ===== *)
theory Frames
  imports System
begin

text \<open>
  What transactions keep. A predicate on the tables that no write of a kind of transaction can break
  is kept by the whole transaction, because transactions are composed of reads and of a few writes. The
  interfaces below name those writes; the operations of \<^verbatim>\<open>service.py\<close>, \<^verbatim>\<open>recovery.py\<close> and the routes of
  \<^verbatim>\<open>api.py\<close> are shown once to keep every predicate that satisfies them.
\<close>

section \<open>Transactions that keep a predicate\<close>

definition preserves :: "(database \<Rightarrow> bool) \<Rightarrow> 'a dbtx \<Rightarrow> bool" where
  "preserves P m \<longleftrightarrow> (\<forall>w x w'. m w = Inr (x, w') \<longrightarrow> P (db w) \<longrightarrow> P (db w'))"

named_theorems preserves_intros \<open>composition of transactions that keep a predicate\<close>

lemma preservesD: "preserves P m \<Longrightarrow> m w = Inr (x, w') \<Longrightarrow> P (db w) \<Longrightarrow> P (db w')"
  by (auto simp: preserves_def)

lemma preserves_commit: "preserves P m \<Longrightarrow> run_tx m w = (res, w') \<Longrightarrow> P (db w) \<Longrightarrow> P (db w')"
  by (auto simp: preserves_def run_tx_def split: sum.splits)

lemma preserves_reads [preserves_intros]:
  "preserves P (tx_return x)" "preserves P (tx_raise e)" "preserves P (tx_get f)" "preserves P database_time"
  "preserves P next_uuid" "preserves P next_random"
  by (auto simp: preserves_def tx_return_def tx_raise_def tx_get_def database_time_def next_clock_def next_uuid_def
      next_random_def)

lemma preserves_bind [preserves_intros]:
  assumes "preserves P m" and "\<And>x. preserves P (k x)"
  shows "preserves P (tx_bind m k)"
  using assms unfolding preserves_def tx_bind_def by (auto split: sum.splits)

lemma preserves_cases [preserves_intros]:
  "(b \<Longrightarrow> preserves P m) \<Longrightarrow> (\<not> b \<Longrightarrow> preserves P n) \<Longrightarrow> preserves P (if b then m else n)"
  "preserves P m \<Longrightarrow> (\<And>x. preserves P (k x)) \<Longrightarrow> preserves P (case y of None \<Rightarrow> m | Some x \<Rightarrow> k x)"
  "(\<And>e. preserves P (h e)) \<Longrightarrow> (\<And>x. preserves P (k' x)) \<Longrightarrow> preserves P (case z of Inl e \<Rightarrow> h e | Inr x \<Rightarrow> k' x)"
  "(\<And>x y. preserves P (l x y)) \<Longrightarrow> preserves P (case p of (x, y) \<Rightarrow> l x y)"
  "preserves P (k'' v) \<Longrightarrow> preserves P (let x = v in k'' x)"
  by (simp_all split: option.split sum.split prod.split)

lemma preserves_for [preserves_intros]: "(\<And>x. preserves P (f x)) \<Longrightarrow> preserves P (tx_for xs f)"
  by (induction xs) (auto intro: preserves_intros)

lemma preserves_effect [preserves_intros]: "preserves P m \<Longrightarrow> preserves P (effect m)"
  unfolding effect_def by (intro preserves_intros)

text \<open>An exception handler changes only what is raised.\<close>

lemma preserves_wrapped:
  assumes "preserves P m" and "\<And>w x w'. n w = Inr (x, w') \<Longrightarrow> m w = Inr (x, w')"
  shows "preserves P n"
  using assms unfolding preserves_def by blast

lemma preserves_lookups [preserves_intros]:
  "preserves P (get_job i)" "preserves P (owned i n tok fin)" "preserves P (client c auth)"
  "preserves P (worker c auth)" "preserves P (identity env n cred)"
  unfolding get_job_def owned_def client_def worker_def authorize_def identity_def
  by (intro preserves_intros)+

lemma preserves_check_parent [preserves_intros]: "preserves P (check_parent i)"
  by (auto simp: preserves_def check_parent_iff)

section \<open>Writes to jobs, attempts and logs\<close>

text \<open>
  The writes of a job's life: its scheduling columns, its attempts, the result of a failed job and the
  two logs.
\<close>

locale job_frame =
  fixes P :: "database \<Rightarrow> bool"
  assumes job_write: "\<lbrakk> \<And>j. same_request j (f j); P d \<rbrakk> \<Longrightarrow> P (set_job i f d)"
    and attempt_write: "P d \<Longrightarrow> P (set_attempt k g d)"
    and attempt_insert: "P d \<Longrightarrow> P (d\<lparr>attempts := attempts d @ [a]\<rparr>)"
    and error_insert: "r_output r = None \<Longrightarrow> P d \<Longrightarrow> P (d\<lparr>results := results d @ [r]\<rparr>)"
    and event_insert: "P d \<Longrightarrow> P (log_event t jid st d)"
    and note_insert: "P d \<Longrightarrow> P (log_system_event t kind wid detail d)"
begin

lemma keep_writes:
  "(\<And>j. same_request j (f j)) \<Longrightarrow> preserves P (update_job i f)" "preserves P (update_attempt k g)"
  "preserves P (insert_attempt a)" "preserves P (add_event i st)" "preserves P (add_system_event kind n detail)"
  "r_output r = None \<Longrightarrow> preserves P (insert_result r)"
  using job_write attempt_write attempt_insert event_insert note_insert error_insert
  by (auto simp: preserves_def update_job_def update_attempt_def tx_modify_def insert_attempt_def add_event_def
      add_system_event_def insert_result_def Let_def split: if_splits option.splits)

lemma keep_transition: "preserves P (transition job st)"
  unfolding transition_def by (intro preserves_intros keep_writes) (simp add: same_request_def)

lemma keep_fail_attempt: "preserves P (fail_attempt job att err retryable oc)"
  unfolding fail_attempt_def jitter_factor_def
  by (intro preserves_intros keep_writes keep_transition) (simp_all add: same_request_def)

lemma keep_operations:
  "preserves P (claim n slot cid policy secs)" "preserves P (start i n tok)" "preserves P (renew i n tok secs)"
  "preserves P (cancel i)" "preserves P (recover_jobs k)"
  unfolding claim_def lease_job_def start_def renew_def cancel_def recover_jobs_def recover_job_def cancel_blocked_def
  by (intro preserves_intros keep_writes keep_transition keep_fail_attempt; simp add: same_request_def)+

lemma keep_claim_route: "preserves P (claim_route env c auth body cred)"
  unfolding claim_route_def
  by (intro preserves_intros preserves_wrapped [OF keep_operations(1) [of "cl_worker_id body" "cl_slot body"
        "Some (cl_claim_id body)" "cfg_scheduler c" "cfg_lease_seconds c"]]) (auto split: sum.splits exn.splits)

lemma keep_job_routes:
  "preserves P (cancel_route c auth i)" "preserves P (start_route env c auth i abody cred)"
  "preserves P (renew_route env c auth i abody cred)"
  unfolding cancel_route_def start_route_def renew_route_def
  by (intro preserves_intros keep_operations)+

end

text \<open>Predicates that also survive any new job, and predicates that survive any result.\<close>

locale admission_frame = job_frame +
  assumes job_insert: "P d \<Longrightarrow> P (d\<lparr>jobs := jobs d @ [j]\<rparr>)"
begin

lemma keep_insert_job: "preserves P (insert_job j)"
  using job_insert by (auto simp: preserves_def insert_job_def Let_def split: if_splits option.splits)

lemma keep_submit_route: "preserves P (submit_route env c auth body)"
proof -
  have admit: "preserves P (admit env body limit rate)" for limit rate
    unfolding admit_def by (intro preserves_intros keep_writes keep_insert_job)
  show ?thesis unfolding submit_route_def
    by (intro preserves_intros preserves_wrapped [OF admit [of "cfg_queue_limit c" "cfg_submissions_per_minute c"]])
      (auto split: sum.splits if_splits)
qed

end

locale completion_frame = job_frame +
  assumes result_insert: "P d \<Longrightarrow> P (d\<lparr>results := results d @ [r]\<rparr>)"
begin

lemma keep_insert_result: "preserves P (insert_result r)"
  using result_insert by (auto simp: preserves_def insert_result_def Let_def split: if_splits)

lemma keep_finish_route: "preserves P (finish_route env c auth i cbody cred)"
  unfolding finish_route_def finish_def
  by (intro preserves_intros keep_writes keep_insert_result keep_transition keep_fail_attempt)

end

text \<open>Predicates that do not look at the workers.\<close>

locale fleet_frame = job_frame +
  assumes workers_write: "P d \<Longrightarrow> P (d\<lparr>workers := ws\<rparr>)"
begin

lemma keep_worker_writes: "preserves P (update_worker i f)" "preserves P (insert_worker v)"
  using workers_write
  by (auto simp: preserves_def update_worker_def tx_modify_def set_worker_def insert_worker_def split: if_splits)

lemma keep_fleet_routes:
  "preserves P (drain_route c auth n)" "preserves P (heartbeat_route env c auth n cred)"
  "preserves P (detect_workers sus dead)" "preserves P (register_route env c auth body)"
  unfolding drain_route_def heartbeat_route_def detect_workers_def judge_worker_def register_route_def
  by (intro preserves_intros keep_writes keep_worker_writes)+

end

end
