(* ===== verification/Draining.thy ===== *)
theory Draining
  imports Fleet Supervision Frames
begin

text \<open>
  Draining from end to end: the client's drain request in the tables, what every other transaction keeps
  of it, the heartbeat that carries it to the worker, and the worker's slots that leave their loops.
\<close>

section \<open>The drain mark\<close>

definition marked :: "string \<Rightarrow> worker_row list \<Rightarrow> bool" where
  "marked wid ws \<longleftrightarrow> (\<exists>v \<in> set ws. w_id v = wid \<and> w_drain_requested v)"

abbreviation bears_mark :: "string \<Rightarrow> database \<Rightarrow> bool" where
  "bears_mark wid d \<equiv> marked wid (workers d)"

interpretation mark_admission: admission_frame "bears_mark wid" for wid
  by unfold_locales (simp_all add: row_simps)

interpretation mark_completion: completion_frame "bears_mark wid" for wid
  by unfold_locales simp

lemma marked_update:
  assumes "\<And>v. w_id (f v) = w_id v" and "i \<noteq> wid \<or> (\<forall>v. w_drain_requested v \<longrightarrow> w_drain_requested (f v))"
  shows "preserves (bears_mark wid) (update_worker i f)"
proof -
  have "marked wid (set_row w_id i f ws)" if "marked wid ws" for ws
  proof -
    from that obtain v where v: "v \<in> set ws" "w_id v = wid" "w_drain_requested v" by (auto simp: marked_def)
    let ?v = "if w_id v = i then f v else v"
    have "?v \<in> set (set_row w_id i f ws)" using v(1) unfolding set_row_def set_map by (rule imageI)
    moreover have "w_id ?v = wid" "w_drain_requested ?v" using v assms by auto
    ultimately show ?thesis unfolding marked_def by blast
  qed
  then show ?thesis by (simp add: preserves_def update_worker_def tx_modify_def set_worker_def)
qed

lemma marked_insert: "preserves (bears_mark wid) (insert_worker v)"
  by (auto simp: preserves_def insert_worker_def marked_def split: if_splits)

text \<open>Only a registration under the worker's own id can take the mark away.\<close>

fun registers :: "string \<Rightarrow> request \<Rightarrow> bool" where
  "registers wid (RegisterReq auth b) = (reg_worker_id b = wid)"
| "registers wid _ = False"

lemma marked_routes:
  "preserves (bears_mark wid) (drain_route c auth n)" "preserves (bears_mark wid) (heartbeat_route env c auth n cred)"
  "preserves (bears_mark wid) (detect_workers sus dead)"
  "reg_worker_id b \<noteq> wid \<Longrightarrow> preserves (bears_mark wid) (register_route env c auth b)"
  unfolding drain_route_def heartbeat_route_def detect_workers_def judge_worker_def register_route_def
  by (intro preserves_intros mark_admission.keep_writes marked_update marked_insert; simp)+

lemma marked_transact:
  assumes "\<not> registers wid r"
  shows "preserves (bears_mark wid) (transact env c r)"
  using assms
  by (cases r) (auto intro!: preserves_effect mark_admission.keep_submit_route mark_admission.keep_claim_route
      mark_admission.keep_job_routes mark_completion.keep_finish_route mark_admission.keep_operations marked_routes)

text \<open>Transactions of the coordinators other than a registration under the id.\<close>

inductive other_step :: "env \<Rightarrow> settings \<Rightarrow> string \<Rightarrow> database \<Rightarrow> database \<Rightarrow> bool"
  for env :: env and c :: settings and wid :: string where
  other: "\<lbrakk> accepted env r; \<not> registers wid r; scan_ok w; run_tx (transact env c r) w = (res, w') \<rbrakk>
    \<Longrightarrow> other_step env c wid (db w) (db w')"

lemma other_step_marked: "other_step env c wid d d' \<Longrightarrow> marked wid (workers d) \<Longrightarrow> marked wid (workers d')"
proof (induction rule: other_step.induct)
  case (other r w res w')
  then show ?case using preserves_commit [OF marked_transact [OF other(2), of env c]] by blast
qed

lemma other_step_coordinator: "other_step env c wid d d' \<Longrightarrow> coordinator_step env c d d'"
  by (induction rule: other_step.induct) (rule coordinator_step.transaction)

interpretation marking: invariant_system "other_step env c wid" "\<lambda>d. db_inv d \<and> marked wid (workers d)" for env c wid
  by unfold_locales (auto intro: other_step_marked coordinator.step_inv other_step_coordinator)

lemma marked_lookup:
  assumes "db_inv d"
  shows "marked wid (workers d) \<longleftrightarrow> (\<exists>v. worker_by_id wid d = Some v \<and> w_drain_requested v)"
  using worker_table.lookup_iff [OF inv_keys(4) [OF assms]] by (auto simp: marked_def worker_by_id_def)

section \<open>From the request to the end of the process\<close>

text \<open>The reply to a heartbeat as the worker decodes it.\<close>

definition heartbeat_reply :: "worker_state \<Rightarrow> post_outcome" where
  "heartbeat_reply s = Answer (JObj [(''state'', JStr (worker_state_name s))])"

lemma heartbeat_reply_stops:
  "stop_set (beaten (heartbeat_reply s) p) \<longleftrightarrow> stop_set p \<or> s = DRAINING"
  "slot_states (beaten (heartbeat_reply s) p) = slot_states p"
  by (cases s; simp add: beaten_def heartbeat_reply_def dict_get_def)+

lemma drain_route_marks:
  assumes "db_inv (db w)" and "drain_route c auth wid w = Inr (x, w')"
  shows "\<exists>v. worker_by_id wid (db w') = Some v \<and> w_drain_requested v"
proof -
  from assms(2) obtain v where v: "worker_by_id wid (db w) = Some v"
    and d': "db w' = (db w)\<lparr>workers := set_row w_id wid (\<lambda>v. v\<lparr>w_state := DRAINING,
        w_drain_requested := True\<rparr>) (workers (db w)), system_events := system_events (db w')\<rparr>
      \<or> w_state v = DRAINING \<and> db w' = (db w)\<lparr>workers := set_row w_id wid
        (\<lambda>v. v\<lparr>w_drain_requested := True\<rparr>) (workers (db w)), system_events := system_events (db w)\<rparr>"
    by (rule drain_route_effect)
  from d' have "workers (db w') = set_row w_id wid (\<lambda>v. v\<lparr>w_state := DRAINING, w_drain_requested := True\<rparr>) (workers (db w))
      \<or> workers (db w') = set_row w_id wid (\<lambda>v. v\<lparr>w_drain_requested := True\<rparr>) (workers (db w))"
    by (elim disjE conjE) (drule arg_cong [where f = workers], simp)+
  then obtain f where f: "workers (db w') = set_row w_id wid f (workers (db w))"
    "\<And>v. w_id (f v) = w_id v" "\<And>v. w_drain_requested (f v)" by (elim disjE) (rule that, assumption, simp_all)+
  have row: "v \<in> set (workers (db w))" "w_id v = wid" using worker_by_id_Some [OF v] by auto
  have "worker_by_id (w_id v) (db w') = Some (f v)"
    using worker_table.update_same [OF inv_keys(4) [OF assms(1)] row(1), of f] f(1,2) row(2)
    by (simp add: worker_by_id_def)
  with f(3) row(2) show ?thesis by auto
qed

text \<open>
  C26: a drain request stops the worker. Once the client's request is recorded, and whatever the
  coordinators do afterwards short of a registration that takes the id over, every heartbeat of the
  worker that is answered sets its stop event: from then on no slot starts another claim, the slots
  take at most three more steps each, and when none can take a step every slot is over; if
  nothing failed the process has then ended normally with its executor closed.
\<close>

theorem drained_worker_stops:
  assumes "db_inv (db w)" and "drain_route c auth wid w = Inr (x, w1)"
    and later: "(other_step env c wid)\<^sup>*\<^sup>* (db w1) (db w2)"
    and beat: "heartbeat_route env c auth' wid cred w2 = Inr (s, w3)"
    and proc: "proc_inv p" "proc_run (beaten (heartbeat_reply s) p) es q"
  shows "s = DRAINING \<and> stop_set q
    \<and> (\<forall>i. slot_states q ! i = Claiming \<longrightarrow> i < length (slot_states p) \<longrightarrow> slot_states p ! i = Claiming)
    \<and> length (filter slot_event es) \<le> 3 * length (slot_states p)
    \<and> ((\<forall>e r. proc_step q e r \<longrightarrow> \<not> slot_event e) \<longrightarrow> process_end q \<noteq> None
         \<and> (\<not> cancelling q \<longrightarrow> process_end q = Some (Inr (), True)))"
proof -
  have inv1: "db_inv (db w1)" by (rule refines_run(2) [OF drain_route_refines assms(1,2)])
  with drain_route_marks [OF assms(1,2)] have "marked wid (workers (db w1))" by (simp add: marked_lookup)
  with inv1 have "db_inv (db w2)" "marked wid (workers (db w2))" using marking.run_inv [OF later] by auto
  then obtain v where v: "worker_by_id wid (db w2) = Some v" "w_drain_requested v" by (auto simp: marked_lookup)
  from drained_worker_stays_draining [OF \<open>db_inv (db w2)\<close> v beat] have s: "s = DRAINING" by simp
  then have "stop_set (beaten (heartbeat_reply s) p)" "proc_inv (beaten (heartbeat_reply s) p)"
    using proc(1) heartbeat_reply_stops [of s p] by (auto simp: proc_inv_def cancelling_beaten)
  from drain_terminates [OF proc(2) this] heartbeat_reply_stops(2) [of s p] s show ?thesis by simp
qed

theorem drained_worker_stops_witness:
  "\<exists>w1 w3. drain_route demo_settings demo_client ''w1'' (demo_world demo_queued 3000 20) = Inr (DRAINING, w1)
    \<and> heartbeat_route demo_env demo_settings demo_worker ''w1'' (Some demo_session) (demo_world (db w1) 4000 30)
        = Inr (DRAINING, w3)
    \<and> process_end \<lparr>stop_set = True, beat_error = None, slot_states = [Left, Left]\<rparr> = Some (Inr (), True)"
proof -
  let ?p = "\<lparr>stop_set = False, beat_error = None, slot_states = [Holding, Head]\<rparr>"
  let ?q = "\<lparr>stop_set = True, beat_error = None, slot_states = [Left, Left]\<rparr>"
  let ?ok = "Answer JNull"
  let ?es = "[Worked 0 ?ok None (Some (success (JObj []))) ?ok ?ok, Loop 1, Loop 0]"
  have inv: "db_inv (db (demo_world demo_queued 3000 20))" using demo_inv(1) by simp
  obtain x w1 where drain: "drain_route demo_settings demo_client ''w1'' (demo_world demo_queued 3000 20) = Inr (x, w1)"
    by (simp add: drain_route_def tx_bind_def demo_auth tx_get_def worker_by_id_def find_row_def demo_dbs
        demo_worker_row_def update_worker_def tx_modify_def tx_return_def add_system_event_def)
  let ?w2 = "demo_world (db w1) 4000 30"
  have inv2: "db_inv (db ?w2)" using refines_run(2) [OF drain_route_refines inv drain] by simp
  have run_end: "x = DRAINING \<and> (\<exists>v. worker_by_id ''w1'' (db w1) = Some v \<and> w_session_hash v = Some demo_session
      \<and> w_state v = DRAINING)"
    using drain by (auto simp: drain_route_def tx_bind_def demo_auth tx_get_def worker_by_id_def find_row_def demo_dbs
        demo_worker_row_def update_worker_def tx_modify_def tx_return_def add_system_event_def set_worker_def
        set_row_def log_system_event_def)
  then obtain v where "identity demo_env ''w1'' (Some demo_session) ?w2 = Inr (v, ?w2)" "w_state v = DRAINING"
    by (auto simp: identity_iff or_empty_def demo_env_def demo_session_def)
  then obtain s w3 where beat: "heartbeat_route demo_env demo_settings demo_worker ''w1'' (Some demo_session) ?w2 = Inr (s, w3)"
    by (simp add: heartbeat_route_def tx_bind_def demo_auth database_time_def next_clock_def
        update_worker_def tx_modify_def tx_return_def add_system_event_def)
  have procs: "proc_inv ?p" by (simp add: proc_inv_def)
  note stops = drained_worker_stops [OF inv drain _ beat procs]
  have "s = DRAINING" using stops [OF _ done_run] by simp
  then have beaten: "beaten (heartbeat_reply s) ?p = ?p\<lparr>stop_set := True\<rparr>"
    by (simp add: beaten_def heartbeat_reply_def dict_get_def)
  have s0: "proc_step (?p\<lparr>stop_set := True\<rparr>) (?es ! 0) (?q\<lparr>slot_states := [Head, Head]\<rparr>)"
    using proc_step.worked [of 0 "?p\<lparr>stop_set := True\<rparr>" ?ok None "Some (success (JObj []))" ?ok ?ok]
    by (simp add: set_slot_def work_over_def round_over_def consume_round_def report_def)
  have s1: "proc_step (?q\<lparr>slot_states := [Head, Head]\<rparr>) (?es ! 1) (?q\<lparr>slot_states := [Head, Left]\<rparr>)"
    using proc_step.loop [of 1 "?q\<lparr>slot_states := [Head, Head]\<rparr>"] by (simp add: set_slot_def loop_head_def)
  have s2: "proc_step (?q\<lparr>slot_states := [Head, Left]\<rparr>) (?es ! 2) ?q"
    using proc_step.loop [of 0 "?q\<lparr>slot_states := [Head, Left]\<rparr>"] by (simp add: set_slot_def loop_head_def)
  have "proc_run (beaten (heartbeat_reply s) ?p) ?es ?q"
    unfolding beaten using more_run [OF s0 more_run [OF s1 more_run [OF s2 done_run]]] by simp
  from stops [OF _ this] have "process_end ?q = Some (Inr (), True)"
    by (auto elim!: proc_stepE simp: slot_event_def less_Suc_eq running_slot_def cancelling_def is_failed_def)
  with drain beat run_end \<open>s = DRAINING\<close> show ?thesis by blast
qed

end
