(* ===== verification/Client.thy ===== *)
theory Client
  imports Routes
begin

text \<open>
  \<^verbatim>\<open>greyqueue/cli.py\<close>: the requests the command line sends and how it reports the answer, with the
  \<^verbatim>\<open>Submit\<close> model reading the body it posts. The JSON decoder and the readers of timestamps and
  UUIDs are parameters.
\<close>

section \<open>Arguments\<close>

text \<open>\<^verbatim>\<open>json_object\<close>: the message of the \<^verbatim>\<open>ArgumentTypeError\<close>, or the parsed object.\<close>

definition json_object :: "(string \<Rightarrow> string + json) \<Rightarrow> string \<Rightarrow> string + json" where
  "json_object loads value =
     (case loads value of
        Inl msg \<Rightarrow> Inl (''invalid JSON: '' @ msg)
      | Inr parsed \<Rightarrow> if is_dict parsed then Inr parsed else Inl ''expected a JSON object'')"

record submit_args =
  arg_task :: string
  arg_args :: json
  arg_priority :: int
  arg_timeout :: json
  arg_max_retries :: int
  arg_retry_delay :: json
  arg_no_jitter :: bool
  arg_metadata :: json
  arg_idempotency_key :: "string option"
  arg_scheduled_at :: "string option"
  arg_depends_on :: "string option"

text \<open>
  The two required arguments with the parser's defaults for the others; a default is posted as it is
  written, an argument given on the command line as the float it was read as.
\<close>

definition submit_defaults :: "string \<Rightarrow> json \<Rightarrow> submit_args" where
  "submit_defaults task args =
     \<lparr>arg_task = task, arg_args = args, arg_priority = 0, arg_timeout = JInt 15, arg_max_retries = 3,
      arg_retry_delay = JInt 1, arg_no_jitter = False, arg_metadata = JObj [], arg_idempotency_key = None,
      arg_scheduled_at = None, arg_depends_on = None\<rparr>"

text \<open>\<^verbatim>\<open>task\<close> is one of the registry's names; \<^verbatim>\<open>--args\<close> and \<^verbatim>\<open>--metadata\<close> were read by \<open>json_object\<close>.\<close>

definition submit_parsed :: "submit_args \<Rightarrow> bool" where
  "submit_parsed a \<longleftrightarrow> arg_task a \<in> fst ` set REGISTRY \<and> is_dict (arg_args a) \<and> is_dict (arg_metadata a)
     \<and> num_value (arg_timeout a) \<noteq> None \<and> num_value (arg_retry_delay a) \<noteq> None"

datatype command =
    Submit_command submit_args
  | Get_command string
  | Cancel_command string
  | Attempts_command string
  | Drain_command string
  | Jobs_command "string option" int int
  | Workers_command
  | Operations_command

section \<open>Requests\<close>

record http_request =
  hr_method :: string
  hr_path :: string
  hr_params :: "(string \<times> string) list"
  hr_json :: "json option"

definition submit_payload :: "uuid \<Rightarrow> submit_args \<Rightarrow> json" where
  "submit_payload fresh a = JObj
     [(''task'', JStr (arg_task a)), (''args'', arg_args a), (''priority'', JInt (arg_priority a)),
      (''timeout'', arg_timeout a), (''max_retries'', JInt (arg_max_retries a)),
      (''retry_delay'', arg_retry_delay a), (''retry_jitter'', JBool (\<not> arg_no_jitter a)),
      (''metadata'', arg_metadata a),
      (''idempotency_key'', JStr (if or_empty (arg_idempotency_key a) = [] then uuid_text fresh
         else or_empty (arg_idempotency_key a))),
      (''scheduled_at'', opt_str (arg_scheduled_at a)), (''depends_on'', opt_str (arg_depends_on a))]"

definition http_get :: "string \<Rightarrow> http_request" where
  "http_get path = \<lparr>hr_method = ''GET'', hr_path = path, hr_params = [], hr_json = None\<rparr>"

definition cli_request :: "uuid \<Rightarrow> command \<Rightarrow> http_request" where
  "cli_request fresh cmd =
     (case cmd of
        Submit_command a \<Rightarrow> \<lparr>hr_method = ''POST'', hr_path = ''/jobs'', hr_params = [],
          hr_json = Some (submit_payload fresh a)\<rparr>
      | Cancel_command i \<Rightarrow> \<lparr>hr_method = ''DELETE'', hr_path = ''/jobs/'' @ i, hr_params = [], hr_json = None\<rparr>
      | Drain_command i \<Rightarrow> \<lparr>hr_method = ''POST'', hr_path = ''/workers/'' @ i @ ''/drain'', hr_params = [],
          hr_json = None\<rparr>
      | Attempts_command i \<Rightarrow> http_get (''/jobs/'' @ i @ ''/attempts'')
      | Jobs_command state limit offset \<Rightarrow> (http_get ''/jobs'')\<lparr>hr_params :=
          [(''limit'', int_text limit), (''offset'', int_text offset)]
          @ (if or_empty state = [] then [] else [(''state'', or_empty state)])\<rparr>
      | Get_command i \<Rightarrow> http_get (''/jobs/'' @ i)
      | Workers_command \<Rightarrow> http_get ''/workers''
      | Operations_command \<Rightarrow> http_get ''/operations'')"

definition cli_authorization :: "settings \<Rightarrow> string option" where
  "cli_authorization c = Some (''Bearer '' @ cfg_client_token c)"

text \<open>The exit: status 1 and a message, or the answer printed.\<close>

definition cli_exit :: "nat \<Rightarrow> string \<Rightarrow> json option \<Rightarrow> nat \<times> string + json option" where
  "cli_exit status body answer =
     (if 400 \<le> status \<and> status < 600
      then Inl (1, ''HTTP '' @ nat_text status @ '': '' @ body @ [CHR 0x0A])
      else Inr answer)"

section \<open>The body as the coordinator reads it\<close>

text \<open>
  The fields of \<^verbatim>\<open>Submit\<close> with their defaults, read from a body whose fields have the JSON types the
  command line posts; what the model converts or refuses beyond these is not read here.
\<close>

definition str_field :: "json \<Rightarrow> string option" where
  "str_field v = (case v of JStr s \<Rightarrow> Some s | _ \<Rightarrow> None)"

definition int_field :: "string \<Rightarrow> int \<Rightarrow> json \<Rightarrow> int" where
  "int_field k d body = (case dict_get k body of JInt n \<Rightarrow> n | _ \<Rightarrow> d)"

definition num_field :: "string \<Rightarrow> rat \<Rightarrow> json \<Rightarrow> rat" where
  "num_field k d body = (case num_value (dict_get k body) of Some n \<Rightarrow> n | None \<Rightarrow> d)"

definition read_submit :: "(string \<Rightarrow> timestamp) \<Rightarrow> (string \<Rightarrow> uuid) \<Rightarrow> json \<Rightarrow> submission" where
  "read_submit read_time read_uuid body =
     \<lparr>sub_task = or_empty (str_field (dict_get ''task'' body)), sub_args = dict_get ''args'' body,
      sub_priority = int_field ''priority'' 0 body, sub_timeout = num_field ''timeout'' 15 body,
      sub_max_retries = int_field ''max_retries'' 3 body, sub_retry_delay = num_field ''retry_delay'' 1 body,
      sub_retry_jitter = (dict_get ''retry_jitter'' body \<noteq> JBool False),
      sub_idempotency_key = str_field (dict_get ''idempotency_key'' body),
      sub_metadata = Some (if has_key ''metadata'' body then dict_get ''metadata'' body else JObj []),
      sub_scheduled_at = map_option read_time (str_field (dict_get ''scheduled_at'' body)),
      sub_depends_on = map_option read_uuid (str_field (dict_get ''depends_on'' body))\<rparr>"

section \<open>Lemmas\<close>

lemma read_payload:
  "read_submit rt ru (submit_payload fresh a) =
     \<lparr>sub_task = arg_task a, sub_args = arg_args a, sub_priority = arg_priority a, sub_timeout = (case num_value (arg_timeout a) of Some n \<Rightarrow> n | None \<Rightarrow> 15),
      sub_max_retries = arg_max_retries a, 
      sub_retry_delay = (case num_value (arg_retry_delay a) of Some n \<Rightarrow> n | None \<Rightarrow> 1),
      sub_retry_jitter = (\<not> arg_no_jitter a),
      sub_idempotency_key = Some (if or_empty (arg_idempotency_key a) = [] then uuid_text fresh
         else or_empty (arg_idempotency_key a)),
      sub_metadata = Some (arg_metadata a), sub_scheduled_at = map_option rt (arg_scheduled_at a),
      sub_depends_on = map_option ru (arg_depends_on a)\<rparr>"
  by (auto simp: read_submit_def submit_payload_def dict_get_def str_field_def int_field_def num_field_def
      has_key_def opt_str_def or_empty_def split: option.splits)

lemma read_defaults:
  "read_submit rt ru (submit_payload u (submit_defaults task args))
     = (read_submit rt ru (JObj [(''task'', JStr task), (''args'', args)]))\<lparr>sub_idempotency_key := Some (uuid_text u)\<rparr>"
  unfolding read_payload
  by (simp add: submit_defaults_def or_empty_def read_submit_def dict_get_def str_field_def int_field_def
      num_field_def has_key_def)

lemma submit_route_Inr:
  "submit_route env c (cli_authorization c) s w = Inr ((code, out), w') \<longleftrightarrow>
     (\<exists>job created. admit env s (cfg_queue_limit c) (cfg_submissions_per_minute c) w = Inr ((job, created), w')
        \<and> code = (if created then 201 else 200) \<and> out = serialize env (db w') None job)"
  by (auto simp: submit_route_def tx_bind_def cli_authorization_def authorize_cases tx_get_def tx_return_def
      split: sum.splits if_splits)

section \<open>Properties\<close>

text \<open>
  C31: re-running \<^verbatim>\<open>submit\<close> with a stable \<^verbatim>\<open>--idempotency-key\<close> is safe: after a first run that was admitted,
  and whatever the coordinators did since, the second run is answered 200 with the same job and the
  tables stay as they are. Without a key every run posts a key of its own, so nothing identifies the
  two. Left to its defaults the command posts what the \<^verbatim>\<open>Submit\<close> model itself defaults to.
\<close>

theorem cli_rerun_safe:
  assumes "reachable env c (db w)"
    and "submit_route env c (cli_authorization c) (read_submit rt ru (the (hr_json (cli_request u1 (Submit_command a))))) w = Inr ((code, out), w1)"
    and "arg_idempotency_key a = Some k" and "k \<noteq> []" and "0 \<le> arg_max_retries a"
    and "(coordinator_step env c)\<^sup>*\<^sup>* (db w1) (db w2)"
  shows "(\<exists>out'. submit_route env c (cli_authorization c) (read_submit rt ru (the (hr_json (cli_request u2 (Submit_command a))))) w2
        = Inr ((200, out'), w2) \<and> jo_id out' = jo_id out)
    \<and> (uuid_text u1 \<noteq> uuid_text u2 \<longrightarrow>
         sub_idempotency_key (read_submit rt ru (submit_payload u1 (a\<lparr>arg_idempotency_key := None\<rparr>)))
         \<noteq> sub_idempotency_key (read_submit rt ru (submit_payload u2 (a\<lparr>arg_idempotency_key := None\<rparr>))))
    \<and> read_submit rt ru (submit_payload u1 (submit_defaults task args))
        = (read_submit rt ru (JObj [(''task'', JStr task), (''args'', args)]))
            \<lparr>sub_idempotency_key := Some (uuid_text u1)\<rparr>"
proof -
  let ?s = "\<lambda>u. read_submit rt ru (submit_payload u a)"
  have same: "?s u2 = ?s u1" using assms(3,4) by (simp add: read_payload or_empty_def)
  have sent: "hr_json (cli_request u (Submit_command a)) = Some (submit_payload u a)" for u
    by (simp add: cli_request_def)
  from assms(2) obtain job created where first:
    "admit env (?s u1) (cfg_queue_limit c) (cfg_submissions_per_minute c) w = Inr ((job, created), w1)"
    "out = serialize env (db w1) None job"
    unfolding sent option.sel submit_route_Inr by blast
  have "sub_idempotency_key (?s u1) = Some k" "0 \<le> sub_max_retries (?s u1)"
    using assms(3-5) by (simp_all add: read_payload or_empty_def)
  from admit_again [OF reachable_db_inv [OF assms(1)] first(1) this(1) assms(4) this(2) assms(6)]
  obtain job' where again:
    "admit env (?s u1) (cfg_queue_limit c) (cfg_submissions_per_minute c) w2 = Inr ((job', False), w2)"
    "same_request job job'" by blast
  then have "submit_route env c (cli_authorization c) (?s u2) w2 = Inr ((200, serialize env (db w2) None job'), w2)"
    unfolding submit_route_Inr same by auto
  moreover have "jo_id (serialize env (db w2) None job') = jo_id out"
    using again(2) first(2) by (simp add: serialize_def serialize_with_def same_request_def)
  ultimately have "\<exists>out'. submit_route env c (cli_authorization c) (?s u2) w2 = Inr ((200, out'), w2)
      \<and> jo_id out' = jo_id out" by blast
  moreover have "sub_idempotency_key (read_submit rt ru (submit_payload u (a\<lparr>arg_idempotency_key := None\<rparr>)))
      = Some (uuid_text u)" for u by (simp add: read_payload or_empty_def)
  ultimately show ?thesis using read_defaults by (simp add: sent)
qed

definition demo_submit_args :: submit_args where
  "demo_submit_args = (submit_defaults ''flaky'' demo_args)\<lparr>arg_max_retries := 1, arg_idempotency_key := Some ''k1''\<rparr>"

theorem cli_rerun_safe_witness:
  "\<exists>out'. submit_route demo_env demo_settings (cli_authorization demo_settings)
      (read_submit (\<lambda>s. 0) (\<lambda>s. 0) (the (hr_json (cli_request 2 (Submit_command demo_submit_args))))) (demo_world demo_queued 9000 90)
     = Inr ((200, out'), demo_world demo_queued 9000 90) \<and> jo_id out' = uuid_text 10"
proof -
  have s: "read_submit (\<lambda>s. 0) (\<lambda>s. 0) (the (hr_json (cli_request 1 (Submit_command demo_submit_args)))) = demo_submission"
    by (simp add: cli_request_def read_payload demo_submit_args_def submit_defaults_def demo_submission_def demo_args_def or_empty_def)
  have run: "submit_route demo_env demo_settings (cli_authorization demo_settings)
      (read_submit (\<lambda>s. 0) (\<lambda>s. 0) (the (hr_json (cli_request 1 (Submit_command demo_submit_args))))) (demo_world demo_registered 2000 10)
     = Inr ((201, serialize demo_env demo_queued None (demo_job QUEUED 0 2000)),
         (tick (demo_world demo_registered 2000 10))\<lparr>uuids := (\<lambda>n. 10 + Suc n), db := demo_queued\<rparr>)"
    unfolding s submit_route_Inr using demo_submit by (auto simp: demo_settings_fields)
  have inv: "reachable demo_env demo_settings (db (demo_world demo_registered 2000 10))"
    using demo_registered_reachable by simp
  have id: "jo_id (serialize demo_env demo_queued None (demo_job QUEUED 0 2000)) = uuid_text 10"
    by (simp add: serialize_def serialize_with_def demo_job_def)
  from cli_rerun_safe [OF inv run, of "''k1''" "demo_world demo_queued 9000 90" 2] id show ?thesis
    by (simp add: demo_submit_args_def submit_defaults_def)
qed

end
