(* ===== verification/Setup.thy ===== *)
theory Setup
  imports Models
begin

text \<open>
  What prepares an installation: \<^verbatim>\<open>scripts/configure.py\<close> (the \<^verbatim>\<open>.env\<close> file with its secrets),
  \<^verbatim>\<open>scripts/local_db.py\<close> (the local database cluster) and the connection options of \<^verbatim>\<open>greyqueue/db.py\<close>.
  A file is its text after Python's newline translation, so it holds no carriage return; the random
  secrets are parameters.
\<close>

section \<open>Lines, keys and words\<close>

definition newline :: char where "newline = CHR 0x0A"

text \<open>The line boundaries of \<^verbatim>\<open>str.splitlines\<close> among the characters of the model.\<close>

definition line_break :: "char \<Rightarrow> bool" where
  "line_break c \<longleftrightarrow> c \<in> {CHR 0x0A, CHR 0x0B, CHR 0x0C, CHR 0x1C, CHR 0x1D, CHR 0x1E, CHR 0x85}"

fun splitlines_from :: "string \<Rightarrow> string \<Rightarrow> string list" where
  "splitlines_from line [] = (if line = [] then [] else [line])"
| "splitlines_from line (c # cs) =
     (if line_break c then line # splitlines_from [] cs else splitlines_from (line @ [c]) cs)"

definition splitlines :: "string \<Rightarrow> string list" where
  "splitlines text = splitlines_from [] text"

definition blank :: "char \<Rightarrow> bool" where
  "blank c \<longleftrightarrow> c \<in> {CHR 0x09, CHR 0x0A, CHR 0x0B, CHR 0x0C, CHR 0x0D, CHR 0x1C, CHR 0x1D, CHR 0x1E, CHR 0x1F,
     CHR 0x20, CHR 0x85, CHR 0xA0}"

definition strip :: "string \<Rightarrow> string" where
  "strip s = rev (dropWhile blank (rev (dropWhile blank s)))"

text \<open>\<^verbatim>\<open>line.split("=", 1)[0].strip()\<close> for the lines that contain \<^verbatim>\<open>=\<close>.\<close>

definition key_of :: "string \<Rightarrow> string" where
  "key_of line = strip (takeWhile (\<lambda>c. c \<noteq> CHR ''='') line)"

definition present :: "string \<Rightarrow> string set" where
  "present text = key_of ` set (filter (\<lambda>line. CHR ''='' \<in> set line) (splitlines text))"

section \<open>configure.py\<close>

text \<open>The values \<^verbatim>\<open>secrets.token_urlsafe\<close> returns, in the order of the calls.\<close>

record secrets =
  sec_password :: string
  sec_app_password :: string
  sec_client :: string
  sec_worker :: string

definition required :: "secrets \<Rightarrow> (string \<times> string) list" where
  "required s =
     [(''POSTGRES_PASSWORD'', sec_password s),
      (''APP_DB_PASSWORD'', sec_app_password s),
      (''DATABASE_URL'', ''postgresql+psycopg://greyqueue:'' @ sec_password s @ ''@127.0.0.1:55441/greyqueue''),
      (''CLIENT_TOKEN'', sec_client s),
      (''WORKER_TOKEN'', sec_worker s),
      (''COORDINATOR_URL'', ''http://127.0.0.1:8810'')]"

definition env_line :: "string \<times> string \<Rightarrow> string" where
  "env_line kv = fst kv @ [CHR ''=''] @ snd kv @ [newline]"

definition SECRET_KEYS :: "string list" where
  "SECRET_KEYS = [''APP_DB_PASSWORD'', ''CLIENT_TOKEN'', ''WORKER_TOKEN'']"

definition missing :: "string \<Rightarrow> string list" where
  "missing text = filter (\<lambda>k. k \<notin> present text) SECRET_KEYS"

definition line_prefix :: "string \<Rightarrow> string" where
  "line_prefix text = (if text = [] \<or> last text = newline then [] else [newline])"

text \<open>What \<^verbatim>\<open>path.write_text\<close> and \<^verbatim>\<open>private\<close> leave: the text, and whether only the owner may read it.\<close>

type_synonym env_file = "string \<times> bool"

datatype configured = Created | Preserved | Added "string list"

text \<open>\<^verbatim>\<open>private\<close> does nothing where \<^verbatim>\<open>os.name == "nt"\<close>.\<close>

definition private_file :: "bool \<Rightarrow> string \<Rightarrow> bool \<Rightarrow> env_file" where
  "private_file nt text old = (text, if nt then old else True)"

definition configure :: "bool \<Rightarrow> secrets \<Rightarrow> env_file option \<Rightarrow> configured \<times> env_file" where
  "configure nt s file =
     (case file of
        None \<Rightarrow> (Created, private_file nt (concat (map env_line (required s))) False)
      | Some (text, owner) \<Rightarrow>
          if missing text = [] then (Preserved, (text, owner))
          else (Added (missing text),
                private_file nt (text @ line_prefix text
                  @ concat (map (\<lambda>k. env_line (k, the (map_of (required s) k))) (missing text))) owner))"

section \<open>local_db.py\<close>

text \<open>
  \<^verbatim>\<open>main\<close> of the local cluster: whether the data directory and \<^verbatim>\<open>.env\<close> exist, and which of the two
  programs it runs succeed. The temporary password file exists only while \<^verbatim>\<open>initdb\<close> runs.
\<close>

record local_state =
  ls_data :: bool
  ls_env :: "string option"
  ls_password_file :: "string option"
  ls_running :: bool

datatype local_end = Local_ok | System_exit | Program_failed string

definition local_env_text :: "secrets \<Rightarrow> string" where
  "local_env_text s = concat (map env_line
     [(''DATABASE_URL'', ''postgresql+psycopg://greyqueue:'' @ sec_password s @ ''@127.0.0.1:55441/postgres''),
      (''POSTGRES_PASSWORD'', sec_password s), (''CLIENT_TOKEN'', sec_client s), (''WORKER_TOKEN'', sec_worker s),
      (''COORDINATOR_URL'', ''http://127.0.0.1:8810'')])"

definition local_stop :: "bool \<Rightarrow> local_state \<Rightarrow> local_end \<times> local_state" where
  "local_stop pg_ctl_ok st =
     (if pg_ctl_ok then (Local_ok, st\<lparr>ls_running := False\<rparr>) else (Program_failed ''pg_ctl'', st))"

definition local_init :: "bool \<Rightarrow> secrets \<Rightarrow> local_state \<Rightarrow> local_end \<times> local_state" where
  "local_init initdb_ok s st =
     (if ls_env st \<noteq> None then (System_exit, st)
      else let st1 = st\<lparr>ls_password_file := Some (sec_password s)\<rparr>;
               st2 = st1\<lparr>ls_data := initdb_ok, ls_password_file := None\<rparr> in
        if \<not> initdb_ok then (Program_failed ''initdb'', st2)
        else (Local_ok, st2\<lparr>ls_env := Some (local_env_text s)\<rparr>))"

definition local_start :: "bool \<Rightarrow> bool \<Rightarrow> secrets \<Rightarrow> local_state \<Rightarrow> local_end \<times> local_state" where
  "local_start initdb_ok pg_ctl_ok s st =
     (case (if ls_data st then (Local_ok, st) else local_init initdb_ok s st) of
        (Local_ok, st') \<Rightarrow>
          if pg_ctl_ok then (Local_ok, st'\<lparr>ls_running := True\<rparr>) else (Program_failed ''pg_ctl'', st')
      | r \<Rightarrow> r)"

section \<open>db.py\<close>

definition TIMEOUTS :: string where
  "TIMEOUTS = ''-cstatement_timeout=10000 -clock_timeout=5000 -cidle_in_transaction_session_timeout=15000''"

fun join_spaces :: "string list \<Rightarrow> string" where
  "join_spaces [] = []"
| "join_spaces [x] = x"
| "join_spaces (x # xs) = x @ [CHR '' ''] @ join_spaces xs"

text \<open>The \<^verbatim>\<open>options\<close> of the URL's query: absent, given once, or several times (a tuple).\<close>

datatype url_options = Once string | Several "string list"

definition existing_options :: "url_options option \<Rightarrow> string" where
  "existing_options q = (case q of None \<Rightarrow> [] | Some (Once s) \<Rightarrow> s | Some (Several ss) \<Rightarrow> join_spaces ss)"

definition session_options :: "url_options option \<Rightarrow> string" where
  "session_options q = strip (TIMEOUTS @ [CHR '' ''] @ existing_options q)"

text \<open>The server reads the options as words; of two settings of a name the later one holds.\<close>

fun words_from :: "string \<Rightarrow> string \<Rightarrow> string list" where
  "words_from w [] = (if w = [] then [] else [w])"
| "words_from w (c # cs) =
     (if blank c then (if w = [] then [] else [w]) @ words_from [] cs else words_from (w @ [c]) cs)"

definition setting_of :: "string \<Rightarrow> string \<Rightarrow> string option" where
  "setting_of name word =
     (if prefix (''-c'' @ name @ [CHR ''='']) word then Some (drop (length name + 3) word) else None)"

definition settings_named :: "string \<Rightarrow> string list \<Rightarrow> string list" where
  "settings_named name ws = List.map_filter (setting_of name) ws"

definition effective :: "string \<Rightarrow> string \<Rightarrow> string option" where
  "effective name opts =
     (case rev (settings_named name (words_from [] opts)) of [] \<Rightarrow> None | v # _ \<Rightarrow> Some v)"

section \<open>Lemmas\<close>

lemma splitlines_from_append:
  assumes "line_break c"
  shows "splitlines_from l (xs @ c # ys) = splitlines_from l (xs @ [c]) @ splitlines_from [] ys"
  using assms by (induction xs arbitrary: l) auto

lemma splitlines_append_line:
  assumes "xs = [] \<or> last xs = newline"
  shows "splitlines (xs @ ys) = splitlines xs @ splitlines ys"
proof (cases "xs = []")
  case False
  with assms obtain zs where "xs = zs @ [newline]" by (metis append_butlast_last_id)
  then show ?thesis
    using splitlines_from_append [of newline "[]" zs ys] by (simp add: splitlines_def line_break_def newline_def)
qed (simp add: splitlines_def)

lemma splitlines_one:
  assumes "list_all (\<lambda>c. \<not> line_break c) line"
  shows "splitlines_from l (line @ newline # rest) = (l @ line) # splitlines_from [] rest"
  using assms by (induction line arbitrary: l) (auto simp: line_break_def newline_def)

lemma present_append:
  assumes "xs = [] \<or> last xs = newline"
  shows "present (xs @ ys) = present xs \<union> present ys"
  using splitlines_append_line [OF assms] by (auto simp: present_def)

text \<open>Tokens are URL-safe base64: no line boundary among their characters.\<close>

definition one_line :: "string \<Rightarrow> bool" where
  "one_line v = list_all (\<lambda>c. \<not> line_break c) v"

definition tokens_ok :: "secrets \<Rightarrow> bool" where
  "tokens_ok s \<longleftrightarrow> one_line (sec_password s) \<and> one_line (sec_app_password s) \<and> one_line (sec_client s)
     \<and> one_line (sec_worker s)"

definition plain_key :: "string \<Rightarrow> bool" where
  "plain_key k = list_all (\<lambda>c. \<not> line_break c \<and> \<not> blank c \<and> c \<noteq> CHR ''='') k"

lemma strip_plain: "list_all (\<lambda>c. \<not> blank c) k \<Longrightarrow> strip k = k"
proof -
  assume "list_all (\<lambda>c. \<not> blank c) k"
  moreover have "dropWhile blank xs = xs" if "list_all (\<lambda>c. \<not> blank c) xs" for xs using that by (cases xs) auto
  ultimately show ?thesis by (simp add: strip_def)
qed

lemma present_line:
  assumes "plain_key k" and "one_line v"
  shows "present (env_line (k, v) @ rest) = insert k (present rest)"
proof -
  let ?l = "k @ CHR ''='' # v"
  have "list_all (\<lambda>c. \<not> line_break c) ?l"
    using assms by (auto simp: plain_key_def one_line_def list_all_iff line_break_def)
  from splitlines_one [OF this, of "[]" rest]
  have "splitlines (env_line (k, v) @ rest) = ?l # splitlines rest" by (simp add: splitlines_def env_line_def)
  moreover have "key_of ?l = k"
    using assms(1) by (simp add: key_of_def plain_key_def list_all_iff strip_plain takeWhile_append)
  ultimately show ?thesis by (simp add: present_def)
qed

lemma present_lines:
  assumes "list_all (\<lambda>(k, v). plain_key k \<and> one_line v) kvs"
  shows "present (concat (map env_line kvs)) = fst ` set kvs"
  using assms
proof (induction kvs)
  case (Cons kv kvs)
  then show ?case using present_line [of "fst kv" "snd kv" "concat (map env_line kvs)"]
    by (simp add: case_prod_beta)
qed (simp add: present_def splitlines_def)

lemma required_ok:
  assumes "tokens_ok s"
  shows "list_all (\<lambda>(k, v). plain_key k \<and> one_line v) (required s)"
  using assms by (simp add: required_def tokens_ok_def plain_key_def one_line_def line_break_def blank_def)

lemma required_value:
  assumes "tokens_ok s" and "k \<in> set SECRET_KEYS"
  shows "plain_key k" "one_line (the (map_of (required s) k))"
  using assms by (auto simp: SECRET_KEYS_def required_def tokens_ok_def plain_key_def line_break_def blank_def)

lemma secrets_required: "set SECRET_KEYS \<subseteq> fst ` set (required s)"
  by (simp add: SECRET_KEYS_def required_def)

lemma missing_empty: "missing text = [] \<longleftrightarrow> set SECRET_KEYS \<subseteq> present text"
  by (auto simp: missing_def filter_empty_conv)

lemma splitlines_newline:
  "splitlines_from l (text @ [newline]) \<in> {splitlines_from l text, splitlines_from l text @ [[]]}"
  by (induction "text" arbitrary: l) (auto simp: line_break_def newline_def)

lemma present_newline: "present (text @ [newline]) = present text"
  using splitlines_newline [of "[]" "text"] by (auto simp: present_def splitlines_def)

lemma present_added:
  assumes "tokens_ok s"
  shows "present (text @ line_prefix text @ concat (map (\<lambda>k. env_line (k, the (map_of (required s) k))) (missing text)))
     = present text \<union> set SECRET_KEYS"
proof -
  let ?kvs = "map (\<lambda>k. (k, the (map_of (required s) k))) (missing text)"
  have "list_all (\<lambda>(k, v). plain_key k \<and> one_line v) ?kvs"
    using required_value [OF assms] by (auto simp: missing_def list_all_iff)
  from present_lines [OF this] have new: "present (concat (map env_line ?kvs)) = set (missing text)"
    by (simp add: image_image)
  have pre: "present (text @ line_prefix text) = present text" by (simp add: line_prefix_def present_newline)
  have "text @ line_prefix text = [] \<or> last (text @ line_prefix text) = newline" by (auto simp: line_prefix_def)
  from present_append [OF this] new pre
  have "present ((text @ line_prefix text) @ concat (map env_line ?kvs)) = present text \<union> set (missing text)" by simp
  then show ?thesis by (auto simp: missing_def comp_def)
qed

text \<open>Starting the local cluster never overwrites \<^verbatim>\<open>.env\<close> and leaves no password file behind.\<close>

lemma local_start_safe:
  assumes "local_start initdb_ok pg_ctl_ok s st = (r, st')"
  shows "ls_env st = Some e \<Longrightarrow> ls_env st' = Some e"
    and "ls_password_file st = None \<Longrightarrow> ls_password_file st' = None"
    and "ls_env st \<noteq> None \<Longrightarrow> \<not> ls_data st \<Longrightarrow> r = System_exit \<and> st' = st"
  using assms by (auto simp: local_start_def local_init_def Let_def split: if_splits)

lemma words_from_append:
  assumes "blank c"
  shows "words_from w (xs @ c # ys) = words_from w xs @ words_from [] ys"
  using assms by (induction xs arbitrary: w) auto

lemma words_from_leading: "words_from [] (dropWhile blank xs) = words_from [] xs"
  by (induction xs) auto

lemma words_from_trailing: "list_all blank zs \<Longrightarrow> words_from w (xs @ zs) = words_from w xs"
proof -
  assume "list_all blank zs"
  then have "words_from w zs = (if w = [] then [] else [w])" for w by (induction zs arbitrary: w) auto
  then show ?thesis by (induction xs arbitrary: w) auto
qed

lemma words_from_strip: "words_from [] (strip xs) = words_from [] xs"
proof -
  let ?ys = "dropWhile blank xs"
  have "rev ?ys = takeWhile blank (rev ?ys) @ dropWhile blank (rev ?ys)" by simp
  then have "?ys = strip xs @ rev (takeWhile blank (rev ?ys))"
    unfolding strip_def by (metis rev_append rev_rev_ident)
  moreover have "list_all blank (rev (takeWhile blank (rev ?ys)))"
    by (auto simp: list_all_iff dest: set_takeWhileD)
  ultimately have "words_from [] ?ys = words_from [] (strip xs)" using words_from_trailing by metis
  then show ?thesis by (simp add: words_from_leading)
qed

section \<open>Properties\<close>

text \<open>
  \<^verbatim>\<open>configure\<close> only ever adds the secrets that are missing. An existing \<^verbatim>\<open>.env\<close> stays a prefix of the new
  one and gains exactly the keys APP_DB_PASSWORD, CLIENT_TOKEN and WORKER_TOKEN it lacked (never the
  database URL or its password); a new one has all required keys; what is written is private to its
  owner, except on Windows; and a second run, whatever its secrets, leaves the file as it is.
\<close>

lemma configure_completes:
  assumes "tokens_ok s" and "configure nt s file = (outcome, text', owner')"
  shows "present text' = (case file of None \<Rightarrow> fst ` set (required s) | Some (text, _) \<Rightarrow> present text \<union> set SECRET_KEYS)
    \<and> (case file of None \<Rightarrow> True | Some (text, _) \<Rightarrow> prefix text text')
    \<and> (outcome \<noteq> Preserved \<and> \<not> nt \<longrightarrow> owner')
    \<and> configure nt s2 (Some (text', owner')) = (Preserved, text', owner')"
proof -
  have all: "present text' = (case file of None \<Rightarrow> fst ` set (required s) | Some (text, _) \<Rightarrow> present text \<union> set SECRET_KEYS)"
    using assms(2) present_lines [OF required_ok [OF assms(1)]] present_added [OF assms(1)]
    by (auto simp: configure_def private_file_def missing_empty split: option.splits if_splits)
  moreover have "missing text' = []"
    using all secrets_required [of s] by (auto simp: missing_empty split: option.splits)
  ultimately show ?thesis using assms(2)
    by (auto simp: configure_def private_file_def split: option.splits if_splits)
qed

text \<open>
  The connection options of \<^verbatim>\<open>make_sessions\<close>: every setting named in the database URL keeps its value,
  and where the URL names none the default time-outs hold.
\<close>

lemma url_options_win:
  "effective name (session_options q)
     = (case effective name (existing_options q) of None \<Rightarrow> effective name TIMEOUTS | Some v \<Rightarrow> Some v)"
proof -
  have "words_from [] (session_options q) = words_from [] TIMEOUTS @ words_from [] (existing_options q)"
    using words_from_append [of "CHR '' ''" "[]" TIMEOUTS "existing_options q"]
    by (simp add: session_options_def words_from_strip blank_def)
  then have "settings_named name (words_from [] (session_options q))
      = settings_named name (words_from [] TIMEOUTS) @ settings_named name (words_from [] (existing_options q))"
    by (simp add: settings_named_def map_filter_def)
  then show ?thesis by (simp add: effective_def split: list.splits)
qed

end
