(* ===== verification/Harness.thy ===== *)
theory Harness
  imports Fleet
begin

text \<open>
  The checks the repository runs against live clusters: the polling of \<^verbatim>\<open>scripts/harness.py\<close> and
  \<^verbatim>\<open>scripts/check_compose.py\<close>, and the assertions of \<^verbatim>\<open>scripts/experiments.py\<close> that read the tables.
  The clock and what each poll sees are parameters: \<open>clock n\<close> is the n-th reading of
  \<^verbatim>\<open>time.monotonic\<close>, \<open>poll n\<close> the result of the predicate in the n-th iteration.
\<close>

section \<open>Waiting\<close>

datatype 'e wait_error = Timed_out | Raised_by 'e

text \<open>\<^verbatim>\<open>wait_for\<close>; \<open>None\<close>: the loop never ends.\<close>

partial_function (option) wait_from ::
    "(nat \<Rightarrow> rat) \<Rightarrow> (nat \<Rightarrow> 'e + 'a option) \<Rightarrow> rat \<Rightarrow> nat \<Rightarrow> ('e wait_error + 'a) option" where
  "wait_from clock poll deadline n =
     (if clock n < deadline then
        (case poll n of
           Inl e \<Rightarrow> Some (Inl (Raised_by e))
         | Inr (Some r) \<Rightarrow> Some (Inr r)
         | Inr None \<Rightarrow> wait_from clock poll deadline (Suc n))
      else Some (Inl Timed_out))"

definition wait_for :: "(nat \<Rightarrow> rat) \<Rightarrow> (nat \<Rightarrow> 'e + 'a option) \<Rightarrow> rat \<Rightarrow> ('e wait_error + 'a) option" where
  "wait_for clock poll timeout = wait_from clock poll (clock 0 + timeout) 1"

text \<open>\<^verbatim>\<open>time.sleep(0.1)\<close> between two readings.\<close>

definition sleeps :: "rat \<Rightarrow> (nat \<Rightarrow> rat) \<Rightarrow> bool" where
  "sleeps delay clock \<longleftrightarrow> (\<forall>n. clock n + delay \<le> clock (Suc n))"

text \<open>The loops of \<^verbatim>\<open>check_compose\<close> poll first and look at the clock afterwards.\<close>

partial_function (option) poll_from ::
    "(nat \<Rightarrow> rat) \<Rightarrow> (nat \<Rightarrow> 'e + 'a option) \<Rightarrow> rat \<Rightarrow> nat \<Rightarrow> ('e wait_error + 'a) option" where
  "poll_from clock poll deadline n =
     (case poll n of
        Inl e \<Rightarrow> Some (Inl (Raised_by e))
      | Inr (Some r) \<Rightarrow> Some (Inr r)
      | Inr None \<Rightarrow>
          if deadline < clock n then Some (Inl Timed_out) else poll_from clock poll deadline (Suc n))"

definition poll_until :: "(nat \<Rightarrow> rat) \<Rightarrow> (nat \<Rightarrow> 'e + 'a option) \<Rightarrow> rat \<Rightarrow> ('e wait_error + 'a) option" where
  "poll_until clock poll timeout = poll_from clock poll (clock 0 + timeout) 1"

section \<open>Completion of jobs\<close>

datatype check_error = Http_status nat | Failed_jobs "string list"

text \<open>\<^verbatim>\<open>get\<close> of each job in turn, each against the tables of its own moment.\<close>

fun read_statuses :: "(nat \<Rightarrow> database) \<Rightarrow> uuid list \<Rightarrow> check_error + string list" where
  "read_statuses view [] = Inr []"
| "read_statuses view (i # is) =
     (case job_by_id i (view (length is)) of
        None \<Rightarrow> Inl (Http_status 404)
      | Some j \<Rightarrow> (case read_statuses view is of
          Inl e \<Rightarrow> Inl e
        | Inr ss \<Rightarrow> Inr (status_name (j_status j) # ss)))"

definition finished :: "check_error + string list \<Rightarrow> check_error + string list option" where
  "finished read =
     (case read of
        Inl e \<Rightarrow> Inl e
      | Inr ss \<Rightarrow>
          if \<exists>s \<in> set ss. s \<in> {''FAILED'', ''DEAD_LETTER'', ''CANCELLED''} then Inl (Failed_jobs ss)
          else if \<forall>s \<in> set ss. s = ''SUCCEEDED'' then Inr (Some ss)
          else Inr None)"

definition complete :: "(nat \<Rightarrow> rat) \<Rightarrow> (nat \<Rightarrow> nat \<Rightarrow> database) \<Rightarrow> uuid list \<Rightarrow> rat
    \<Rightarrow> (check_error wait_error + string list) option" where
  "complete clock view ids timeout = wait_for clock (\<lambda>n. finished (read_statuses (view n) ids)) timeout"

section \<open>Assertions on the tables\<close>

text \<open>\<^verbatim>\<open>SELECT count(*) FROM (SELECT job_id FROM attempts WHERE outcome='SUCCEEDED' GROUP BY job_id HAVING count(*)>1)\<close>.\<close>

definition successes_of :: "uuid \<Rightarrow> database \<Rightarrow> nat" where
  "successes_of i d = length (filter (\<lambda>a. a_outcome a = Some OutSucceeded \<and> a_job_id a = i) (attempts d))"

definition duplicate_successes :: "database \<Rightarrow> nat" where
  "duplicate_successes d =
     length (filter (\<lambda>i. 1 < successes_of i d) (remdups (map a_job_id (attempts d))))"

text \<open>
  The jobs per worker of \<^verbatim>\<open>check_compose\<close>, from the attempts of each job; \<open>None\<close>: the assertion that there
  is exactly one attempt fails.
\<close>

fun bump :: "string \<Rightarrow> (string \<times> nat) list \<Rightarrow> (string \<times> nat) list" where
  "bump k [] = [(k, 1)]"
| "bump k ((n, v) # m) = (if n = k then (n, v + 1) # m else (n, v) # bump k m)"

fun distribution :: "string list list \<Rightarrow> (string \<times> nat) list \<Rightarrow> (string \<times> nat) list option" where
  "distribution [] m = Some m"
| "distribution (ws # rest) m = (case ws of [w] \<Rightarrow> distribution rest (bump w m) | _ \<Rightarrow> None)"

text \<open>
  \<^verbatim>\<open>scripts/profile_reads.py\<close>: a page of jobs serialized with the results looked up row by row, or loaded in
  one batch; with the number of SQL statements each way.
\<close>

definition profile_read :: "env \<Rightarrow> bool \<Rightarrow> database \<Rightarrow> nat \<times> job_out list" where
  "profile_read env batch d =
     (let rows = take 100 (jobs d) in
      if batch then
        let found = map_of (map (\<lambda>r. (r_job_id r, r)) (filter (\<lambda>r. r_job_id r \<in> j_id ` set rows) (results d)))
        in (2, map (serialize env d (Some found)) rows)
      else (1 + length rows, map (serialize env d None) rows))"

section \<open>Lemmas\<close>

lemma profile_outputs_equal: "snd (profile_read env True d) = snd (profile_read env False d)"
  by (auto simp: profile_read_def Let_def serialize_def batch_lookup result_by_job_def)

lemma sleeps_mono:
  assumes "sleeps delay clock"
  shows "clock n + of_nat k * delay \<le> clock (n + k)"
proof (induction k)
  case (Suc k)
  have "clock (n + k) + delay \<le> clock (Suc (n + k))" using assms by (simp add: sleeps_def)
  with Suc show ?case by (simp add: algebra_simps)
qed simp

text \<open>What a wait that starts in iteration \<open>n\<close> may end with, after at most \<open>k\<close> polls.\<close>

definition wait_verdict ::
    "(nat \<Rightarrow> rat) \<Rightarrow> (nat \<Rightarrow> 'e + 'a option) \<Rightarrow> rat \<Rightarrow> nat \<Rightarrow> nat \<Rightarrow> 'e wait_error + 'a \<Rightarrow> bool" where
  "wait_verdict clock poll deadline n k r \<longleftrightarrow>
     (case r of
        Inr x \<Rightarrow> \<exists>m \<ge> n. m < n + k \<and> clock m < deadline \<and> poll m = Inr (Some x)
      | Inl (Raised_by e) \<Rightarrow> \<exists>m \<ge> n. m < n + k \<and> clock m < deadline \<and> poll m = Inl e
      | Inl Timed_out \<Rightarrow> \<exists>m \<ge> n. m \<le> n + k \<and> deadline \<le> clock m \<and> (\<forall>i \<in> {n..<m}. poll i = Inr None))"

lemma wait_verdict_now:
  "\<not> clock n < deadline \<Longrightarrow> wait_verdict clock poll deadline n k (Inl Timed_out)"
  "clock n < deadline \<Longrightarrow> poll n = Inl e \<Longrightarrow> wait_verdict clock poll deadline n (Suc k) (Inl (Raised_by e))"
  "clock n < deadline \<Longrightarrow> poll n = Inr (Some x) \<Longrightarrow> wait_verdict clock poll deadline n (Suc k) (Inr x)"
  unfolding wait_verdict_def by (auto intro: exI [of _ n])

lemma wait_verdict_later:
  assumes "wait_verdict clock poll deadline (Suc n) k r" and "poll n = Inr None"
  shows "wait_verdict clock poll deadline n (Suc k) r"
proof (cases "r = Inl Timed_out")
  case True
  with assms(1) obtain m where m: "Suc n \<le> m" "m \<le> Suc n + k" "deadline \<le> clock m"
    "\<forall>i \<in> {Suc n..<m}. poll i = Inr None" by (auto simp: wait_verdict_def)
  have "poll i = Inr None" if "i \<in> {n..<m}" for i using m(4) assms(2) that by (cases "i = n") auto
  with m True show ?thesis by (auto simp: wait_verdict_def intro!: exI [of _ m])
next
  case False
  with assms(1) show ?thesis
    unfolding wait_verdict_def
    by (cases r rule: sum.exhaust) (auto split: wait_error.splits intro: Suc_leD less_SucI)
qed

lemma wait_from_ends:
  assumes "deadline \<le> clock (n + k)"
  shows "\<exists>r. wait_from clock poll deadline n = Some r \<and> wait_verdict clock poll deadline n k r"
  using assms
proof (induction k arbitrary: n)
  case 0
  then show ?case using wait_verdict_now(1) [of clock n deadline poll 0]
    by (subst wait_from.simps) auto
next
  case (Suc k)
  consider "\<not> clock n < deadline" | e where "clock n < deadline" "poll n = Inl e"
    | x where "clock n < deadline" "poll n = Inr (Some x)" | "clock n < deadline" "poll n = Inr None"
    by (metis not_Some_eq old.sum.exhaust)
  then show ?case
  proof cases
    case 4
    have "deadline \<le> clock (Suc n + k)" using Suc.prems by simp
    from Suc.IH [OF this] wait_verdict_later [of clock poll deadline n k, OF _ 4(2)] 4 show ?thesis
      by (subst wait_from.simps) auto
  qed (subst wait_from.simps, simp add: wait_verdict_now)+
qed

lemma poll_from_ends:
  assumes "deadline < clock (n + k)"
  shows "\<exists>r. poll_from clock poll deadline n = Some r"
  using assms
proof (induction k arbitrary: n)
  case 0
  then show ?case by (subst poll_from.simps) (auto split: sum.split option.split)
next
  case (Suc k)
  then have "\<exists>r. poll_from clock poll deadline (Suc n) = Some r" by simp
  then show ?case by (subst poll_from.simps) (auto split: sum.split option.split)
qed

lemma read_statuses_job:
  assumes "read_statuses view ids = Inr ss" and "\<forall>s \<in> set ss. s = ''SUCCEEDED''" and "i \<in> set ids"
  shows "\<exists>k j. job_by_id i (view k) = Some j \<and> j_status j = SUCCEEDED"
  using assms
proof (induction view ids arbitrary: ss rule: read_statuses.induct)
  case (2 view i' ids)
  then obtain j ss' where j: "job_by_id i' (view (length ids)) = Some j" "read_statuses view ids = Inr ss'"
    "ss = status_name (j_status j) # ss'" by (auto split: option.splits sum.splits)
  then have "j_status j = SUCCEEDED" using 2(3) by (cases "j_status j") auto
  show ?case
  proof (cases "i = i'")
    case False
    have "i \<in> set ids" using 2(4) False by simp
    moreover have "\<forall>s \<in> set ss'. s = ''SUCCEEDED''" using 2(3) j(3) by simp
    ultimately show ?thesis using 2(1) [OF j(1,2)] by blast
  qed (use j(1) \<open>j_status j = SUCCEEDED\<close> in blast)
qed simp

lemma finished_Some:
  assumes "finished (read_statuses view ids) = Inr (Some ss)" and "i \<in> set ids"
  shows "\<exists>k j. job_by_id i (view k) = Some j \<and> j_status j = SUCCEEDED"
  using assms by (auto simp: finished_def split: sum.splits if_splits intro!: read_statuses_job)

text \<open>The jobs per worker add up to the jobs.\<close>

lemma bump_keys: "fst ` set (bump k m) = insert k (fst ` set m)"
  by (induction k m rule: bump.induct) auto

lemma bump_total:
  "sum_list (map snd (bump k m)) = Suc (sum_list (map snd m))"
  "distinct (map fst m) \<Longrightarrow> distinct (map fst (bump k m))"
  by (induction k m rule: bump.induct) (auto simp: bump_keys)

lemma distribution_total:
  assumes "distribution xs m = Some m'" and "distinct (map fst m)"
  shows "sum_list (map snd m') = sum_list (map snd m) + length xs \<and> distinct (map fst m')"
  using assms
proof (induction xs m arbitrary: m' rule: distribution.induct)
  case (2 ws rest m)
  then obtain w where w: "ws = [w]" "distribution rest (bump w m) = Some m'"
    by (cases ws; cases "tl ws") simp_all
  from 2(1) [OF w(1) _ w(2) bump_total(2) [OF 2(3)]] bump_total(1) [of w m] w(1) show ?case by simp
qed simp

lemma distinct_le_1:
  assumes "distinct xs" and "\<And>x y. x \<in> set xs \<Longrightarrow> y \<in> set xs \<Longrightarrow> x = y"
  shows "length xs \<le> 1"
proof -
  have "card (set xs) \<le> 1" using assms(2) by (metis card_le_Suc0_iff_eq One_nat_def finite_set)
  with distinct_card [OF assms(1)] show ?thesis by simp
qed

lemma successes_le_1:
  assumes "db_inv d"
  shows "successes_of i d \<le> 1"
proof -
  have "distinct (attempts d)"
    using inv_parts(1) [OF assms] by (simp add: keys_ok_def distinct_map)
  then have "distinct (filter (\<lambda>a. a_outcome a = Some OutSucceeded \<and> a_job_id a = i) (attempts d))" by simp
  moreover have "a = b" if same: "a \<in> set (attempts d)" "b \<in> set (attempts d)" "a_outcome a = Some OutSucceeded"
    "a_outcome b = Some OutSucceeded" "a_job_id a = i" "a_job_id b = i" for a b
  proof -
    obtain j where j: "j \<in> set (jobs d)" "j_id j = a_job_id a" "lease_ok j a"
      by (rule inv_attempt_job [OF assms same(1)])
    have "lease_ok j b" using inv_lease [OF assms j(1) same(2)] j(2) same(5,6) by simp
    then show ?thesis
      using fence_unique [OF inv_parts(4) [OF assms] j(1) same(1,2)] j same by (simp add: lease_ok_def)
  qed
  ultimately show ?thesis unfolding successes_of_def by (intro distinct_le_1) auto
qed

lemma wait_for_ends:
  assumes "sleeps delay clock" and "0 < delay"
  shows "\<exists>r. wait_for clock poll timeout = Some r
    \<and> wait_verdict clock poll (clock 0 + timeout) 1 (nat \<lceil>timeout / delay\<rceil>) r"
proof -
  let ?k = "nat \<lceil>timeout / delay\<rceil>"
  have "timeout / delay \<le> of_nat ?k" by linarith
  then have "timeout \<le> of_nat ?k * delay" using assms(2) by (simp add: field_simps)
  moreover have "clock 0 + of_nat (1 + ?k) * delay \<le> clock (1 + ?k)" using sleeps_mono [OF assms(1), of 0 "1 + ?k"] by simp
  ultimately have "clock 0 + timeout \<le> clock (1 + ?k)" using assms(2) by (simp add: algebra_simps)
  from wait_from_ends [of "clock 0 + timeout" clock 1 ?k poll, OF this] show ?thesis by (simp add: wait_for_def)
qed

section \<open>Properties\<close>

text \<open>
  Waiting is bounded. With a tenth of a second between two readings of the clock, \<^verbatim>\<open>wait_for\<close> ends after
  at most ten polls per second of its timeout, with the first truthy result or the exception of a
  poll made before the deadline, or with a timeout after polls that all saw nothing; the loops of
  \<^verbatim>\<open>check_compose\<close>, which sleep half a second, end as well.
\<close>

lemma wait_for_terminates:
  assumes "sleeps (1 / 10) clock" and "sleeps (1 / 2) clock'"
  shows "(\<exists>r. wait_for clock poll timeout = Some r
      \<and> wait_verdict clock poll (clock 0 + timeout) 1 (nat \<lceil>10 * timeout\<rceil>) r)
    \<and> (\<exists>r. poll_until clock' poll timeout = Some r)"
proof
  show "\<exists>r. wait_for clock poll timeout = Some r
      \<and> wait_verdict clock poll (clock 0 + timeout) 1 (nat \<lceil>10 * timeout\<rceil>) r"
    using wait_for_ends [OF assms(1), of poll timeout] by (simp add: mult.commute)
  let ?k = "nat \<lceil>2 * timeout\<rceil>"
  have "2 * timeout \<le> of_nat ?k" by linarith
  moreover have "clock' 0 + of_nat (1 + ?k) * (1 / 2) \<le> clock' (1 + ?k)"
    using sleeps_mono [OF assms(2), of 0 "1 + ?k"] by simp
  ultimately have "clock' 0 + timeout < clock' (1 + ?k)" by (simp add: field_simps)
  from poll_from_ends [of "clock' 0 + timeout" clock' 1 ?k poll, OF this] show "\<exists>r. poll_until clock' poll timeout = Some r" by (simp add: poll_until_def)
qed

text \<open>
  What the experiments conclude from polling is final. \<^verbatim>\<open>complete\<close> always ends, and when it returns, then
  in every database the coordinators reach after the reads every one of the jobs has SUCCEEDED; the
  count of jobs with two successful attempts, which the experiments assert to be zero, is zero in
  every such database.
\<close>

lemma complete_is_final:
  assumes "sleeps (1 / 10) clock" and reads: "\<And>n k. reachable env c (view n k)"
    and later: "\<And>n k. (coordinator_step env c)\<^sup>*\<^sup>* (view n k) d"
  shows "(\<exists>r. complete clock view ids timeout = Some r)
    \<and> (\<forall>ss i. complete clock view ids timeout = Some (Inr ss) \<longrightarrow> i \<in> set ids
         \<longrightarrow> (\<exists>j. job_by_id i d = Some j \<and> j_status j = SUCCEEDED))
    \<and> duplicate_successes d = 0"
proof -
  let ?poll = "\<lambda>n. finished (read_statuses (view n) ids)"
  obtain r where r: "complete clock view ids timeout = Some r"
    "wait_verdict clock ?poll (clock 0 + timeout) 1 (nat \<lceil>timeout / (1 / 10)\<rceil>) r"
    using wait_for_ends [OF assms(1), of ?poll timeout] by (auto simp: complete_def)
  have inv: "db_inv d" using reachable_extend(2) [OF reads later] .
  have "\<exists>j. job_by_id i d = Some j \<and> j_status j = SUCCEEDED" if "r = Inr ss" "i \<in> set ids" for ss i
  proof -
    from r(2) that(1) obtain m where "?poll m = Inr (Some ss)" by (auto simp: wait_verdict_def)
    from finished_Some [OF this that(2)] obtain k j where
      j: "job_by_id i (view m k) = Some j" "j_status j = SUCCEEDED" by blast
    note run = reachable_extend [OF reads [of m k] later [of m k]]
    from run_keeps_job [OF run(3,1) conjunct1 [OF job_by_id_Some [OF j(1)]]] j(2) obtain j' where
      "j' \<in> set (jobs d)" "j_id j' = j_id j" "j_status j' = SUCCEEDED"
      by (auto simp: same_request_def TERMINAL_def)
    then show ?thesis
      using job_table.lookup_unique [of "jobs d" j'] inv_parts(1) [OF inv] job_by_id_Some [OF j(1)]
      by (auto simp: keys_ok_def job_by_id_def)
  qed
  moreover have "duplicate_successes d = 0"
    using successes_le_1 [OF inv] by (simp add: duplicate_successes_def filter_empty_conv not_less)
  ultimately show ?thesis using r(1) by auto
qed

end
