(* ===== verification/Bench.thy ===== *)
theory Bench
  imports Worker
begin

text \<open>
  \<^verbatim>\<open>benchmarks/run.py\<close>: the percentile estimate, the workloads, the submission loop and the checks on the
  arguments. Numbers are exact rationals where the program uses floats.
\<close>

section \<open>Percentiles\<close>

text \<open>\<^verbatim>\<open>int\<close> truncates; the index is not negative.\<close>

definition percentile :: "rat list \<Rightarrow> rat \<Rightarrow> rat" where
  "percentile values fraction =
     (let vs = sort values in
      if vs = [] then 0
      else
        let index = of_nat (length vs - 1) * fraction;
            lo = nat \<lfloor>index\<rfloor>;
            hi = min (lo + 1) (length vs - 1)
        in vs ! lo + (vs ! hi - vs ! lo) * (index - of_nat lo))"

section \<open>Workloads\<close>

definition workload :: "string \<Rightarrow> int \<Rightarrow> string \<times> json" where
  "workload kind index =
     (if kind = ''io'' \<or> (kind = ''mixed'' \<and> index mod 2 \<noteq> 0)
        then (''sleep'', JObj [(''seconds'', JFloat (5 / 100))])
      else if kind = ''light'' then (''hash_text'', JObj [(''text'', JStr ''greyqueue'')])
      else (''calculate_pi'', JObj [(''iterations'', JInt 300000)]))"

definition STRATEGIES :: "string list" where
  "STRATEGIES = [''thread'', ''process'', ''hybrid'', ''subprocess'']"

definition bench_cases :: "bool \<Rightarrow> string \<Rightarrow> string \<Rightarrow> (string \<times> string) list" where
  "bench_cases matrix strategy kind =
     (if matrix then concat (map (\<lambda>s. map (\<lambda>w. (s, w)) [''cpu'', ''io'', ''mixed'']) STRATEGIES)
      else [(strategy, kind)])"

definition bench_args_ok :: "int \<Rightarrow> int \<Rightarrow> bool" where
  "bench_args_ok n concurrency \<longleftrightarrow> 1 \<le> n \<and> n \<le> 10000 \<and> 1 \<le> concurrency \<and> concurrency \<le> 32"

section \<open>Submitting\<close>

datatype bench_end = Submitted | Refused nat | Unavailable

text \<open>
  \<^verbatim>\<open>submit\<close>: the replies to its posts in order, the delays it sleeps, and its end; \<open>None\<close> when it is still
  waiting for a reply.
\<close>

definition bench_delay :: "nat \<Rightarrow> rat" where
  "bench_delay attempt = min (2 / 10 * 2 ^ attempt) 3"

fun bench_submit :: "nat \<Rightarrow> reply list \<Rightarrow> rat list \<times> bench_end option" where
  "bench_submit attempt [] = ([], if attempt < 6 then None else Some Unavailable)"
| "bench_submit attempt (r # rest) =
     (let again = (let (ds, e) = bench_submit (Suc attempt) rest in (bench_delay attempt # ds, e)) in
      if attempt < 6 then
        (case r of
           Response st body \<Rightarrow>
             if st \<notin> {429, 503} then ([], Some (if 200 \<le> st \<and> st < 300 then Submitted else Refused st))
             else again
         | TransportError x \<Rightarrow> again)
      else ([], Some Unavailable))"

section \<open>Lemmas\<close>

text \<open>Interpolation between neighbours of a sorted list, as a function of the index.\<close>

definition at_index :: "rat list \<Rightarrow> rat \<Rightarrow> rat" where
  "at_index vs x = vs ! nat \<lfloor>x\<rfloor> + (vs ! min (nat \<lfloor>x\<rfloor> + 1) (length vs - 1) - vs ! nat \<lfloor>x\<rfloor>) * (x - of_nat (nat \<lfloor>x\<rfloor>))"

lemma percentile_at_index:
  "values \<noteq> [] \<Longrightarrow> percentile values f = at_index (sort values) (of_nat (length values - 1) * f)"
  by (simp add: percentile_def at_index_def Let_def) (metis length_0_conv length_sort)

lemma at_index_bounds:
  assumes "sorted vs" and "0 \<le> x" and "nat \<lfloor>x\<rfloor> < length vs"
  shows "vs ! nat \<lfloor>x\<rfloor> \<le> at_index vs x" "at_index vs x \<le> vs ! min (nat \<lfloor>x\<rfloor> + 1) (length vs - 1)"
proof -
  let ?l = "vs ! nat \<lfloor>x\<rfloor>" and ?h = "vs ! min (nat \<lfloor>x\<rfloor> + 1) (length vs - 1)" and ?t = "x - of_nat (nat \<lfloor>x\<rfloor>)"
  have le: "?l \<le> ?h" using assms by (intro sorted_nth_mono) auto
  have t: "0 \<le> ?t" "?t \<le> 1" using assms(2) by linarith+
  show "?l \<le> at_index vs x" using le t by (simp add: at_index_def)
  have "(?h - ?l) * ?t \<le> (?h - ?l) * 1" using le t by (intro mult_left_mono) auto
  then show "at_index vs x \<le> ?h" by (simp add: at_index_def)
qed

lemma at_index_mono:
  assumes "sorted vs" and "0 \<le> x" and "x \<le> y" and "nat \<lfloor>y\<rfloor> < length vs"
  shows "at_index vs x \<le> at_index vs y"
proof (cases "nat \<lfloor>x\<rfloor> = nat \<lfloor>y\<rfloor>")
  case True
  let ?l = "vs ! nat \<lfloor>y\<rfloor>" and ?h = "vs ! min (nat \<lfloor>y\<rfloor> + 1) (length vs - 1)"
  have "?l \<le> ?h" using assms by (intro sorted_nth_mono) auto
  then have "(?h - ?l) * (x - of_nat (nat \<lfloor>y\<rfloor>)) \<le> (?h - ?l) * (y - of_nat (nat \<lfloor>y\<rfloor>))"
    using assms(3) by (intro mult_left_mono) auto
  with True show ?thesis by (simp add: at_index_def)
next
  case False
  have "nat \<lfloor>x\<rfloor> \<le> nat \<lfloor>y\<rfloor>" using assms(3) by (intro nat_mono floor_mono)
  with False have lt: "nat \<lfloor>x\<rfloor> + 1 \<le> nat \<lfloor>y\<rfloor>" by simp
  have "at_index vs x \<le> vs ! min (nat \<lfloor>x\<rfloor> + 1) (length vs - 1)"
    using assms lt by (intro at_index_bounds(2)) auto
  also have "\<dots> \<le> vs ! nat \<lfloor>y\<rfloor>" using assms lt by (intro sorted_nth_mono) auto
  also have "\<dots> \<le> at_index vs y" using assms by (intro at_index_bounds(1)) auto
  finally show ?thesis .
qed

lemma index_in_range:
  assumes "values \<noteq> []" and "0 \<le> f" and "f \<le> (1 :: rat)"
  shows "0 \<le> of_nat (length values - 1) * f" "nat \<lfloor>of_nat (length values - 1) * f\<rfloor> < length values"
proof -
  show "0 \<le> of_nat (length values - 1) * f" using assms(2) by simp
  have "of_nat (length values - 1) * f \<le> of_nat (length values - 1) * 1" using assms(3) by (intro mult_left_mono) auto
  then have "nat \<lfloor>of_nat (length values - 1) * f\<rfloor> \<le> length values - 1" by (simp add: floor_le_iff nat_le_iff)
  with assms(1) show "nat \<lfloor>of_nat (length values - 1) * f\<rfloor> < length values" by (cases "values") auto
qed

definition unavailable :: "reply \<Rightarrow> bool" where
  "unavailable r = (case r of Response st body \<Rightarrow> st \<in> {429, 503} | TransportError x \<Rightarrow> True)"

lemma bench_submit_from:
  assumes "attempt \<le> 6"
  shows "fst (bench_submit attempt replies)
      = map bench_delay [attempt..<min 6 (attempt + length (takeWhile unavailable replies))]
    \<and> (snd (bench_submit attempt replies) = Some Unavailable
         \<longleftrightarrow> 6 \<le> attempt + length (takeWhile unavailable replies))"
  using assms
proof (induction replies arbitrary: attempt)
  case (Cons r rest)
  show ?case
  proof (cases "attempt < 6 \<and> unavailable r")
    case True
    then have "bench_submit attempt (r # rest)
        = (bench_delay attempt # fst (bench_submit (Suc attempt) rest), snd (bench_submit (Suc attempt) rest))"
      by (auto simp: unavailable_def case_prod_beta Let_def split: reply.splits)
    moreover from True have "[attempt..<min 6 (attempt + length (takeWhile unavailable (r # rest)))]
        = attempt # [Suc attempt..<min 6 (Suc attempt + length (takeWhile unavailable rest))]"
      by (subst upt_conv_Cons) (simp_all add: less_Suc_eq_le)
    ultimately show ?thesis using Cons.IH [of "Suc attempt"] True by (simp del: bench_submit.simps upt_Suc)
  next
    case False
    with Cons.prems show ?thesis by (auto simp: unavailable_def Let_def split: reply.splits)
  qed
qed simp

lemma bench_delays:
  assumes "n \<le> 6"
  shows "sum_list (map bench_delay [0..<n]) \<le> 9"
proof -
  have "[0..<6] = [0..<n] @ [n..<6]" using assms by (metis le_add_diff_inverse upt_add_eq_append zero_le)
  then have "sum_list (map bench_delay [0..<6])
      = sum_list (map bench_delay [0..<n]) + sum_list (map bench_delay [n..<6])"
    by (metis map_append sum_list_append)
  moreover have "sum_list (map bench_delay [0..<6]) = 9" by (simp add: bench_delay_def eval_nat_numeral)
  moreover have "0 \<le> sum_list (map bench_delay [n..<6])" by (intro sum_list_nonneg) (auto simp: bench_delay_def)
  ultimately show ?thesis by linarith
qed

section \<open>Properties\<close>

text \<open>
  The reported percentiles are sane. For samples and a fraction between 0 and 1 the estimate lies
  between the least and the greatest sample, is the least at 0 and the greatest at 1, and never
  decreases with the fraction, so p50 \<open>\<le>\<close> p95 \<open>\<le>\<close> p99.
\<close>

lemma percentile_sound:
  assumes "values \<noteq> []" and "0 \<le> f" and "f \<le> g" and "g \<le> 1"
  shows "Min (set values) \<le> percentile values f \<and> percentile values f \<le> percentile values g
    \<and> percentile values g \<le> Max (set values)
    \<and> percentile values 0 = Min (set values) \<and> percentile values 1 = Max (set values)"
proof -
  let ?vs = "sort values" and ?n = "of_nat (length values - 1) :: rat"
  have fg: "0 \<le> g" "f \<le> 1" using assms by linarith+
  have mono: "percentile values a \<le> percentile values b" if "0 \<le> a" "a \<le> b" "b \<le> 1" for a b
  proof -
    have "nat \<lfloor>?n * b\<rfloor> < length ?vs" using that index_in_range(2) [OF assms(1), of b] by (simp only: length_sort)
    moreover have "0 \<le> ?n * a" using that by (intro mult_nonneg_nonneg) simp_all
    moreover have "?n * a \<le> ?n * b" using that by (intro mult_left_mono) simp_all
    ultimately show ?thesis unfolding percentile_at_index [OF assms(1)] by (intro at_index_mono) (simp_all only: sorted_sort)
  qed
  have ends: "percentile values 0 = ?vs ! 0" "percentile values 1 = ?vs ! (length values - 1)"
    using assms(1) by (simp_all add: percentile_at_index at_index_def)
  have "?vs ! 0 = Min (set values)" "?vs ! (length values - 1) = Max (set values)"
  proof -
    have len: "0 < length ?vs" "length values - 1 < length ?vs" using assms(1) by (auto simp: length_greater_0_conv)
    have "?vs ! 0 \<le> x" "x \<le> ?vs ! (length values - 1)" if "x \<in> set values" for x
    proof -
      from that obtain i where "i < length ?vs" "x = ?vs ! i" by (metis in_set_conv_nth set_sort)
      then show "?vs ! 0 \<le> x" "x \<le> ?vs ! (length values - 1)"
        by (auto intro!: sorted_nth_mono)
    qed
    moreover have "?vs ! 0 \<in> set values" "?vs ! (length values - 1) \<in> set values"
      using len nth_mem [of _ ?vs] by (metis set_sort)+
    ultimately show "?vs ! 0 = Min (set values)" "?vs ! (length values - 1) = Max (set values)"
      by (auto intro!: Min_eqI [symmetric] Max_eqI [symmetric])
  qed
  with ends mono [of 0 f] mono [of f g] mono [of g 1] assms fg show ?thesis by simp
qed

text \<open>
  A benchmark offers only work the system takes, and does not hammer it: every workload of every
  kind passes the task validation unchanged; one submission posts at most six times, sleeps at most
  nine seconds in all, and gives up only when six replies in a row were unavailable.
\<close>

lemma benchmark_submits_fairly:
  assumes "strict_models env"
  shows "validate env (fst (workload kind index)) (snd (workload kind index)) = Inr (snd (workload kind index))
   \<and> length (fst (bench_submit 0 replies)) \<le> 6 \<and> sum_list (fst (bench_submit 0 replies)) \<le> 9
   \<and> (snd (bench_submit 0 replies) = Some Unavailable \<longleftrightarrow> 6 \<le> length (takeWhile unavailable replies))"
proof -
  have "\<exists>spec. map_of REGISTRY (fst (workload kind index)) = Some spec \<and> conforms spec (snd (workload kind index))"
    by (simp add: workload_def REGISTRY_def args_defs in_range_def)
  then have "validate env (fst (workload kind index)) (snd (workload kind index)) = Inr (snd (workload kind index))"
    using assms by (auto simp: validate_def strict_models_def)
  moreover have "fst (bench_submit 0 replies) = map bench_delay [0..<min 6 (length (takeWhile unavailable replies))]"
    "snd (bench_submit 0 replies) = Some Unavailable \<longleftrightarrow> 6 \<le> length (takeWhile unavailable replies)"
    using bench_submit_from [of 0 replies] by simp_all
  ultimately show ?thesis using bench_delays [of "min 6 (length (takeWhile unavailable replies))"] by simp
qed

end
