(* ===== verification/Sink.thy ===== *)
theory Sink
  imports Composition
begin

text \<open>
  \<^verbatim>\<open>scripts/side_effects.py\<close>: a one-shot worker that commits an effect to a ledger of its own (SQLite)
  before it reports to the coordinator, and may die in between. The ledger is its two tables; the
  calls run against the routes of the coordinator, and the worlds in which the calls arrive are
  supplied.
\<close>

section \<open>The ledger\<close>

record ledger =
  receipts :: "string list"
  effects :: "string list"

definition empty_ledger :: ledger where
  "empty_ledger = \<lparr>receipts = [], effects = []\<rparr>"

text \<open>\<^verbatim>\<open>INSERT OR IGNORE INTO receipts\<close>: the table and the row count.\<close>

definition insert_receipt :: "string \<Rightarrow> ledger \<Rightarrow> nat \<times> ledger" where
  "insert_receipt op l = (if op \<in> set (receipts l) then (0, l) else (1, l\<lparr>receipts := receipts l @ [op]\<rparr>))"

definition record_effect :: "bool \<Rightarrow> string \<Rightarrow> ledger \<Rightarrow> ledger" where
  "record_effect deduplicate op l =
     (let (n, l1) = (if deduplicate then insert_receipt op l else (1, l)) in
      if n = 1 then l1\<lparr>effects := effects l1 @ [op]\<rparr> else l1)"

section \<open>One execution\<close>

text \<open>What the process draws at random, when its calls arrive, and how it reads UUIDs.\<close>

record once_env =
  on_suffix :: uuid
  on_credential :: string
  on_claim_id :: uuid
  on_uuid_of :: "string \<Rightarrow> uuid"
  on_claim :: "world \<Rightarrow> world"
  on_start :: "world \<Rightarrow> world"
  on_finish :: "world \<Rightarrow> world"
  on_crash :: bool

datatype once_end = Http_error nat | Assertion_failed | Process_exit nat | Acknowledged

definition once_id :: "once_env \<Rightarrow> string" where
  "once_id x = ''sink-'' @ padded 16 32 (on_suffix x)"

definition once_registration :: "once_env \<Rightarrow> registration" where
  "once_registration x = \<lparr>reg_worker_id = once_id x, reg_capacity = 1, reg_capabilities = [''hash_text''],
     reg_session_token = on_credential x\<rparr>"

text \<open>
  \<^verbatim>\<open>execute_once\<close>: its end, the operation it asked the ledger for (if it got that far), and the
  coordinator's world and the ledger it leaves.
\<close>

definition execute_once :: "env \<Rightarrow> settings \<Rightarrow> bool \<Rightarrow> once_env \<Rightarrow> world \<times> ledger
    \<Rightarrow> once_end \<times> string option \<times> world \<times> ledger" where
  "execute_once env c deduplicate x s =
     (let (w, l) = s; wid = once_id x; auth = Some (''Bearer '' @ ws_worker_token c); cred = Some (on_credential x) in
      case (if Registration_accepted (once_registration x) then call (register_route env c auth (once_registration x)) w
            else (Inl 422, w)) of
        (Inl st, w1) \<Rightarrow> (Http_error st, None, w1, l)
      | (Inr _, w1) \<Rightarrow>
     (case call (claim_route env c auth \<lparr>cl_worker_id = wid, cl_slot = 0, cl_claim_id = on_claim_id x\<rparr> cred)
          (on_claim x w1) of
        (Inl st, w2) \<Rightarrow> (Http_error st, None, w2, l)
      | (Inr None, w2) \<Rightarrow> (Assertion_failed, None, w2, l)
      | (Inr (Some item), w2) \<Rightarrow>
     let jid = jo_id (out_job item); tok = on_uuid_of x (out_token item) in
     (case call (start_route env c auth (on_uuid_of x jid) \<lparr>as_worker_id = wid, as_token = tok\<rparr> cred) (on_start x w2) of
        (Inl st, w3) \<Rightarrow> (Http_error st, None, w3, l)
      | (Inr _, w3) \<Rightarrow>
     let l' = record_effect deduplicate jid l in
     if on_crash x then (Process_exit 17, Some jid, w3, l')
     else (case finish_call env c auth wid cred (on_uuid_of x jid) tok
              (success (JObj [(''side_effect_recorded'', JBool True)])) (on_finish x w3) of
        (Inl st, w4) \<Rightarrow> (Http_error st, Some jid, w4, l')
      | (Inr _, w4) \<Rightarrow> (Acknowledged, Some jid, w4, l')))))"

text \<open>Successive executions on one ledger, with the world moving on between them; the operations asked for.\<close>

fun executions :: "env \<Rightarrow> settings \<Rightarrow> bool \<Rightarrow> (once_env \<times> (world \<Rightarrow> world)) list \<Rightarrow> world \<times> ledger
    \<Rightarrow> string list \<times> world \<times> ledger" where
  "executions env c deduplicate [] s = ([], s)"
| "executions env c deduplicate ((x, between) # rest) s =
     (case execute_once env c deduplicate x s of
        (_, asked, w, l) \<Rightarrow>
          (case executions env c deduplicate rest (between w, l) of
             (ops, s') \<Rightarrow> ((case asked of None \<Rightarrow> ops | Some op \<Rightarrow> op # ops), s')))"

section \<open>Lemmas\<close>

text \<open>The ledger sees of an execution only the operation it was asked for.\<close>

lemma execute_once_ledger:
  assumes "execute_once env c deduplicate x (w, l) = (e, asked, w', l')"
  shows "l' = (case asked of None \<Rightarrow> l | Some op \<Rightarrow> record_effect deduplicate op l)"
    and "e = Process_exit 17 \<or> e = Acknowledged \<Longrightarrow> asked \<noteq> None"
  using assms unfolding execute_once_def
  by (auto simp: Let_def split: prod.splits sum.splits option.splits if_splits)

lemma executions_ledger:
  "executions env c deduplicate runs (w, l) = (ops, w', l') \<Longrightarrow> l' = fold (record_effect deduplicate) ops l"
proof (induction runs arbitrary: w l ops)
  case (Cons r runs)
  obtain x between where r: "r = (x, between)" by fastforce
  obtain e asked w1 l1 where once: "execute_once env c deduplicate x (w, l) = (e, asked, w1, l1)"
    by (metis prod_cases4)
  obtain ops1 where rest: "executions env c deduplicate runs (between w1, l1) = (ops1, w', l')"
    "ops = (case asked of None \<Rightarrow> ops1 | Some op \<Rightarrow> op # ops1)"
    using Cons.prems r once by (auto split: prod.splits)
  show ?case using Cons.IH [OF rest(1)] rest(2) execute_once_ledger(1) [OF once] by (cases asked) simp_all
qed simp

lemma fold_plain: "effects (fold (record_effect False) ops l) = effects l @ ops"
  by (induction ops arbitrary: l) (simp_all add: record_effect_def)

lemma fold_deduplicated:
  assumes "set (effects l) = set (receipts l)" and "distinct (effects l)"
  shows "distinct (effects (fold (record_effect True) ops l))
    \<and> set (effects (fold (record_effect True) ops l)) = set (effects l) \<union> set ops"
  using assms
proof (induction ops arbitrary: l)
  case (Cons op ops)
  let ?l = "record_effect True op l"
  have "set (effects ?l) = set (receipts ?l)" "distinct (effects ?l)" "set (effects ?l) = insert op (set (effects l))"
    using Cons.prems by (auto simp: record_effect_def insert_receipt_def)
  with Cons.IH [of ?l] show ?case by auto
qed simp

lemma count_distinct: "distinct xs \<Longrightarrow> count_list xs x = (if x \<in> set xs then 1 else 0)"
  by (induction xs) auto

section \<open>Properties\<close>

text \<open>
  The queue delivers at least once, the sink decides about the effects. Over any executions on one
  ledger, crashed or not and whatever the coordinator answered and did in between, a sink without
  receipts repeats the effect of every execution that reached it; a sink with receipts holds exactly
  one effect for every operation it was asked for.
\<close>

lemma sink_effects:
  "case executions env c deduplicate runs (w, empty_ledger) of
     (ops, w', l) \<Rightarrow> count_list (effects l) op
       = (if deduplicate then min 1 (count_list ops op) else count_list ops op)"
proof -
  obtain ops w' l where run: "executions env c deduplicate runs (w, empty_ledger) = (ops, w', l)"
    by (metis prod_cases3)
  note l = executions_ledger [OF run]
  have "count_list (effects l) op = (if deduplicate then min 1 (count_list ops op) else count_list ops op)"
  proof (cases deduplicate)
    case False
    with l show ?thesis by (simp add: fold_plain empty_ledger_def)
  next
    case True
    with l fold_deduplicated [of empty_ledger ops] have "distinct (effects l)" "set (effects l) = set ops"
      by (simp_all add: empty_ledger_def)
    moreover have "1 \<le> count_list ops op" if "op \<in> set ops" using that count_list_0_iff [of ops op] by (simp add: Suc_le_eq)
    ultimately show ?thesis using True by (auto simp: count_distinct count_list_0_iff)
  qed
  with run show ?thesis by simp
qed

text \<open>An execution that crashes after the commit, evaluated on a queue with one job.\<close>

definition demo_once :: once_env where
  "demo_once = \<lparr>on_suffix = 7, on_credential = demo_session, on_claim_id = 77,
     on_uuid_of = (\<lambda>s. if s = uuid_text 10 then 10 else 20), on_claim = (\<lambda>w. demo_world (db w) 3000 20),
     on_start = (\<lambda>w. demo_world (db w) 4000 30), on_finish = (\<lambda>w. demo_world (db w) 5000 40), on_crash = True\<rparr>"

lemma demo_once_fields [simp]:
  "on_suffix demo_once = 7" "on_credential demo_once = demo_session" "on_claim_id demo_once = 77"
  "on_uuid_of demo_once i = (if i = uuid_text 10 then 10 else 20)" "on_claim demo_once w = demo_world (db w) 3000 20"
  "on_start demo_once w = demo_world (db w) 4000 30" "on_finish demo_once w = demo_world (db w) 5000 40"
  "on_crash demo_once"
  by (simp_all add: demo_once_def)

definition demo_hash_db :: database where
  "demo_hash_db = empty_db\<lparr>jobs := [(demo_job QUEUED 0 2000)\<lparr>j_task := ''hash_text''\<rparr>]\<rparr>"

definition demo_sink_worker :: worker_row where
  "demo_sink_worker = \<lparr>w_id = once_id demo_once, w_state = HEALTHY, w_capacity = 1, w_capabilities = [''hash_text''],
     w_session_hash = Some demo_session, w_drain_requested = False, w_registered_at = 2500, w_last_seen = 2500\<rparr>"

definition demo_sink_registered :: database where
  "demo_sink_registered = demo_hash_db\<lparr>workers := [demo_sink_worker],
     system_events := [\<lparr>se_id = 1, se_kind = ''worker_registered'', se_worker_id = Some (once_id demo_once),
       se_detail = JObj [], se_created_at = 2500\<rparr>]\<rparr>"

definition demo_sink_leased :: database where
  "demo_sink_leased = demo_sink_registered\<lparr>
     jobs := [(demo_job LEASED 1 3001)\<lparr>j_task := ''hash_text''\<rparr>],
     attempts := [demo_attempt\<lparr>a_worker_id := once_id demo_once\<rparr>],
     events := [demo_event 1 (Entered LEASED) 3000]\<rparr>"

lemmas demo_sink_dbs = demo_sink_leased_def demo_sink_registered_def demo_hash_db_def empty_db_def

lemma demo_sink_register:
  "register_route demo_env demo_settings demo_worker (once_registration demo_once) (demo_world demo_hash_db 2500 50)
     = Inr (\<lparr>ro_worker_id = once_id demo_once, ro_lease_seconds = 10, ro_heartbeat_interval = 2\<rparr>,
         (demo_world demo_hash_db 2500 50)\<lparr>db := demo_sink_registered\<rparr>)"
  by (simp add: register_route_def worker_def authorize_def demo_worker_def demo_settings_def tx_eval Let_def
      insert_worker_def new_worker_def once_registration_def demo_env_def log_system_event_def demo_sink_dbs
      demo_sink_worker_def)

lemma demo_sink_claim:
  "claim (once_id demo_once) 0 (Some 77) ''priority'' 10 (demo_world demo_sink_registered 3000 20)
     = Inr (Some ((demo_job LEASED 1 3001)\<lparr>j_task := ''hash_text''\<rparr>, demo_attempt\<lparr>a_worker_id := once_id demo_once\<rparr>),
         (tick (tick (demo_world demo_sink_registered 3000 20)))\<lparr>uuids := (\<lambda>n. 20 + Suc n), db := demo_sink_leased\<rparr>)"
  by (simp add: claim_def lease_job_def tx_eval worker_by_id_def find_row_def attempt_by_claim_def
      slot_attempt_def scheduler_def PriorityScheduler_query_def FIFOScheduler_query_def eligible_def
      first_unlocked_def Let_def new_attempt_def insert_attempt_def active_attempt_def transition_eval
      moved_def job_by_id_def set_job_def set_row_def log_event_def demo_sink_dbs demo_sink_worker_def
      demo_job_def demo_attempt_def demo_event_def)
    (simp add: tick_def)

lemma demo_sink_start:
  "\<exists>w. start 10 (once_id demo_once) 20 (demo_world demo_sink_leased 4000 30) = Inr ((), w)"
  by (simp add: start_def owned_def tx_eval transition_eval moved_def job_by_id_def attempt_by_id_def
      find_row_def set_job_def set_attempt_def set_row_def log_event_def demo_sink_dbs demo_job_def demo_attempt_def)

lemma demo_sink_identity:
  assumes "workers (db w) = [demo_sink_worker]"
  shows "identity demo_env (once_id demo_once) (Some demo_session) w = Inr (demo_sink_worker, w)"
  using assms by (simp add: identity_iff worker_by_id_def find_row_def demo_sink_worker_def or_empty_def
      demo_env_def demo_session_def)

lemma demo_once_reaches_sink:
  "\<exists>w. execute_once demo_env demo_settings True demo_once (demo_world demo_hash_db 2500 50, empty_ledger)
     = (Process_exit 17, Some (uuid_text 10), w, \<lparr>receipts = [uuid_text 10], effects = [uuid_text 10]\<rparr>)"
proof -
  have wid: "once_id demo_once = ''sink-00000000000000000000000000000007''" by code_simp
  have reg: "Registration_accepted (once_registration demo_once)"
    unfolding once_registration_def wid
    by (simp add: Registration_accepted_def demo_session_def Identity_fields_def
      WORKER_ID_def id_char_def known_capabilities_def REGISTRY_def Let_def)
  have auth: "Some (''Bearer '' @ ws_worker_token demo_settings) = demo_worker"
    by (simp add: demo_worker_def demo_settings_def)
  have uu: "uuid_text 20 \<noteq> uuid_text 10" by code_simp
  have ws: "workers demo_sink_registered = [demo_sink_worker]" "workers demo_sink_leased = [demo_sink_worker]"
    by (simp_all add: demo_sink_dbs)
  let ?item = "\<lparr>out_job = serialize demo_env demo_sink_leased None ((demo_job LEASED 1 3001)\<lparr>j_task := ''hash_text''\<rparr>),
     out_token = uuid_text 20, out_fence = 1, out_expires_at = 10003000\<rparr>"
  obtain w2 where "db w2 = demo_sink_leased" and claim:
    "claim_route demo_env demo_settings demo_worker \<lparr>cl_worker_id = once_id demo_once, cl_slot = 0, cl_claim_id = 77\<rparr>
      (Some demo_session) (demo_world demo_sink_registered 3000 20) = Inr (Some ?item, w2)"
    using demo_sink_claim ws
    by (intro that [of "(tick (tick (demo_world demo_sink_registered 3000 20)))\<lparr>uuids := (\<lambda>n. 20 + Suc n), db := demo_sink_leased\<rparr>"])
      (simp_all add: claim_route_def tx_bind_def demo_auth demo_sink_identity tx_get_def demo_settings_fields demo_attempt_def)
  obtain w3 where start: "start_route demo_env demo_settings demo_worker 10
      \<lparr>as_worker_id = once_id demo_once, as_token = 20\<rparr> (Some demo_session) (demo_world demo_sink_leased 4000 30)
      = Inr (''RUNNING'', w3)"
    using demo_sink_start ws by (auto simp: start_route_def tx_bind_def demo_auth demo_sink_identity tx_return_def)
  have id: "jo_id (serialize demo_env demo_sink_leased None ((demo_job LEASED 1 3001)\<lparr>j_task := ''hash_text''\<rparr>)) = uuid_text 10"
    by (simp add: serialize_def serialize_with_def demo_job_def)
  show ?thesis
    using reg uu claim start \<open>db w2 = demo_sink_leased\<close> demo_sink_register
    unfolding execute_once_def Let_def prod.case auth
    by (simp add: call_def handle_def run_tx_def id record_effect_def insert_receipt_def empty_ledger_def)
qed

end
