(* ===== verification/Snapshots.thy ===== *)
theory Snapshots
  imports System
begin

text \<open>
  What a transaction that holds the row of one job may rely on. \<^verbatim>\<open>get_job(lock=True)\<close> and
  \<^verbatim>\<open>owned\<close> of \<^verbatim>\<open>greyqueue/service.py\<close> read the job and the assignment after the row lock was
  granted; \<^verbatim>\<open>identity\<close> of \<^verbatim>\<open>greyqueue/api.py\<close> reads the worker under its own row lock. Until the
  transaction commits, other transactions may commit changes of other rows. This theory shows
  that the operations on an assignment look only at rows their locks protect: run on the tables
  as they were read and then written back, they return the same answer and leave the same tables
  as if they had run at the moment of the commit.
\<close>

section \<open>Writing back the rows of one job\<close>

text \<open>The rows of a job: the job, its attempts in order and its result.\<close>

definition same_rows :: "uuid \<Rightarrow> database \<Rightarrow> database \<Rightarrow> bool" where
  "same_rows i d e \<longleftrightarrow>
     job_by_id i d = job_by_id i e
     \<and> filter (\<lambda>a. a_job_id a = i) (attempts d) = filter (\<lambda>a. a_job_id a = i) (attempts e)
     \<and> filter (\<lambda>r. r_job_id r = i) (results d) = filter (\<lambda>r. r_job_id r = i) (results e)"

definition append_events :: "event_row list \<Rightarrow> database \<Rightarrow> database" where
  "append_events es d = fold (\<lambda>e. log_event (e_created_at e) (e_job_id e) (e_state e)) es d"

text \<open>
  The commit of \<^verbatim>\<open>with sessions.begin() as db\<close>: the transaction started from \<open>s0\<close> and ended in
  \<open>s\<close>; its updated rows replace those of \<open>d\<close>, its inserted rows are added to \<open>d\<close> (events take
  their ids from the sequence).
\<close>

definition publish :: "uuid \<Rightarrow> database \<Rightarrow> database \<Rightarrow> database \<Rightarrow> database" where
  "publish i s0 s d =
     append_events (drop (length (events s0)) (events s))
       (d\<lparr>jobs := map (\<lambda>j. if j_id j = i
                           then (case job_by_id i s of None \<Rightarrow> j | Some r \<Rightarrow> r) else j) (jobs d),
          attempts := map (\<lambda>a. if a_job_id a = i
                           then (case attempt_by_id (a_id a) s of None \<Rightarrow> a | Some b \<Rightarrow> b) else a)
                         (attempts d),
          results := results d @ drop (length (results s0)) (results s)\<rparr>)"

lemma append_events_frame [row_simps]:
  "jobs (append_events es d) = jobs d" "attempts (append_events es d) = attempts d"
  "results (append_events es d) = results d" "workers (append_events es d) = workers d"
  "system_events (append_events es d) = system_events d"
  by (induction es arbitrary: d) (simp_all add: append_events_def log_event_def)

lemma log_event_swap:
  "(log_event t i st d)\<lparr>jobs := js\<rparr> = log_event t i st (d\<lparr>jobs := js\<rparr>)"
  "(log_event t i st d)\<lparr>attempts := as\<rparr> = log_event t i st (d\<lparr>attempts := as\<rparr>)"
  "(log_event t i st d)\<lparr>results := rs\<rparr> = log_event t i st (d\<lparr>results := rs\<rparr>)"
  by (cases d; simp add: log_event_def)+

lemma append_events_swap:
  "(append_events es d)\<lparr>jobs := js\<rparr> = append_events es (d\<lparr>jobs := js\<rparr>)"
  "(append_events es d)\<lparr>attempts := as\<rparr> = append_events es (d\<lparr>attempts := as\<rparr>)"
  "(append_events es d)\<lparr>results := rs\<rparr> = append_events es (d\<lparr>results := rs\<rparr>)"
  by (induction es arbitrary: d) (simp_all add: append_events_def log_event_swap)

lemma append_events_snoc:
  "append_events (es @ [\<lparr>e_id = n, e_job_id = i, e_state = st, e_created_at = t\<rparr>]) d
     = log_event t i st (append_events es d)"
  by (simp add: append_events_def)

lemma append_events_Nil [simp]: "append_events [] d = d"
  by (simp add: append_events_def)

lemma publish_rows [row_simps]:
  "jobs (publish i s0 s d) = map (\<lambda>j. if j_id j = i
      then (case job_by_id i s of None \<Rightarrow> j | Some r \<Rightarrow> r) else j) (jobs d)"
  "attempts (publish i s0 s d) = map (\<lambda>a. if a_job_id a = i
      then (case attempt_by_id (a_id a) s of None \<Rightarrow> a | Some b \<Rightarrow> b) else a) (attempts d)"
  "results (publish i s0 s d) = results d @ drop (length (results s0)) (results s)"
  "workers (publish i s0 s d) = workers d" "system_events (publish i s0 s d) = system_events d"
  by (simp_all add: publish_def row_simps)

lemma publish_events:
  "events (publish i s0 s d) = events (append_events (drop (length (events s0)) (events s)) d)"
  by (simp add: publish_def append_events_swap [symmetric])

section \<open>A transaction in step with its replay at the commit\<close>

text \<open>
  \<open>s0\<close> is what the transaction read under the locks on job \<open>i\<close> and the workers \<open>V\<close>, \<open>d0\<close> the
  tables at its commit.
\<close>

definition based :: "uuid \<Rightarrow> string set \<Rightarrow> database \<Rightarrow> database \<Rightarrow> bool" where
  "based i V s0 d0 \<longleftrightarrow> same_rows i s0 d0 \<and> keys_ok s0 \<and> keys_ok d0
     \<and> (\<forall>v \<in> V. worker_by_id v s0 = worker_by_id v d0)"

definition own_tokens :: "uuid \<Rightarrow> database \<Rightarrow> uuid set" where
  "own_tokens i d = a_id ` {a \<in> set (attempts d). a_job_id a = i}"

definition tracks :: "uuid \<Rightarrow> database \<Rightarrow> database \<Rightarrow> database \<Rightarrow> database \<Rightarrow> bool" where
  "tracks i s0 d0 s d \<longleftrightarrow> d = publish i s0 s d0
     \<and> prefix (events s0) (events s) \<and> prefix (results s0) (results s) \<and> workers s = workers s0
     \<and> (\<forall>r \<in> set (drop (length (results s0)) (results s)). r_job_id r = i)
     \<and> map j_id (jobs s) = map j_id (jobs s0)
     \<and> map (\<lambda>a. (a_id a, a_job_id a)) (attempts s) = map (\<lambda>a. (a_id a, a_job_id a)) (attempts s0)"

definition local_tx :: "uuid \<Rightarrow> database \<Rightarrow> database \<Rightarrow> 'a dbtx \<Rightarrow> bool" where
  "local_tx i s0 d0 m \<longleftrightarrow> (\<forall>w d. tracks i s0 d0 (db w) d \<longrightarrow>
     (case m w of
        Inl e \<Rightarrow> m (w\<lparr>db := d\<rparr>) = Inl e
      | Inr (x, w1) \<Rightarrow> \<exists>d1. m (w\<lparr>db := d\<rparr>) = Inr (x, w1\<lparr>db := d1\<rparr>) \<and> tracks i s0 d0 (db w1) d1))"

lemma local_txI:
  assumes "\<And>w d e. tracks i s0 d0 (db w) d \<Longrightarrow> m w = Inl e \<Longrightarrow> m (w\<lparr>db := d\<rparr>) = Inl e"
    and "\<And>w d x w1. tracks i s0 d0 (db w) d \<Longrightarrow> m w = Inr (x, w1)
      \<Longrightarrow> \<exists>d1. m (w\<lparr>db := d\<rparr>) = Inr (x, w1\<lparr>db := d1\<rparr>) \<and> tracks i s0 d0 (db w1) d1"
  shows "local_tx i s0 d0 m"
  unfolding local_tx_def using assms by (fastforce split: sum.splits)

lemma local_tx_raises:
  "local_tx i s0 d0 m \<Longrightarrow> tracks i s0 d0 (db w) d \<Longrightarrow> m w = Inl e \<Longrightarrow> m (w\<lparr>db := d\<rparr>) = Inl e"
  unfolding local_tx_def by (fastforce split: sum.splits)

lemma local_tx_returns:
  assumes "local_tx i s0 d0 m" and "tracks i s0 d0 (db w) d" and "m w = Inr (x, w1)"
  obtains d1 where "m (w\<lparr>db := d\<rparr>) = Inr (x, w1\<lparr>db := d1\<rparr>)" and "tracks i s0 d0 (db w1) d1"
  using assms unfolding local_tx_def by (fastforce split: sum.splits)

lemma local_bind:
  assumes m: "local_tx i s0 d0 m"
    and f: "\<And>w d x w1. tracks i s0 d0 (db w) d \<Longrightarrow> m w = Inr (x, w1) \<Longrightarrow> local_tx i s0 d0 (f x)"
  shows "local_tx i s0 d0 (tx_bind m f)"
proof (rule local_txI)
  fix w d e
  assume t: "tracks i s0 d0 (db w) d" and "tx_bind m f w = Inl e"
  then consider "m w = Inl e" | x w1 where "m w = Inr (x, w1)" "f x w1 = Inl e"
    by (auto simp: tx_bind_Inl)
  then show "tx_bind m f (w\<lparr>db := d\<rparr>) = Inl e"
  proof cases
    case 1
    from local_tx_raises [OF m t 1] show ?thesis by (rule tx_bind_raises)
  next
    case 2
    obtain d1 where "m (w\<lparr>db := d\<rparr>) = Inr (x, w1\<lparr>db := d1\<rparr>)" and "tracks i s0 d0 (db w1) d1"
      by (rule local_tx_returns [OF m t 2(1)])
    with local_tx_raises [OF f [OF t 2(1)] _ 2(2)] show ?thesis by (simp add: tx_bind_returns)
  qed
next
  fix w d x w1
  assume t: "tracks i s0 d0 (db w) d" and "tx_bind m f w = Inr (x, w1)"
  then obtain y v where y: "m w = Inr (y, v)" and x: "f y v = Inr (x, w1)"
    by (auto simp: tx_bind_Inr)
  obtain d1 where d1: "m (w\<lparr>db := d\<rparr>) = Inr (y, v\<lparr>db := d1\<rparr>)" and t1: "tracks i s0 d0 (db v) d1"
    by (rule local_tx_returns [OF m t y])
  obtain d2 where "f y (v\<lparr>db := d1\<rparr>) = Inr (x, w1\<lparr>db := d2\<rparr>)" and "tracks i s0 d0 (db w1) d2"
    by (rule local_tx_returns [OF f [OF t y] t1 x])
  with d1 show "\<exists>d1. tx_bind m f (w\<lparr>db := d\<rparr>) = Inr (x, w1\<lparr>db := d1\<rparr>) \<and> tracks i s0 d0 (db w1) d1"
    by (auto simp: tx_bind_returns)
qed

lemma local_return: "local_tx i s0 d0 (tx_return x)"
  by (auto simp: local_tx_def tx_return_def)

lemma local_raise: "local_tx i s0 d0 (tx_raise e)"
  by (auto simp: local_tx_def tx_raise_def)

lemma local_get:
  assumes "\<And>w d. tracks i s0 d0 (db w) d \<Longrightarrow> f (w\<lparr>db := d\<rparr>) = f w"
  shows "local_tx i s0 d0 (tx_get f)"
  using assms by (auto simp: local_tx_def tx_get_def)

lemma world_swap:
  "w\<lparr>db := d, clk := c\<rparr> = w\<lparr>clk := c, db := d\<rparr>"
  "w\<lparr>db := d, randoms := r\<rparr> = w\<lparr>randoms := r, db := d\<rparr>"
  by (cases w; simp)+

lemma local_clock: "local_tx i s0 d0 database_time"
  by (auto simp: local_tx_def database_time_def next_clock_def tick_def world_swap)

lemma local_random: "local_tx i s0 d0 next_random"
  by (auto simp: local_tx_def next_random_def world_swap)

section \<open>What the transaction reads\<close>

lemma same_rows_refl [simp]: "same_rows i d d"
  by (simp add: same_rows_def)

lemma tracks_start:
  assumes "based i V s0 d0"
  shows "tracks i s0 d0 s0 d0"
proof -
  have keys: "distinct (map j_id (jobs d0))" "distinct (map a_id (attempts s0))"
    using assms by (simp_all add: based_def keys_ok_def)
  have same: "job_by_id i s0 = job_by_id i d0"
    "filter (\<lambda>a. a_job_id a = i) (attempts s0) = filter (\<lambda>a. a_job_id a = i) (attempts d0)"
    using assms by (simp_all add: based_def same_rows_def)
  have "(case job_by_id i s0 of None \<Rightarrow> j | Some r \<Rightarrow> r) = j" if "j \<in> set (jobs d0)" "j_id j = i" for j
    using job_table.lookup_unique [OF keys(1) that(1)] that same(1) by (simp add: job_by_id_def)
  moreover have "(case attempt_by_id (a_id a) s0 of None \<Rightarrow> a | Some b \<Rightarrow> b) = a"
    if "a \<in> set (attempts d0)" "a_job_id a = i" for a
  proof -
    have "a \<in> set (filter (\<lambda>a. a_job_id a = i) (attempts s0))"
      unfolding same(2) using that by simp
    then show ?thesis
      using attempt_table.lookup_unique [OF keys(2)] by (simp add: attempt_by_id_def)
  qed
  ultimately have "publish i s0 s0 d0 = d0"
    unfolding publish_def by (simp add: map_idI cong: map_cong)
  then show ?thesis by (simp add: tracks_def)
qed

lemma find_row_map:
  assumes "\<And>r. r \<in> set rs \<Longrightarrow> key (f r) = key r"
  shows "find_row key k (map f rs) = map_option f (find_row key k rs)"
  using assms by (induction rs) (simp_all add: find_row_def)

lemma find_row_set_row:
  assumes "\<And>r. key (f r) = key r"
  shows "find_row key k (set_row key m f rs)
    = map_option (\<lambda>r. if key r = m then f r else r) (find_row key k rs)"
  unfolding set_row_def by (rule find_row_map) (simp add: assms)

lemma tracked_job:
  assumes b: "based i V s0 d0" and t: "tracks i s0 d0 s d"
  shows "job_by_id i d = job_by_id i s"
proof -
  let ?f = "\<lambda>j. if j_id j = i then (case job_by_id i s of None \<Rightarrow> j | Some r \<Rightarrow> r) else j"
  have "j_id (?f j) = j_id j" for j by (auto dest: job_by_id_Some split: option.splits)
  then have "find_row j_id i (map ?f (jobs d0)) = map_option ?f (find_row j_id i (jobs d0))"
    by (rule find_row_map)
  moreover have "d = publish i s0 s d0" using t by (simp add: tracks_def)
  ultimately have "job_by_id i d = map_option ?f (job_by_id i d0)"
    by (simp add: job_by_id_def [of i "publish i s0 s d0"] job_by_id_def [of i d0] row_simps)
  moreover have "job_by_id i d0 = None \<longleftrightarrow> job_by_id i s = None"
  proof -
    have "job_by_id i s = None \<longleftrightarrow> i \<notin> set (map j_id (jobs s))"
      by (simp add: job_by_id_def job_table.lookup_None_iff)
    also have "\<dots> \<longleftrightarrow> job_by_id i s0 = None"
      using t by (simp add: tracks_def job_by_id_def job_table.lookup_None_iff)
    finally show ?thesis using b by (simp add: based_def same_rows_def)
  qed
  ultimately show ?thesis
    by (cases "job_by_id i d0"; cases "job_by_id i s") (auto dest: job_by_id_Some)
qed

text \<open>The attempts of the job are found in both; a token of another job in neither.\<close>

lemma tracked_tokens:
  assumes t: "tracks i s0 d0 s d"
  shows "a_id ` set (attempts s) = a_id ` set (attempts s0)" and "own_tokens i s = own_tokens i s0"
    and "keys_ok s0 \<Longrightarrow> distinct (map a_id (attempts s))"
proof -
  let ?k = "\<lambda>a. (a_id a, a_job_id a)"
  have eq: "map ?k (attempts s) = map ?k (attempts s0)" using t by (simp add: tracks_def)
  have ids: "map a_id (attempts s) = map a_id (attempts s0)"
    using arg_cong [OF eq, of "map fst"] by (simp add: comp_def)
  show "a_id ` set (attempts s) = a_id ` set (attempts s0)" using ids by (metis set_map)
  show "keys_ok s0 \<Longrightarrow> distinct (map a_id (attempts s))" using ids by (simp add: keys_ok_def)
  have own: "own_tokens i e = fst ` {p \<in> set (map ?k (attempts e)). snd p = i}" for e
    by (force simp: own_tokens_def)
  show "own_tokens i s = own_tokens i s0" by (simp only: own eq)
qed

definition own_attempt :: "uuid \<Rightarrow> uuid \<Rightarrow> database \<Rightarrow> attempt_row option" where
  "own_attempt i tok d =
     (case attempt_by_id tok d of Some a \<Rightarrow> if a_job_id a = i then Some a else None | None \<Rightarrow> None)"

lemma own_attempt_None:
  assumes "distinct (map a_id (attempts d))"
  shows "own_attempt i tok d = None \<longleftrightarrow> tok \<notin> own_tokens i d"
proof (cases "attempt_by_id tok d")
  case None
  then have "tok \<notin> a_id ` set (attempts d)"
    unfolding attempt_by_id_def by (rule attempt_table.lookup_None)
  with None show ?thesis by (auto simp: own_attempt_def own_tokens_def)
next
  case (Some a)
  have "b = a" if "b \<in> set (attempts d)" "a_id b = tok" for b
    using attempt_table.lookup_unique [OF assms that(1)] that Some by (simp add: attempt_by_id_def)
  with Some attempt_by_id_Some [OF Some] show ?thesis by (auto simp: own_attempt_def own_tokens_def)
qed

lemma own_attempt_Some:
  "own_attempt i tok d = Some a \<longleftrightarrow> attempt_by_id tok d = Some a \<and> a_job_id a = i"
  by (auto simp: own_attempt_def split: option.splits if_splits)

lemma based_tokens:
  assumes "based i V s0 d0"
  shows "own_tokens i d0 = own_tokens i s0"
proof -
  have own: "own_tokens i e = a_id ` set (filter (\<lambda>a. a_job_id a = i) (attempts e))" for e
    by (simp add: own_tokens_def)
  show ?thesis using assms unfolding own based_def same_rows_def by metis
qed

text \<open>The row written back for an attempt of the tables at the commit.\<close>

definition latest :: "uuid \<Rightarrow> database \<Rightarrow> attempt_row \<Rightarrow> attempt_row" where
  "latest i s a = (if a_job_id a = i
     then (case attempt_by_id (a_id a) s of None \<Rightarrow> a | Some b \<Rightarrow> b) else a)"

lemma latest_own:
  assumes b: "based i V s0 d0" and t: "tracks i s0 d0 s d"
    and a: "a \<in> set (attempts d0)" "a_job_id a = i"
  shows "attempt_by_id (a_id a) s = Some (latest i s a)" and "a_job_id (latest i s a) = i"
    and "a_id (latest i s a) = a_id a"
proof -
  have "a_id a \<in> own_tokens i d0" using a by (auto simp: own_tokens_def)
  then have "a_id a \<in> own_tokens i s"
    using based_tokens [OF b] tracked_tokens(2) [OF t] by simp
  then obtain x where x: "own_attempt i (a_id a) s = Some x"
    using own_attempt_None [OF tracked_tokens(3) [OF t]] b by (fastforce simp: based_def)
  then have "attempt_by_id (a_id a) s = Some x" "a_job_id x = i" by (simp_all add: own_attempt_Some)
  with a show "attempt_by_id (a_id a) s = Some (latest i s a)" "a_job_id (latest i s a) = i"
    "a_id (latest i s a) = a_id a"
    by (auto simp: latest_def dest: attempt_by_id_Some)
qed

lemma tracked_attempts:
  assumes "tracks i s0 d0 s d"
  shows "attempts d = map (latest i s) (attempts d0)"
  using assms by (simp add: tracks_def row_simps latest_def cong: map_cong)

lemma latest_keys:
  assumes b: "based i V s0 d0" and t: "tracks i s0 d0 s d" and a: "a \<in> set (attempts d0)"
  shows "a_id (latest i s a) = a_id a" and "a_job_id (latest i s a) = a_job_id a"
  using latest_own(2,3) [OF b t a] by (cases "a_job_id a = i"; simp add: latest_def)+

lemma tracked_own:
  assumes b: "based i V s0 d0" and t: "tracks i s0 d0 s d"
  shows "own_attempt i tok d = own_attempt i tok s"
proof -
  have dist: "distinct (map a_id (attempts d0))" "distinct (map a_id (attempts s))"
    using b tracked_tokens(3) [OF t] by (simp_all add: based_def keys_ok_def)
  have find: "attempt_by_id tok d = map_option (latest i s) (attempt_by_id tok d0)"
    unfolding attempt_by_id_def tracked_attempts [OF t]
    by (rule find_row_map) (rule latest_keys(1) [OF b t])
  show ?thesis
  proof (cases "own_attempt i tok d0")
    case None
    then have "own_attempt i tok s = None"
      using own_attempt_None [OF dist(1)] own_attempt_None [OF dist(2)] based_tokens [OF b]
        tracked_tokens(2) [OF t] by simp
    moreover have "own_attempt i tok d = None"
      using None find by (auto simp: own_attempt_def latest_def split: option.splits if_splits)
    ultimately show ?thesis by simp
  next
    case (Some a)
    then have a: "attempt_by_id tok d0 = Some a" "a_job_id a = i" by (simp_all add: own_attempt_Some)
    with attempt_by_id_Some [OF a(1)] latest_own [OF b t, of a] find show ?thesis
      by (simp add: own_attempt_def)
  qed
qed

lemma tracked_result:
  assumes b: "based i V s0 d0" and t: "tracks i s0 d0 s d"
  shows "i \<in> r_job_id ` set (results d) \<longleftrightarrow> i \<in> r_job_id ` set (results s)"
proof -
  obtain rs where rs: "results s = results s0 @ rs" using t by (auto simp: tracks_def prefix_def)
  have "results d = results d0 @ rs" using t rs by (simp add: tracks_def row_simps)
  moreover have "i \<in> r_job_id ` set (results e) \<longleftrightarrow> filter (\<lambda>r. r_job_id r = i) (results e) \<noteq> []" for e
    by (auto simp: filter_empty_conv)
  then have "i \<in> r_job_id ` set (results d0) \<longleftrightarrow> i \<in> r_job_id ` set (results s0)"
    using b unfolding based_def same_rows_def by metis
  ultimately show ?thesis using rs by auto
qed

lemma tracked_known:
  assumes "based i V s0 d0" and "tracks i s0 d0 s d"
  shows "i \<in> j_id ` set (jobs d) \<longleftrightarrow> i \<in> j_id ` set (jobs s)"
  using tracked_job [OF assms] by (metis job_by_id_def job_table.lookup_None_iff)

lemma tracked_worker:
  assumes "based i V s0 d0" and "tracks i s0 d0 s d" and "v \<in> V"
  shows "worker_by_id v d = worker_by_id v s"
  using assms by (simp add: based_def tracks_def worker_by_id_def row_simps)

section \<open>What the transaction writes\<close>

lemma lookup_frame [row_simps]:
  "attempt_by_id k (set_job i f d) = attempt_by_id k d" "job_by_id k (set_attempt m g d) = job_by_id k d"
  "system_events (set_job i f d) = system_events d" "system_events (set_attempt m g d) = system_events d"
  by (simp_all add: attempt_by_id_def job_by_id_def set_job_def set_attempt_def)

lemma tracks_set_job:
  assumes b: "based i V s0 d0" and t: "tracks i s0 d0 s d" and f: "\<And>j. j_id (f j) = j_id j"
  shows "tracks i s0 d0 (set_job i f s) (set_job i f d)"
proof -
  have "map j_id (jobs (set_job i f s)) = map j_id (jobs s)"
    by (simp add: set_job_def set_row_def f cong: map_cong)
  moreover have "set_job i f d = publish i s0 (set_job i f s) d0"
  proof -
    have get: "job_by_id i (set_job i f s) = map_option f (job_by_id i s)"
      using find_row_set_row [of j_id f i i "jobs s", OF f]
      by (cases "find_row j_id i (jobs s)") (auto simp: job_by_id_def set_job_def dest: find_row_Some)
    have known: "job_by_id i s \<noteq> None" if "j \<in> set (jobs d0)" "j_id j = i" for j
    proof -
      have "job_by_id i d0 \<noteq> None"
        using that by (auto simp: job_by_id_def job_table.lookup_None_iff)
      then have "job_by_id i s0 \<noteq> None" using b by (simp add: based_def same_rows_def)
      moreover have "set (map j_id (jobs s)) = set (map j_id (jobs s0))"
        using t unfolding tracks_def by presburger
      ultimately show ?thesis by (simp add: job_by_id_def job_table.lookup_None_iff)
    qed
    have "set_row j_id i f (map (\<lambda>j. if j_id j = i
          then (case job_by_id i s of None \<Rightarrow> j | Some r \<Rightarrow> r) else j) (jobs d0))
      = map (\<lambda>j. if j_id j = i
          then (case map_option f (job_by_id i s) of None \<Rightarrow> j | Some r \<Rightarrow> r) else j) (jobs d0)"
    proof (cases "job_by_id i s")
      case None
      with known have "j_id j \<noteq> i" if "j \<in> set (jobs d0)" for j using that by blast
      then show ?thesis by (auto simp: set_row_def)
    next
      case (Some r)
      then show ?thesis by (auto simp: set_row_def f dest: job_by_id_Some)
    qed
    then have "jobs (set_job i f d) = jobs (publish i s0 (set_job i f s) d0)"
      using t by (simp add: tracks_def row_simps get cong: if_cong)
    then show ?thesis using t
      by (intro database.equality) (simp_all add: tracks_def row_simps publish_events cong: if_cong)
  qed
  ultimately show ?thesis using t by (simp add: tracks_def row_simps)
qed

lemma tracks_set_attempt:
  assumes b: "based i V s0 d0" and t: "tracks i s0 d0 s d" and k: "k \<in> own_tokens i s0"
    and f: "\<And>a. a_id (f a) = a_id a" "\<And>a. a_job_id (f a) = a_job_id a"
  shows "tracks i s0 d0 (set_attempt k f s) (set_attempt k f d)"
proof -
  let ?s = "set_attempt k f s"
  have keys: "map (\<lambda>a. (a_id a, a_job_id a)) (attempts ?s) = map (\<lambda>a. (a_id a, a_job_id a)) (attempts s)"
    by (simp add: set_attempt_def set_row_def f cong: map_cong)
  have get: "attempt_by_id m ?s = map_option (\<lambda>a. if a_id a = k then f a else a) (attempt_by_id m s)" for m
    using find_row_set_row [of a_id f m k "attempts s", OF f(1)]
    by (simp add: attempt_by_id_def set_attempt_def)
  have other: "a_id a \<noteq> k" if "a \<in> set (attempts d0)" "a_job_id a \<noteq> i" for a
  proof
    assume "a_id a = k"
    moreover from k have "k \<in> own_tokens i d0" by (simp add: based_tokens [OF b])
    then obtain c where "c \<in> set (attempts d0)" "a_job_id c = i" "a_id c = k"
      by (auto simp: own_tokens_def)
    moreover have "distinct (map a_id (attempts d0))" using b by (simp add: based_def keys_ok_def)
    ultimately show False using that by (auto simp: distinct_map dest: inj_onD)
  qed
  have "attempts (set_attempt k f d) = map (latest i ?s) (attempts d0)"
  proof -
    have "(if a_id (latest i s a) = k then f (latest i s a) else latest i s a) = latest i ?s a"
      if "a \<in> set (attempts d0)" for a
    proof (cases "a_job_id a = i")
      case True
      with latest_own [OF b t that True] show ?thesis by (auto simp: latest_def get split: option.splits)
    next
      case False
      with other [OF that] show ?thesis by (simp add: latest_def)
    qed
    then show ?thesis
      by (simp add: set_attempt_def tracked_attempts [OF t] set_row_def)
  qed
  then have "attempts (set_attempt k f d) = attempts (publish i s0 ?s d0)"
    by (simp add: row_simps latest_def [abs_def])
  then have "set_attempt k f d = publish i s0 ?s d0"
    using t by (intro database.equality) (simp_all add: tracks_def row_simps publish_events cong: if_cong)
  with keys t show ?thesis by (simp add: tracks_def row_simps)
qed

lemma tracks_log_event:
  assumes t: "tracks i s0 d0 s d"
  shows "tracks i s0 d0 (log_event tn k st s) (log_event tn k st d)"
proof -
  let ?e = "\<lparr>e_id = int (length (events s)) + 1, e_job_id = k, e_state = st, e_created_at = tn\<rparr>"
  obtain es where es: "events s = events s0 @ es" using t by (auto simp: tracks_def prefix_def)
  have "publish i s0 (log_event tn k st s) d0 = log_event tn k st (publish i s0 s d0)"
    using es by (simp add: publish_def log_event_def [of tn k st s] append_events_snoc
        job_by_id_def attempt_by_id_def cong: if_cong)
  with t es show ?thesis by (simp add: tracks_def row_simps log_event_def)
qed

lemma tracks_with_result:
  assumes t: "tracks i s0 d0 s d" and r: "r_job_id r = i"
  shows "tracks i s0 d0 (s\<lparr>results := results s @ [r]\<rparr>) (d\<lparr>results := results d @ [r]\<rparr>)"
proof -
  obtain rs where rs: "results s = results s0 @ rs" using t by (auto simp: tracks_def prefix_def)
  have "publish i s0 (s\<lparr>results := results s @ [r]\<rparr>) d0
      = (publish i s0 s d0)\<lparr>results := results (publish i s0 s d0) @ [r]\<rparr>"
    using rs by (simp add: publish_def append_events_swap row_simps job_by_id_def attempt_by_id_def
        cong: if_cong)
  with t rs r show ?thesis by (simp add: tracks_def)
qed

lemma local_update_job:
  assumes "based i V s0 d0" and "\<And>j. j_id (f j) = j_id j"
  shows "local_tx i s0 d0 (update_job i f)"
  using tracks_set_job [OF assms(1) _ assms(2)] by (auto simp: local_tx_def update_job_def tx_modify_def)

lemma local_update_attempt:
  assumes "based i V s0 d0" and "k \<in> own_tokens i s0"
    and "\<And>a. a_id (f a) = a_id a" and "\<And>a. a_job_id (f a) = a_job_id a"
  shows "local_tx i s0 d0 (update_attempt k f)"
  using tracks_set_attempt [OF assms(1) _ assms(2-4)]
  by (auto simp: local_tx_def update_attempt_def tx_modify_def)

lemma local_add_event:
  assumes "based i V s0 d0"
  shows "local_tx i s0 d0 (add_event i st)"
  using tracked_known [OF assms] tracks_log_event by (auto simp: local_tx_def add_event_def)

lemma local_insert_result:
  assumes "based i V s0 d0" and "r_job_id r = i"
  shows "local_tx i s0 d0 (insert_result r)"
  using tracked_known [OF assms(1)] tracked_result [OF assms(1)] tracks_with_result assms(2)
  by (auto simp: local_tx_def insert_result_def Let_def simp del: image_iff)

section \<open>The operations on an assignment are local\<close>

lemma local_get_job:
  assumes "based i V s0 d0"
  shows "local_tx i s0 d0 (get_job i)"
  using tracked_job [OF assms] by (auto simp: local_tx_def get_job_def tx_eval split: option.splits)

lemma local_transition:
  assumes "based i V s0 d0" and "j_id job = i"
  shows "local_tx i s0 d0 (transition job st)"
  unfolding transition_def using assms
  by (auto intro!: local_bind local_raise local_clock local_update_job local_add_event)

lemma local_owned:
  assumes b: "based i V s0 d0"
  shows "local_tx i s0 d0 (owned i wid tok fin)"
proof -
  have split: "owned i wid tok fin =
     tx_bind (get_job i) (\<lambda>job.
     tx_bind (tx_get (\<lambda>w. own_attempt i tok (db w))) (\<lambda>found.
     case found of
        None \<Rightarrow> tx_raise (Conflict ''Assignment does not belong to this worker'')
      | Some attempt \<Rightarrow>
     if a_worker_id attempt \<noteq> wid
     then tx_raise (Conflict ''Assignment does not belong to this worker'')
     else if fin \<and> a_finished_at attempt \<noteq> None then tx_return (job, attempt)
     else if a_finished_at attempt \<noteq> None \<or> a_fence attempt \<noteq> j_attempt_count job
     then tx_raise (Conflict ''Expired or fenced assignment'')
     else tx_bind database_time (\<lambda>t.
       if a_expires_at attempt \<le> t then tx_raise (Conflict ''Expired or fenced assignment'')
       else tx_return (job, attempt))))"
    unfolding owned_def by (rule ext) (auto simp: tx_eval own_attempt_def split: option.splits sum.splits)
  show ?thesis
    unfolding split using tracked_own [OF b]
    by (auto intro!: local_bind local_get_job [OF b] local_get local_raise local_return local_clock
        split: option.splits)
qed

lemma owned_token:
  assumes "based i V s0 d0" and "tracks i s0 d0 (db w) d"
    and "owned i wid tok fin w = Inr ((job, att), w')"
  shows "j_id job = i" and "a_id att \<in> own_tokens i s0"
proof -
  show "j_id job = i" using owned_rows [OF assms(3)] by simp
  have "a_id att \<in> own_tokens i (db w)" using owned_rows [OF assms(3)] by (auto simp: own_tokens_def)
  then show "a_id att \<in> own_tokens i s0" by (simp add: tracked_tokens(2) [OF assms(2)])
qed

lemmas local_intros = local_bind local_raise local_return local_clock local_random
lemmas local_writes = local_transition local_update_job local_update_attempt local_insert_result
  local_get_job local_owned

lemma local_start:
  assumes "based i V s0 d0"
  shows "local_tx i s0 d0 (start i wid tok)"
  unfolding start_def using owned_token [OF assms]
  by (auto intro!: local_intros local_writes [OF assms])

lemma local_renew:
  assumes "based i V s0 d0"
  shows "local_tx i s0 d0 (renew i wid tok lease)"
  unfolding renew_def using owned_token [OF assms]
  by (auto intro!: local_intros local_writes [OF assms] simp: Let_def split: option.splits)

lemma local_fail_attempt:
  assumes "based i V s0 d0" and "j_id job = i" and "a_id att \<in> own_tokens i s0"
  shows "local_tx i s0 d0 (fail_attempt job att err retryable out)"
proof -
  have b: "based (j_id job) V s0 d0" using assms by simp
  show ?thesis
    unfolding fail_attempt_def jitter_factor_def assms(2) [symmetric]
    using assms(2,3) by (auto intro!: local_intros local_writes [OF b])
qed

lemma local_finish:
  assumes "based i V s0 d0"
  shows "local_tx i s0 d0 (finish i wid tok output err retryable)"
  unfolding finish_def using owned_token [OF assms]
  by (auto intro!: local_intros local_fail_attempt [OF assms] local_writes [OF assms]
      split: option.splits)

lemma local_cancel:
  assumes "based i V s0 d0"
  shows "local_tx i s0 d0 (cancel i)"
  unfolding cancel_def
  using job_by_id_Some by (fastforce intro!: local_intros local_writes [OF assms] simp: get_job_iff)

lemma local_identity:
  assumes "based i V s0 d0" and "v \<in> V"
  shows "local_tx i s0 d0 (identity env v cred)"
  unfolding identity_def using tracked_worker [OF assms(1) _ assms(2)]
  by (auto intro!: local_get local_intros simp: Let_def split: option.splits)

lemma local_authorize: "local_tx i s0 d0 (authorize expected value)"
  unfolding authorize_def by (auto intro!: local_intros simp: Let_def split: option.splits)

text \<open>The routes that change an assignment or cancel a job.\<close>

lemma local_effect: "local_tx i s0 d0 m \<Longrightarrow> local_tx i s0 d0 (effect m)"
  unfolding effect_def by (auto intro!: local_intros)

lemma local_routes:
  assumes b: "based i V s0 d0"
  shows "local_tx i s0 d0 (cancel_route c auth i)"
    and "as_worker_id body \<in> V \<Longrightarrow> local_tx i s0 d0 (start_route env c auth i body cred)"
    and "as_worker_id body \<in> V \<Longrightarrow> local_tx i s0 d0 (renew_route env c auth i body cred)"
    and "as_worker_id compl \<in> V \<Longrightarrow> local_tx i s0 d0 (finish_route env c auth i compl cred)"
  unfolding cancel_route_def start_route_def renew_route_def finish_route_def client_def worker_def
  by (auto intro!: local_intros local_authorize local_identity [OF b] local_start [OF b]
      local_renew [OF b] local_finish [OF b] local_cancel [OF b])

text \<open>The rows of the other jobs stay as they are.\<close>

lemma tracks_others:
  assumes b: "based i V s0 d0" and t: "tracks i s0 d0 s d" and k: "k \<noteq> i"
  shows "same_rows k d0 d"
proof -
  have d: "d = publish i s0 s d0" using t by (simp add: tracks_def)
  let ?f = "\<lambda>j. if j_id j = i then (case job_by_id i s of None \<Rightarrow> j | Some r \<Rightarrow> r) else j"
  have "j_id (?f j) = j_id j" for j by (auto dest: job_by_id_Some split: option.splits)
  then have "find_row j_id k (map ?f (jobs d0)) = map_option ?f (find_row j_id k (jobs d0))"
    by (rule find_row_map)
  then have "job_by_id k d = job_by_id k d0"
    unfolding d job_by_id_def [of k] publish_rows using k
    by (cases "find_row j_id k (jobs d0)") (auto dest: find_row_Some)
  moreover have "filter (\<lambda>a. a_job_id a = k) (map (latest i s) as) = filter (\<lambda>a. a_job_id a = k) as"
    if "set as \<subseteq> set (attempts d0)" for as
    using that k latest_keys(2) [OF b t]
    by (induction as) (auto simp: latest_def)
  moreover have "filter (\<lambda>r. r_job_id r = k) (results d) = filter (\<lambda>r. r_job_id r = k) (results d0)"
    using t k by (auto simp: tracks_def row_simps)
  ultimately show ?thesis by (simp add: same_rows_def tracked_attempts [OF t])
qed

text \<open>
  A transaction that is local replays at the commit: the answer it computed from what it read is
  the answer on the committed tables, and writing its rows back gives the tables it would have
  left there.
\<close>

lemma local_replay:
  assumes b: "based i V s0 d0" and m: "local_tx i s0 d0 m"
    and run: "run_tx m (w\<lparr>db := s0\<rparr>) = (res, w1)"
  shows "\<exists>w2. run_tx m (w\<lparr>db := d0\<rparr>) = (res, w2)
    \<and> db w2 = (case res of Inl e \<Rightarrow> d0 | Inr x \<Rightarrow> publish i s0 (db w1) d0)
    \<and> (\<forall>k. k \<noteq> i \<longrightarrow> same_rows k d0 (db w2)) \<and> workers (db w2) = workers d0"
proof -
  have t: "tracks i s0 d0 (db (w\<lparr>db := s0\<rparr>)) d0" using tracks_start [OF b] by simp
  show ?thesis
  proof (cases "m (w\<lparr>db := s0\<rparr>)")
    case (Inl e)
    with local_tx_raises [OF m t Inl] run show ?thesis by (auto simp: run_tx_def)
  next
    case (Inr p)
    obtain x v where p: "m (w\<lparr>db := s0\<rparr>) = Inr (x, v)" using Inr by (cases p) auto
    obtain d1 where "m ((w\<lparr>db := s0\<rparr>)\<lparr>db := d0\<rparr>) = Inr (x, v\<lparr>db := d1\<rparr>)"
      and "tracks i s0 d0 (db v) d1"
      by (rule local_tx_returns [OF m t p])
    with p run tracks_others [OF b] show ?thesis
      by (auto simp: run_tx_def tracks_def publish_rows)
  qed
qed

end
