(* ===== verification/Skipping.thy ===== *)
theory Skipping
  imports Snapshots Fleet
begin

text \<open>
  Transactions that leave locked rows alone: claims (\<^verbatim>\<open>greyqueue/service.py\<close>) and the sweeps of
  \<^verbatim>\<open>greyqueue/recovery.py\<close> query with \<^verbatim>\<open>skip_locked=True\<close>, an admission inserts a row of its own, and
  the worker routes change the one worker row they lock. None of them changes what the holder of
  another row's lock has read.
\<close>

section \<open>Transactions that skip locked rows\<close>

text \<open>What the holders of the locks on jobs \<open>J\<close> and workers \<open>V\<close> see of a change.\<close>

definition spared :: "uuid set \<Rightarrow> string set \<Rightarrow> database \<Rightarrow> database \<Rightarrow> bool" where
  "spared J V d d' \<longleftrightarrow> (\<forall>i \<in> J. same_rows i d d') \<and> (\<forall>v \<in> V. worker_by_id v d = worker_by_id v d')"

text \<open>The locked rows exist, and the transaction is told which rows are locked.\<close>

definition guarded :: "uuid set \<Rightarrow> string set \<Rightarrow> world \<Rightarrow> bool" where
  "guarded J V w \<longleftrightarrow> db_inv (db w) \<and> scan_ok w
     \<and> J \<subseteq> set (locked_jobs w) \<and> J \<subseteq> j_id ` set (jobs (db w))
     \<and> V \<subseteq> set (locked_workers w) \<and> V \<subseteq> w_id ` set (workers (db w))"

definition spares :: "uuid set \<Rightarrow> string set \<Rightarrow> 'a dbtx \<Rightarrow> bool" where
  "spares J V m \<longleftrightarrow> (\<forall>w x w'. guarded J V w \<longrightarrow> m w = Inr (x, w') \<longrightarrow>
     spared J V (db w) (db w') \<and> row_scan w' = row_scan w \<and> worker_scan w' = worker_scan w
     \<and> locked_jobs w' = locked_jobs w \<and> locked_workers w' = locked_workers w)"

lemma spared_refl [simp]: "spared J V d d"
  by (simp add: spared_def)

lemma spared_trans: "spared J V d e \<Longrightarrow> spared J V e f \<Longrightarrow> spared J V d f"
  by (auto simp: spared_def same_rows_def)

lemma sparesI:
  assumes "\<And>w x w'. guarded J V w \<Longrightarrow> m w = Inr (x, w') \<Longrightarrow> spared J V (db w) (db w')
     \<and> row_scan w' = row_scan w \<and> worker_scan w' = worker_scan w
     \<and> locked_jobs w' = locked_jobs w \<and> locked_workers w' = locked_workers w"
  shows "spares J V m"
  using assms by (simp add: spares_def)

lemma sparesD:
  assumes "spares J V m" and "guarded J V w" and "m w = Inr (x, w')"
  shows "spared J V (db w) (db w')" and "row_scan w' = row_scan w" and "worker_scan w' = worker_scan w"
    and "locked_jobs w' = locked_jobs w" and "locked_workers w' = locked_workers w"
  using assms unfolding spares_def by blast+

lemma guarded_next:
  assumes m: "spares J V m" "refines m" and g: "guarded J V w" and run: "m w = Inr (x, w')"
  shows "guarded J V w'"
proof -
  note s = sparesD [OF m(1) g run]
  have inv: "db_inv (db w')" using refines_run(2) [OF m(2) _ run] g by (simp add: guarded_def)
  have "i \<in> j_id ` set (jobs (db w'))" if "i \<in> J" for i
  proof -
    have "i \<in> j_id ` set (jobs (db w))" using g that by (auto simp: guarded_def)
    moreover have "job_by_id i (db w) = job_by_id i (db w')"
      using s(1) that by (simp add: spared_def same_rows_def)
    ultimately show ?thesis by (metis job_by_id_def job_table.lookup_None_iff)
  qed
  moreover have "v \<in> w_id ` set (workers (db w'))" if "v \<in> V" for v
  proof -
    have "v \<in> w_id ` set (workers (db w))" using g that by (auto simp: guarded_def)
    moreover have "worker_by_id v (db w) = worker_by_id v (db w')" using s(1) that by (simp add: spared_def)
    ultimately show ?thesis by (metis worker_by_id_def worker_table.lookup_None_iff)
  qed
  ultimately show ?thesis using g inv s by (auto simp: guarded_def scan_ok_def)
qed

lemma spares_bind:
  assumes m: "spares J V m" "refines m"
    and f: "\<And>w x w'. guarded J V w \<Longrightarrow> m w = Inr (x, w') \<Longrightarrow> spares J V (f x)"
  shows "spares J V (tx_bind m f)"
proof (rule sparesI)
  fix w x w'
  assume g: "guarded J V w" and "tx_bind m f w = Inr (x, w')"
  then obtain y v where y: "m w = Inr (y, v)" and x: "f y v = Inr (x, w')" by (auto simp: tx_bind_Inr)
  note s = sparesD [OF m(1) g y]
  note s' = sparesD [OF f [OF g y] guarded_next [OF m g y] x]
  from s s' show "spared J V (db w) (db w') \<and> row_scan w' = row_scan w \<and> worker_scan w' = worker_scan w
     \<and> locked_jobs w' = locked_jobs w \<and> locked_workers w' = locked_workers w"
    using spared_trans [OF s(1) s'(1)] by simp
qed

lemma spares_for:
  assumes "\<And>x. x \<in> set xs \<Longrightarrow> spares J V (f x)" and "\<And>x. refines (f x)"
  shows "spares J V (tx_for xs f)"
  using assms(1)
proof (induction xs)
  case Nil
  show ?case by (simp add: spares_def tx_return_def)
next
  case (Cons x xs)
  have "spares J V (f x)" "spares J V (tx_for xs f)" using Cons by simp_all
  then show ?case by (simp add: spares_bind [OF _ assms(2)])
qed

lemma spares_same:
  assumes "\<And>w x w'. m w = Inr (x, w') \<Longrightarrow> db w' = db w \<and> row_scan w' = row_scan w
     \<and> worker_scan w' = worker_scan w \<and> locked_jobs w' = locked_jobs w \<and> locked_workers w' = locked_workers w"
  shows "spares J V m"
  using assms by (metis sparesI spared_refl)

lemma spares_pure:
  "spares J V (tx_return x)" "spares J V (tx_raise e)" "spares J V (tx_get g)"
  "spares J V database_time" "spares J V (identity env v cred)" "spares J V (authorize expected value)"
  by (rule spares_same, auto simp: tx_return_def tx_raise_def tx_get_def database_time_iff identity_iff
      authorize_def Let_def split: if_splits option.splits)+

lemma spares_get:
  assumes "\<And>w. guarded J V w \<Longrightarrow> spares J V (f (g w))"
  shows "spares J V (tx_bind (tx_get g) f)"
  by (rule spares_bind [OF spares_pure(3) refines_get]) (auto simp: tx_get_def assms)

section \<open>Changes of rows nobody holds\<close>

lemma same_rows_set_job:
  assumes "k \<noteq> i" and "\<And>j. j_id (f j) = j_id j"
  shows "same_rows i d (set_job k f d)"
proof -
  have "job_by_id i (set_job k f d) = job_by_id i d"
    using find_row_set_row [of j_id f i k "jobs d", OF assms(2)] assms(1)
    by (cases "find_row j_id i (jobs d)") (auto simp: job_by_id_def set_job_def dest: find_row_Some)
  then show ?thesis by (simp add: same_rows_def row_simps)
qed

lemma same_rows_set_attempt:
  assumes "\<And>a. a \<in> set (attempts d) \<Longrightarrow> a_id a = k \<Longrightarrow> a_job_id a \<noteq> i"
    and "\<And>a. a_job_id (f a) = a_job_id a"
  shows "same_rows i d (set_attempt k f d)"
proof -
  have "filter (\<lambda>a. a_job_id a = i) (set_row a_id k f as) = filter (\<lambda>a. a_job_id a = i) as"
    if "set as \<subseteq> set (attempts d)" for as
    using that assms by (induction as) (auto simp: set_row_def)
  then show ?thesis by (simp add: same_rows_def row_simps)
qed

lemma same_rows_log_event: "same_rows i d (log_event t k st d)"
  by (simp add: same_rows_def row_simps job_by_id_def)

lemma same_rows_with_result: "k \<noteq> i \<Longrightarrow> same_rows i d (with_result k out err d)"
  by (simp add: same_rows_def row_simps job_by_id_def with_result_def)

lemma same_rows_workers:
  "same_rows i d (d\<lparr>workers := ws\<rparr>)" "same_rows i d (d\<lparr>system_events := es\<rparr>)"
  "same_rows i d (d\<lparr>workers := ws, system_events := es\<rparr>)"
  by (simp_all add: same_rows_def job_by_id_def)

lemma same_rows_trans: "same_rows i d e \<Longrightarrow> same_rows i e f \<Longrightarrow> same_rows i d f"
  by (simp add: same_rows_def)

lemma same_rows_moved: "k \<noteq> i \<Longrightarrow> same_rows i d (moved tn t k st d)"
  unfolding moved_def
  by (rule same_rows_trans [OF same_rows_set_job same_rows_log_event]) simp_all

lemma spared_jobs:
  assumes "workers d' = workers d" and "\<And>i. i \<in> J \<Longrightarrow> same_rows i d d'"
  shows "spared J V d d'"
  using assms by (simp add: spared_def worker_by_id_def)

lemma find_row_append: "find_row key k rs = Some r \<Longrightarrow> find_row key k (rs @ ys) = Some r"
  by (induction rs) (auto simp: find_row_def split: if_splits)

text \<open>An admission creates a row; it changes none.\<close>

lemma admit_spares: "spares J V (admit env s limit rate)"
proof (rule sparesI)
  fix w x w'
  assume g: "guarded J V w" and run: "admit env s limit rate w = Inr (x, w')"
  obtain job created where x: "x = (job, created)" by (cases x)
  from run consider "w' = w"
    | "insert_job job (tick w) = Inr ((), (tick w)\<lparr>db := (db w)\<lparr>jobs := jobs (db w) @ [job]\<rparr>\<rparr>)"
      "w' = (tick w)\<lparr>uuids := (\<lambda>n. uuids w (Suc n)), db := admitted (tx_now w) job (db w)\<rparr>"
    unfolding x admit_iff by auto
  then show "spared J V (db w) (db w') \<and> row_scan w' = row_scan w \<and> worker_scan w' = worker_scan w
     \<and> locked_jobs w' = locked_jobs w \<and> locked_workers w' = locked_workers w"
  proof cases
    case 2
    have fresh: "j_id job \<notin> j_id ` set (jobs (db w))" using 2(1) by (auto simp: insert_job_iff)
    have "same_rows i (db w) (admitted (tx_now w) job (db w))" if "i \<in> J" for i
    proof -
      have "i \<in> j_id ` set (jobs (db w))" using g that by (auto simp: guarded_def)
      then obtain r where r: "job_by_id i (db w) = Some r"
        by (metis job_by_id_def job_table.lookup_None_iff option.exhaust)
      have "same_rows i (db w) ((db w)\<lparr>jobs := jobs (db w) @ [job]\<rparr>)"
        using r by (simp add: same_rows_def job_by_id_def find_row_append)
      then show ?thesis
        unfolding admitted_def by (blast intro: same_rows_trans same_rows_log_event)
    qed
    then have "spared J V (db w) (admitted (tx_now w) job (db w))"
      by (intro spared_jobs) (simp_all add: row_simps)
    with 2 show ?thesis by (simp add: tick_def)
  qed simp
qed

text \<open>A claim takes the first row of its query that nobody holds.\<close>

lemma lease_job_spares: "spares J V (lease_job record slot cid policy lease)"
proof (rule sparesI)
  fix w x w'
  assume g: "guarded J V w" and run: "lease_job record slot cid policy lease w = Inr (x, w')"
  have env: "row_scan w' = row_scan w \<and> worker_scan w' = worker_scan w
     \<and> locked_jobs w' = locked_jobs w \<and> locked_workers w' = locked_workers w"
    using run by (auto simp: lease_job_def tx_get_bind tx_bind_Inr database_time_iff tx_return_def
        tx_raise_def update_iff next_uuid_iff tx_get_def insert_attempt_iff transition_iff get_job_iff
        Let_def tick_def split: if_splits sum.splits option.splits)
  from run have "spared J V (db w) (db w')"
  proof (cases rule: lease_job_cases)
    case (leased query job0 job att row u c)
    have j: "j_id job \<notin> J"
      using scheduler_choice [OF leased(2,3)] g leased(4) by (auto simp: guarded_def)
    have att: "a_job_id att = j_id job" using leased(5) by (simp add: new_attempt_def)
    have "same_rows i (db w) (db w')" if "i \<in> J" for i
    proof -
      have ne: "j_id job \<noteq> i" using j that by auto
      let ?d = "set_job (j_id job) (\<lambda>j. j\<lparr>j_attempt_count := j_attempt_count job\<rparr>) (db w)"
      have "same_rows i (db w) ?d" using ne by (intro same_rows_set_job) simp_all
      moreover have "same_rows i ?d (?d\<lparr>attempts := attempts (db w) @ [att]\<rparr>)"
        using ne att by (simp add: same_rows_def row_simps job_by_id_def)
      ultimately show ?thesis
        unfolding leased(9) leased_def by (blast intro: same_rows_trans same_rows_moved [OF ne])
    qed
    then show ?thesis
      by (intro spared_jobs) (simp_all add: leased(9) leased_def row_simps)
  qed (use g in \<open>simp_all add: tick_def\<close>)
  with env show "spared J V (db w) (db w') \<and> row_scan w' = row_scan w \<and> worker_scan w' = worker_scan w
     \<and> locked_jobs w' = locked_jobs w \<and> locked_workers w' = locked_workers w" by simp
qed

lemma claim_spares: "spares J V (claim wid slot cid policy lease)"
proof (rule sparesI)
  fix w x w'
  assume g: "guarded J V w" and run: "claim wid slot cid policy lease w = Inr (x, w')"
  from run show "spared J V (db w) (db w') \<and> row_scan w' = row_scan w \<and> worker_scan w' = worker_scan w
     \<and> locked_jobs w' = locked_jobs w \<and> locked_workers w' = locked_workers w"
  proof (cases rule: claim_cases)
    case (fresh v)
    with sparesD [OF lease_job_spares g fresh(6)] show ?thesis by blast
  qed simp
qed

text \<open>The recovery sweep.\<close>

lemma transition_spares: "j_id job \<notin> J \<Longrightarrow> spares J V (transition job st)"
  by (rule sparesI) (auto simp: transition_iff tick_def row_simps intro!: spared_jobs same_rows_moved)

lemma same_rows_closed:
  assumes "keys_ok d" and "att \<in> set (attempts d)" and "a_job_id att \<noteq> i"
  shows "same_rows i d (closed_attempt t out err (a_id att) d)"
proof -
  have "a = att" if "a \<in> set (attempts d)" "a_id a = a_id att" for a
    using assms(1,2) that by (auto simp: keys_ok_def distinct_map dest: inj_onD)
  then show ?thesis
    unfolding closed_attempt_def using assms(3) by (intro same_rows_set_attempt) auto
qed

lemma fail_attempt_spared:
  assumes keys: "keys_ok (db w)" and att: "att \<in> set (attempts (db w))" "a_job_id att = j_id job"
    and job: "j_id job \<in> j_id ` set (jobs (db w))" "j_id job \<notin> J"
    and run: "fail_attempt job att err retryable out w = Inr (u, w')"
  shows "spared J V (db w) (db w') \<and> row_scan w' = row_scan w \<and> worker_scan w' = worker_scan w
     \<and> locked_jobs w' = locked_jobs w \<and> locked_workers w' = locked_workers w"
proof -
  from run consider (again) "w' = (tick (drawn job (tick w)))\<lparr>db := retried job att out err w\<rparr>"
    | (final) st where "w' = (tick (tick w))\<lparr>db := buried st job att out err w\<rparr>"
    unfolding fail_attempt_eval [OF job(1)] by (auto simp: Let_def split: if_splits)
  then show ?thesis
  proof cases
    case again
    have "same_rows i (db w) (retried job att out err w)" if "i \<in> J" for i
    proof -
      have ne: "j_id job \<noteq> i" using job(2) that by auto
      have "same_rows i (db w) (closed_attempt (clk w 0) out err (a_id att) (db w))"
        by (rule same_rows_closed [OF keys att(1)]) (simp add: att ne)
      then show ?thesis
        unfolding retried_def using ne
        by (elim same_rows_trans) (rule same_rows_trans [OF same_rows_set_job same_rows_moved]; simp)
    qed
    then show ?thesis
      using again by (auto intro!: spared_jobs simp: retried_def row_simps tick_def drawn_def)
  next
    case final
    have "same_rows i (db w) (buried st job att out err w)" if "i \<in> J" for i
    proof -
      have ne: "j_id job \<noteq> i" using job(2) that by auto
      have "same_rows i (db w) (closed_attempt (clk w 0) out err (a_id att) (db w))"
        by (rule same_rows_closed [OF keys att(1)]) (simp add: att ne)
      then show ?thesis
        unfolding buried_def using ne
        by (elim same_rows_trans) (rule same_rows_trans [OF same_rows_moved same_rows_with_result])
    qed
    then show ?thesis
      using final by (auto intro!: spared_jobs simp: buried_def row_simps tick_def)
  qed
qed

lemma recover_job_spares:
  assumes "j_id job0 \<notin> J"
  shows "spares J V (recover_job job0)"
proof (rule sparesI)
  fix w x w'
  assume g: "guarded J V w" and run: "recover_job job0 w = Inr (x, w')"
  then have inv: "db_inv (db w)" by (simp add: guarded_def)
  show "spared J V (db w) (db w') \<and> row_scan w' = row_scan w \<and> worker_scan w' = worker_scan w
     \<and> locked_jobs w' = locked_jobs w \<and> locked_workers w' = locked_workers w"
  proof (cases "active_attempt (j_id job0) (db w)")
    case None
    with run show ?thesis by (simp add: recover_job_def tx_eval)
  next
    case (Some a)
    let ?job = "refreshed job0 (db w)"
    show ?thesis
    proof (cases "a_expires_at a \<le> clk w 0")
      case False
      with run Some show ?thesis by (auto simp: recover_job_def tx_eval tick_def)
    next
      case True
      from run Some True obtain v where
        fail: "fail_attempt ?job a ''Lease expired; execution outcome unknown'' True OutLeaseExpired (tick w)
          = Inr ((), v)"
        and w': "w' = v\<lparr>db := log_system_event (tx_now v) ''lease_expired'' (Some (a_worker_id a))
           (JObj [(''job_id'', JStr (uuid_text (j_id ?job))), (''attempt_id'', JStr (uuid_text (a_id a)))]) (db v)\<rparr>"
        by (auto simp: recover_job_def tx_bind_Inr tx_get_bind database_time_iff add_system_event_def
            tx_modify_def)
      have h: "holds a ?job (db w)" by (rule active_holds(1) [OF inv Some])
      have known: "j_id ?job \<in> j_id ` set (jobs (db w))"
        using h unfolding holds_def by (metis image_eqI)
      have "spared J V (db (tick w)) (db v) \<and> row_scan v = row_scan (tick w)
          \<and> worker_scan v = worker_scan (tick w) \<and> locked_jobs v = locked_jobs (tick w)
          \<and> locked_workers v = locked_workers (tick w)"
        by (rule fail_attempt_spared [OF _ _ _ _ _ fail])
          (use h inv assms known in \<open>auto simp: holds_def db_inv_def\<close>)
      moreover have "spared J V (db v) (db w')"
        unfolding w' by (auto intro!: spared_jobs same_rows_workers simp: log_system_event_def)
      ultimately show ?thesis using w' spared_trans by (auto simp: tick_def)
    qed
  qed
qed

lemma cancel_blocked_spares: "j_id job0 \<notin> J \<Longrightarrow> spares J V (cancel_blocked job0)"
  unfolding cancel_blocked_def
  by (intro spares_bind spares_pure refines_get transition_spares) (auto simp: tx_get_def)

lemma recover_jobs_spares: "spares J V (recover_jobs limit)"
proof -
  have page: "j_id j \<notin> J" if "guarded J V w" "j \<in> set (locked_page limit w rs)" for w j rs
  proof -
    have "j \<in> set (filter (\<lambda>j. j_id j \<notin> set (locked_jobs w)) (row_scan w rs))"
      using that(2) unfolding locked_page_def by (rule in_set_takeD)
    with that(1) show ?thesis by (auto simp: guarded_def)
  qed
  have loops: "spares J V (tx_for (locked_page limit w rs) recover_job)"
    "spares J V (tx_for (locked_page limit w rs) cancel_blocked)" if "guarded J V w" for w rs
    using page [OF that] by (auto intro!: spares_for recover_job_spares cancel_blocked_spares
        recover_job_refines cancel_blocked_refines)
  have rounds: "refines (tx_for xs recover_job)" "refines (tx_for xs cancel_blocked)" for xs
    by (intro refines_for recover_job_refines cancel_blocked_refines)+
  have sweep: "spares J V (tx_bind database_time (\<lambda>t.
     tx_bind (tx_get (\<lambda>w. locked_page limit w (expired_join t (db w)))) (\<lambda>jobs.
     tx_bind (tx_for jobs recover_job) (\<lambda>_.
     tx_bind (tx_get (\<lambda>w. locked_page limit w (blocked_rows (db w)))) (\<lambda>blocked.
     tx_bind (tx_for blocked cancel_blocked) (\<lambda>_. tx_return (int (length jobs))))))))"
    by (rule spares_bind [OF spares_pure(4) refines_next(1)], rule spares_get,
        rule spares_bind [OF loops(1) rounds(1)], assumption, rule spares_get,
        rule spares_bind [OF loops(2) rounds(2)], assumption, rule spares_pure)
  show ?thesis
    unfolding recover_jobs_def by (rule spares_get) (simp add: sweep spares_pure)
qed

text \<open>The routes and the sweep over the workers.\<close>

lemma worker_by_id_set_worker:
  assumes "k \<noteq> v" and "\<And>r. w_id (f r) = w_id r"
  shows "find_row w_id v (set_row w_id k f ws) = find_row w_id v ws"
  using find_row_set_row [of w_id f v k ws, OF assms(2)] assms(1)
  by (cases "find_row w_id v ws") (auto dest: find_row_Some)

lemma spared_worker_update:
  assumes "d' = d\<lparr>workers := set_row w_id k f (workers d), system_events := es\<rparr>"
    and "k \<notin> V" and "\<And>r. w_id (f r) = w_id r"
  shows "spared J V d d'"
  using assms
  by (auto simp: spared_def same_rows_workers worker_by_id_def
      intro!: worker_by_id_set_worker [symmetric])

lemma spared_set_worker:
  assumes "k \<notin> V" and "\<And>r. w_id (f r) = w_id r"
  shows "spared J V d (set_worker k f d)"
  using assms by (auto simp: spared_def same_rows_workers worker_by_id_def set_worker_def
      intro!: worker_by_id_set_worker [symmetric])

lemma spared_log:
  "spared J V d (log_system_event t kind v detail d)"
  by (auto simp: log_system_event_def intro!: spared_jobs same_rows_workers)

lemma judge_worker_spared:
  assumes "w_id v \<notin> V" and "judge_worker dead_after t v w = Inr (u, w')"
  shows "spared J V (db w) (db w')"
proof -
  from assms(2) consider "db w' = db w"
    | es where "db w' = (db w)\<lparr>workers := set_row w_id (w_id v)
        (\<lambda>r. r\<lparr>w_state := verdict dead_after t v\<rparr>) (workers (db w)), system_events := es\<rparr>"
    by (auto simp: judge_worker_def Let_def tx_eval set_worker_def log_system_event_def split: if_splits)
  then show ?thesis
    using spared_worker_update [OF _ assms(1)] by cases auto
qed

lemma detect_workers_spared:
  assumes "guarded J V w" and "detect_workers suspect_after dead_after w = Inr (u, w')"
  shows "spared J V (db w) (db w')"
proof -
  let ?vs = "silent_workers suspect_after (clk w 0) (tick w)"
  have free: "w_id v \<notin> V" if "v \<in> set ?vs" for v
    using that assms(1) by (auto simp: silent_workers_def guarded_def tick_def)
  have loop: "tx_for ?vs (judge_worker dead_after (clk w 0)) (tick w) = Inr (u, w')"
    using assms(2) by (simp add: detect_workers_def tx_bind_def database_time_def next_clock_def tx_get_def)
  show ?thesis
    by (rule tx_for_invariant [OF loop, where P = "\<lambda>w1. spared J V (db w) (db w1)"])
      (use free in \<open>auto intro: spared_trans judge_worker_spared\<close>)
qed

lemma heartbeat_spared:
  assumes "wid \<notin> V" and "heartbeat_route env c auth wid cred w = Inr (x, w')"
  shows "spared J V (db w) (db w')"
  using assms(2) by (rule heartbeat_route_iff) (erule spared_worker_update [OF _ assms(1)], simp)

lemma drain_spared:
  assumes "wid \<notin> V" and "drain_route c auth wid w = Inr (x, w')"
  shows "spared J V (db w) (db w')"
proof -
  from assms(2) show ?thesis
  proof (cases rule: drain_route_effect)
    case (1 v)
    from 1(3) show ?thesis by (elim disjE conjE) (erule spared_worker_update [OF _ assms(1)], simp)+
  qed
qed

lemma register_spared:
  assumes g: "guarded J V w" and v: "reg_worker_id body \<notin> V"
    and run: "register_route env c auth body w = Inr (x, w')"
  shows "spared J V (db w) (db w')"
  using run
proof (cases rule: register_route_cases)
  case new
  let ?d = "(db w)\<lparr>workers := workers (db w) @ [new_worker body (sha256 env (reg_session_token body)) (tx_now w)]\<rparr>"
  have "worker_by_id u (db w) = worker_by_id u ?d" if "u \<in> V" for u
  proof -
    have "u \<in> w_id ` set (workers (db w))" using g that by (auto simp: guarded_def)
    then obtain r where "worker_by_id u (db w) = Some r"
      by (metis worker_by_id_def worker_table.lookup_None_iff option.exhaust)
    then show ?thesis by (simp add: worker_by_id_def find_row_append)
  qed
  then have "spared J V (db w) ?d" by (simp add: spared_def same_rows_workers)
  then show ?thesis unfolding new(2) by (rule spared_trans [OF _ spared_log])
next
  case (replay r)
  have "spared J V (db w) (set_worker (reg_worker_id body)
      (\<lambda>v. v\<lparr>w_last_seen := clk w 0, w_state := resumed v\<rparr>) (db w))"
    by (rule spared_set_worker [OF v]) simp
  with replay(3) spared_log show ?thesis by (auto intro: spared_trans split: if_splits)
next
  case (takeover r)
  show ?thesis unfolding takeover(4)
    by (rule spared_trans [OF spared_set_worker [OF v] spared_log]) simp
qed

lemma submit_spared:
  assumes "guarded J V w" and "submit_route env c auth body w = Inr (x, w')"
  shows "spared J V (db w) (db w')"
proof -
  obtain y where "admit env body (cfg_queue_limit c) (cfg_submissions_per_minute c) w = Inr (y, w')"
    using assms(2) by (auto simp: submit_route_def tx_bind_Inr client_def authorize_def tx_get_def
        tx_return_def tx_raise_def split: if_splits sum.splits)
  from sparesD(1) [OF admit_spares assms(1) this] show ?thesis .
qed

lemma claim_spared:
  assumes "guarded J V w" and "claim_route env c auth body cred w = Inr (x, w')"
  shows "spared J V (db w) (db w')"
proof -
  obtain y where "claim (cl_worker_id body) (cl_slot body) (Some (cl_claim_id body)) (cfg_scheduler c)
      (cfg_lease_seconds c) w = Inr (y, w')"
    using assms(2) by (auto simp: claim_route_def tx_bind_Inr worker_def authorize_def tx_get_def
        identity_iff tx_return_def tx_raise_def split: if_splits sum.splits exn.splits option.splits)
  from sparesD(1) [OF claim_spares assms(1) this] show ?thesis .
qed

end
