(* ===== verification/Locking.thy ===== *)
theory Locking
  imports Skipping
begin

text \<open>
  Transactions under row locks. The coordinators of a deployment run their transactions
  concurrently on one PostgreSQL database. The requests on an assignment lock the worker's row
  (\<^verbatim>\<open>identity\<close> of \<^verbatim>\<open>greyqueue/api.py\<close>) and then the job's row (\<^verbatim>\<open>get_job(lock=True)\<close> of
  \<^verbatim>\<open>greyqueue/service.py\<close>), read under the locks and write at their commit; claims and the
  recovery sweep skip rows that are locked. The lock system below interleaves these steps in any
  order; it is shown to commit only what the transactions run one after another would commit, to
  give the same answers, and never to deadlock.
\<close>

section \<open>The locks of the requests\<close>

datatype resource = WorkerRow string | JobRow uuid

text \<open>
  The row locks a request waits for, in the order it takes them: \<^verbatim>\<open>identity\<close> locks the worker,
  \<^verbatim>\<open>owned\<close> and \<^verbatim>\<open>cancel\<close> lock the job.
\<close>

fun lock_plan :: "request \<Rightarrow> resource list" where
  "lock_plan (CancelReq auth jid) = [JobRow jid]"
| "lock_plan (StartReq auth jid body cred) = [WorkerRow (as_worker_id body), JobRow jid]"
| "lock_plan (RenewReq auth jid body cred) = [WorkerRow (as_worker_id body), JobRow jid]"
| "lock_plan (FinishReq auth jid body cred) = [WorkerRow (as_worker_id body), JobRow jid]"
| "lock_plan (DrainReq auth wid) = [WorkerRow wid]"
| "lock_plan (RegisterReq auth body) = [WorkerRow (reg_worker_id body)]"
| "lock_plan (HeartbeatReq auth wid cred) = [WorkerRow wid]"
| "lock_plan (ClaimReq auth body cred) = [WorkerRow (cl_worker_id body)]"
| "lock_plan (SubmitReq auth body) = []"
| "lock_plan RecoverTx = []"
| "lock_plan DetectTx = []"

text \<open>The requests on one job, whose transactions are interleaved below; and the job.\<close>

fun target :: "request \<Rightarrow> uuid option" where
  "target (CancelReq auth jid) = Some jid"
| "target (StartReq auth jid body cred) = Some jid"
| "target (RenewReq auth jid body cred) = Some jid"
| "target (FinishReq auth jid body cred) = Some jid"
| "target r = None"

definition plan_workers :: "request \<Rightarrow> string set" where
  "plan_workers r = {v. WorkerRow v \<in> set (lock_plan r)}"

lemma effect_run: "effect m w = Inr (u, v) \<Longrightarrow> \<exists>x. m w = Inr (x, v)"
  by (auto simp: effect_def tx_bind_Inr tx_return_def)

text \<open>Any other transaction leaves the rows alone whose locks it finds taken.\<close>

lemma unlocked_spared:
  assumes g: "guarded J V w" and r: "target r = None" "plan_workers r \<inter> V = {}"
    and run: "run_tx (transact env c r) w = (res, w')"
  shows "spared J V (db w) (db w')"
proof (cases "transact env c r w")
  case (Inl e)
  with run show ?thesis by (simp add: run_tx_def)
next
  case (Inr p)
  then obtain u v where p: "transact env c r w = Inr (u, v)" by (cases p) auto
  with run have v: "w' = v" by (simp add: run_tx_def)
  show ?thesis
    using p r unfolding v plan_workers_def
    by (cases r) (auto dest!: effect_run intro: submit_spared [OF g] claim_spared [OF g]
        register_spared [OF g] heartbeat_spared drain_spared detect_workers_spared [OF g]
        sparesD(1) [OF recover_jobs_spares g])
qed

section \<open>The lock system\<close>

text \<open>
  An open transaction: its request, the locks it still waits for, those it holds (the last one
  first) and what it has read. The state: what is committed, and the open transactions.
\<close>

record open_tx =
  tx_request :: request
  tx_todo :: "resource list"
  tx_held :: "resource list"
  tx_seen :: database

record lock_state =
  committed :: database
  open_txs :: "nat \<rightharpoonup> open_tx"

definition taken :: "lock_state \<Rightarrow> resource \<Rightarrow> bool" where
  "taken s l \<longleftrightarrow> (\<exists>t x. open_txs s t = Some x \<and> l \<in> set (tx_held x))"

fun row_exists :: "resource \<Rightarrow> database \<Rightarrow> bool" where
  "row_exists (WorkerRow v) d = (v \<in> w_id ` set (workers d))"
| "row_exists (JobRow i) d = (i \<in> j_id ` set (jobs d))"

text \<open>
  The statement that waited for a lock reads the row as it is when the lock is granted
  (\<^verbatim>\<open>populate_existing=True\<close>): the worker before the job, and the job's tables under the job's lock.
\<close>

fun reread :: "resource \<Rightarrow> database \<Rightarrow> database \<Rightarrow> database" where
  "reread (WorkerRow v) d seen = d"
| "reread (JobRow i) d seen = d\<lparr>workers := workers seen\<rparr>"

text \<open>What a route checks before it asks for the job.\<close>

fun gate :: "env \<Rightarrow> request \<Rightarrow> unit dbtx" where
  "gate env (StartReq auth jid body cred) = effect (identity env (as_worker_id body) cred)"
| "gate env (RenewReq auth jid body cred) = effect (identity env (as_worker_id body) cred)"
| "gate env (FinishReq auth jid body cred) = effect (identity env (as_worker_id body) cred)"
| "gate env r = tx_return ()"

definition authorized :: "settings \<Rightarrow> request \<Rightarrow> bool" where
  "authorized c r \<longleftrightarrow> bearer r = Some (''Bearer '' @ expected_token c r)"

definition closes :: "nat \<Rightarrow> lock_state \<Rightarrow> lock_state" where
  "closes t s = s\<lparr>open_txs := (open_txs s)(t := None)\<rparr>"

datatype lock_label = Quiet | Answered request world "exn + unit"

text \<open>
  A transaction opens, is granted its next lock, answers at once when the row does not exist or the
  session is refused, ends by a commit or a rollback, or is lost with its connection; any other
  request or maintenance transaction runs between these steps, told which rows are locked.
\<close>

inductive lock_step :: "env \<Rightarrow> settings \<Rightarrow> lock_state \<Rightarrow> lock_label \<Rightarrow> lock_state \<Rightarrow> bool"
  for env :: env and c :: settings where
  opens: "\<lbrakk> open_txs s t = None; target r \<noteq> None; accepted env r; authorized c r \<rbrakk>
    \<Longrightarrow> lock_step env c s Quiet (s\<lparr>open_txs := (open_txs s)(t \<mapsto>
          \<lparr>tx_request = r, tx_todo = lock_plan r, tx_held = [], tx_seen = committed s\<rparr>)\<rparr>)"
| locks: "\<lbrakk> open_txs s t = Some x; tx_todo x = l # ls; \<not> taken s l; row_exists l (committed s);
      \<forall>i. l = JobRow i \<longrightarrow> gate env (tx_request x) (w\<lparr>db := tx_seen x\<rparr>) = Inr ((), w\<lparr>db := tx_seen x\<rparr>) \<rbrakk>
    \<Longrightarrow> lock_step env c s Quiet (s\<lparr>open_txs := (open_txs s)(t \<mapsto>
          x\<lparr>tx_todo := ls, tx_held := l # tx_held x, tx_seen := reread l (committed s) (tx_seen x)\<rparr>)\<rparr>)"
| absent: "\<lbrakk> open_txs s t = Some x; tx_todo x = l # ls; \<not> row_exists l (committed s); scan_ok w;
      run_tx (transact env c (tx_request x)) (w\<lparr>db := reread l (committed s) (tx_seen x)\<rparr>) = (res, w') \<rbrakk>
    \<Longrightarrow> lock_step env c s (Answered (tx_request x) w res) (closes t s)"
| refuses: "\<lbrakk> open_txs s t = Some x; tx_todo x = [JobRow i]; scan_ok w;
      gate env (tx_request x) (w\<lparr>db := tx_seen x\<rparr>) = Inl e \<rbrakk>
    \<Longrightarrow> lock_step env c s (Answered (tx_request x) w (Inl e)) (closes t s)"
| ends: "\<lbrakk> open_txs s t = Some x; tx_todo x = []; target (tx_request x) = Some i; scan_ok w;
      run_tx (transact env c (tx_request x)) (w\<lparr>db := tx_seen x\<rparr>) = (res, w') \<rbrakk>
    \<Longrightarrow> lock_step env c s (Answered (tx_request x) w res)
          ((closes t s)\<lparr>committed := (case res of Inl e \<Rightarrow> committed s
             | Inr u \<Rightarrow> publish i (tx_seen x) (db w') (committed s))\<rparr>)"
| lost: "open_txs s t = Some x \<Longrightarrow> lock_step env c s Quiet (closes t s)"
| others: "\<lbrakk> target r = None; accepted env r; scan_ok w; db w = committed s;
      \<forall>l \<in> set (lock_plan r). \<not> taken s l;
      \<forall>i. taken s (JobRow i) \<longrightarrow> i \<in> set (locked_jobs w);
      \<forall>v. taken s (WorkerRow v) \<longrightarrow> v \<in> set (locked_workers w);
      run_tx (transact env c r) w = (res, w') \<rbrakk>
    \<Longrightarrow> lock_step env c s (Answered r w res) (s\<lparr>committed := db w'\<rparr>)"

inductive_cases lock_stepE: "lock_step env c s lab s'"

definition lock_start :: lock_state where
  "lock_start = \<lparr>committed = empty_db, open_txs = Map.empty\<rparr>"

definition lock_reachable :: "env \<Rightarrow> settings \<Rightarrow> lock_state \<Rightarrow> bool" where
  "lock_reachable env c s \<longleftrightarrow> (\<lambda>s s'. \<exists>lab. lock_step env c s lab s')\<^sup>*\<^sup>* lock_start s"

section \<open>What an open transaction has read is still there\<close>

definition fresh_row :: "database \<Rightarrow> database \<Rightarrow> resource \<Rightarrow> bool" where
  "fresh_row seen d l = (row_exists l d \<and> (case l of
      WorkerRow v \<Rightarrow> worker_by_id v seen = worker_by_id v d
    | JobRow i \<Rightarrow> same_rows i seen d))"

definition tx_ok :: "env \<Rightarrow> settings \<Rightarrow> database \<Rightarrow> open_tx \<Rightarrow> bool" where
  "tx_ok env c d x \<longleftrightarrow>
     target (tx_request x) \<noteq> None \<and> accepted env (tx_request x) \<and> authorized c (tx_request x)
     \<and> rev (tx_held x) @ tx_todo x = lock_plan (tx_request x)
     \<and> keys_ok (tx_seen x) \<and> (\<forall>l \<in> set (tx_held x). fresh_row (tx_seen x) d l)"

definition lock_inv :: "env \<Rightarrow> settings \<Rightarrow> lock_state \<Rightarrow> bool" where
  "lock_inv env c s \<longleftrightarrow> db_inv (committed s)
     \<and> (\<forall>t x. open_txs s t = Some x \<longrightarrow> tx_ok env c (committed s) x)
     \<and> (\<forall>t u x y. open_txs s t = Some x \<longrightarrow> open_txs s u = Some y \<longrightarrow> t \<noteq> u
          \<longrightarrow> set (tx_held x) \<inter> set (tx_held y) = {})"

lemma worker_exists: "v \<in> w_id ` set (workers d) \<longleftrightarrow> worker_by_id v d \<noteq> None"
  by (simp add: worker_by_id_def worker_table.lookup_None_iff)

lemma job_exists: "i \<in> j_id ` set (jobs d) \<longleftrightarrow> job_by_id i d \<noteq> None"
  by (simp add: job_by_id_def job_table.lookup_None_iff)

lemma fresh_row_keep:
  assumes "fresh_row seen d l"
    and "case l of WorkerRow v \<Rightarrow> worker_by_id v d = worker_by_id v d' | JobRow i \<Rightarrow> same_rows i d d'"
  shows "fresh_row seen d' l"
  using assms by (cases l) (auto simp: fresh_row_def worker_exists job_exists same_rows_def simp del: image_iff)

lemma plan_shape:
  assumes "target r \<noteq> None"
  obtains (client) i where "target r = Some i" "lock_plan r = [JobRow i]"
  | (worker) v i where "target r = Some i" "lock_plan r = [WorkerRow v, JobRow i]"
  using assms by (cases r) auto

lemma transact_local:
  assumes "target r = Some i" and "based i (plan_workers r) s0 d0"
  shows "local_tx i s0 d0 (transact env c r)"
  using assms by (cases r) (auto intro!: local_effect local_routes simp: plan_workers_def)

lemma gate_refuses:
  assumes "authorized c r" and "gate env r w = Inl e"
  shows "transact env c r w = Inl e"
  using assms
  by (cases r) (auto simp: authorized_def effect_def start_route_def renew_route_def finish_route_def
      worker_def authorize_def tx_return_def tx_raise_def tx_bind_def split: sum.splits)

lemma gate_same:
  assumes "\<forall>v \<in> plan_workers r. worker_by_id v d = worker_by_id v d'" and "gate env r (w\<lparr>db := d\<rparr>) = Inl e"
  shows "gate env r (w\<lparr>db := d'\<rparr>) = Inl e"
  using assms
  by (cases r) (auto simp: plan_workers_def effect_def identity_def tx_eval Let_def split: option.splits if_splits)

text \<open>A request on a job or of a worker that does not exist is refused.\<close>

lemma owned_exists: "owned i wid tok fin w = Inr p \<Longrightarrow> job_by_id i (db w) \<noteq> None"
  by (cases p; cases "fst p") (auto simp: owned_iff)

lemma operation_exists:
  "start i wid tok w = Inr p \<Longrightarrow> job_by_id i (db w) \<noteq> None"
  "renew i wid tok lease w = Inr q \<Longrightarrow> job_by_id i (db w) \<noteq> None"
  "finish i wid tok output err retryable w = Inr p \<Longrightarrow> job_by_id i (db w) \<noteq> None"
  "cancel i w = Inr p \<Longrightarrow> job_by_id i (db w) \<noteq> None"
  unfolding start_def renew_def finish_def
  by (auto simp: tx_bind_Inr cancel_def get_job_iff dest: owned_exists)

lemma absent_raises:
  assumes "target r \<noteq> None" and "l \<in> set (lock_plan r)" and "\<not> row_exists l (db w)"
  shows "\<exists>e. transact env c r w = Inl e"
proof (rule ccontr)
  assume "\<not> ?thesis"
  then obtain u v where "transact env c r w = Inr (u, v)" by (cases "transact env c r w") auto
  with assms(1,2) have "row_exists l (db w)"
    by (cases r) (auto simp: start_route_def renew_route_def finish_route_def cancel_route_def tx_bind_Inr
        identity_iff worker_def client_def authorize_def tx_return_def tx_raise_def worker_exists job_exists
        simp del: image_iff dest!: effect_run operation_exists split: if_splits)
  with assms(3) show False by simp
qed

section \<open>Every answer is the answer of a serial run\<close>

lemma tx_based:
  assumes inv: "db_inv d" and ok: "tx_ok env c d x" and all: "tx_todo x = []"
    and i: "target (tx_request x) = Some i"
  shows "based i (plan_workers (tx_request x)) (tx_seen x) d"
proof -
  have "rev (tx_held x) = lock_plan (tx_request x)" using ok all by (simp add: tx_ok_def)
  then have plan: "set (lock_plan (tx_request x)) = set (tx_held x)" by (metis set_rev)
  have "JobRow i \<in> set (lock_plan (tx_request x))" using i by (cases "tx_request x") auto
  with ok plan inv show ?thesis
    by (auto simp: based_def tx_ok_def fresh_row_def plan_workers_def db_inv_def)
qed

text \<open>A worker's transaction that waits for the job has read the worker.\<close>

lemma waits_for_job:
  assumes ok: "tx_ok env c d x" and todo: "tx_todo x = JobRow i # ls"
  shows "target (tx_request x) = Some i" and "ls = []"
    and "\<forall>v \<in> plan_workers (tx_request x). worker_by_id v (tx_seen x) = worker_by_id v d"
proof -
  have r: "target (tx_request x) \<noteq> None"
    and plan: "rev (tx_held x) @ JobRow i # ls = lock_plan (tx_request x)"
    and fresh: "\<forall>l \<in> set (tx_held x). fresh_row (tx_seen x) d l"
    using ok todo by (simp_all add: tx_ok_def)
  from r plan show "target (tx_request x) = Some i" "ls = []"
    by (cases rule: plan_shape; auto simp: append_eq_Cons_conv)+
  have "set (tx_held x) = {WorkerRow v |v. v \<in> plan_workers (tx_request x)}"
  proof -
    have "set (lock_plan (tx_request x)) = insert (JobRow i) (set (tx_held x))"
      using plan \<open>ls = []\<close> by (metis list.set(1) list.set(2) set_append set_rev Un_insert_right sup_bot_right)
    moreover have "JobRow i \<notin> set (tx_held x)" "\<forall>k. JobRow k \<in> set (tx_held x) \<longrightarrow> k = i"
      using r plan by (cases rule: plan_shape; auto simp: append_eq_Cons_conv)+
    ultimately show ?thesis
      by (auto simp: plan_workers_def) (metis resource.exhaust)
  qed
  with fresh show "\<forall>v \<in> plan_workers (tx_request x). worker_by_id v (tx_seen x) = worker_by_id v d"
    by (auto simp: fresh_row_def)
qed

lemma reread_based:
  assumes inv: "db_inv d" and ok: "tx_ok env c d x" and todo: "tx_todo x = JobRow i # ls"
  shows "based i (plan_workers (tx_request x)) (reread (JobRow i) d (tx_seen x)) d"
proof -
  have "same_rows i (d\<lparr>workers := workers (tx_seen x)\<rparr>) d" by (simp add: same_rows_def job_by_id_def)
  moreover have "keys_ok (d\<lparr>workers := workers (tx_seen x)\<rparr>)"
    using inv ok by (simp add: tx_ok_def keys_ok_def db_inv_def)
  moreover have "worker_by_id v (d\<lparr>workers := workers (tx_seen x)\<rparr>) = worker_by_id v (tx_seen x)" for v
    by (simp add: worker_by_id_def)
  ultimately show ?thesis
    using waits_for_job(3) [OF ok todo] inv by (simp add: based_def db_inv_def)
qed

text \<open>What a step that answers does, seen from the committed tables.\<close>

definition serial_answer ::
    "env \<Rightarrow> settings \<Rightarrow> request \<Rightarrow> world \<Rightarrow> exn + unit \<Rightarrow> database \<Rightarrow> database \<Rightarrow> bool" where
  "serial_answer env c r w res d d' \<longleftrightarrow> accepted env r \<and> scan_ok w
     \<and> (\<exists>w'. run_tx (transact env c r) (w\<lparr>db := d\<rparr>) = (res, w') \<and> db w' = d')"

lemma raise_answers:
  assumes "transact env c r (w\<lparr>db := d\<rparr>) = Inl e" and "accepted env r" and "scan_ok w"
  shows "serial_answer env c r w (Inl e) d d"
  using assms by (simp add: serial_answer_def run_tx_def)

lemma ends_answers:
  assumes inv: "db_inv d" and ok: "tx_ok env c d x" and x: "tx_todo x = []" "target (tx_request x) = Some i"
    and scan: "scan_ok w"
    and run: "run_tx (transact env c (tx_request x)) (w\<lparr>db := tx_seen x\<rparr>) = (res, w')"
    and d': "d' = (case res of Inl e \<Rightarrow> d | Inr u \<Rightarrow> publish i (tx_seen x) (db w') d)"
  shows "serial_answer env c (tx_request x) w res d d'"
    and "\<forall>k. k \<noteq> i \<longrightarrow> same_rows k d d'" and "workers d' = workers d"
proof -
  note b = tx_based [OF inv ok x]
  obtain w2 where "run_tx (transact env c (tx_request x)) (w\<lparr>db := d\<rparr>) = (res, w2)" and "db w2 = d'"
    and "\<forall>k. k \<noteq> i \<longrightarrow> same_rows k d (db w2)" and "workers (db w2) = workers d"
    using local_replay [OF b transact_local [OF x(2) b] run] unfolding d' by blast
  with ok scan show "serial_answer env c (tx_request x) w res d d'"
    and "\<forall>k. k \<noteq> i \<longrightarrow> same_rows k d d'" and "workers d' = workers d"
    by (auto simp: serial_answer_def tx_ok_def)
qed

lemma absent_answers:
  assumes inv: "db_inv d" and ok: "tx_ok env c d x" and x: "tx_todo x = l # ls" "\<not> row_exists l d"
    and scan: "scan_ok w"
    and run: "run_tx (transact env c (tx_request x)) (w\<lparr>db := reread l d (tx_seen x)\<rparr>) = (res, w')"
  shows "serial_answer env c (tx_request x) w res d d"
proof -
  have r: "target (tx_request x) \<noteq> None" "accepted env (tx_request x)" "l \<in> set (lock_plan (tx_request x))"
    using ok x(1) by (auto simp: tx_ok_def) (metis in_set_conv_decomp)
  obtain e where e: "transact env c (tx_request x) (w\<lparr>db := d\<rparr>) = Inl e"
    using absent_raises [OF r(1,3), of "w\<lparr>db := d\<rparr>"] x(2) by auto
  have "res = Inl e"
  proof (cases l)
    case (WorkerRow v)
    with run e show ?thesis by (simp add: run_tx_def)
  next
    case (JobRow i)
    note b = reread_based [OF inv ok x(1) [unfolded JobRow]]
    have "target (tx_request x) = Some i" by (rule waits_for_job(1) [OF ok x(1) [unfolded JobRow]])
    from local_replay [OF b transact_local [OF this b] run [unfolded JobRow]] e show ?thesis
      by (auto simp: run_tx_def)
  qed
  with raise_answers [OF e r(2) scan] show ?thesis by simp
qed

lemma closes_simps [simp]:
  "committed (closes t s) = committed s"
  "open_txs (closes t s) = (open_txs s)(t := None)"
  by (simp_all add: closes_def)

lemma refuses_answers:
  assumes ok: "tx_ok env c d x" and x: "tx_todo x = [JobRow i]" and scan: "scan_ok w"
    and e: "gate env (tx_request x) (w\<lparr>db := tx_seen x\<rparr>) = Inl e"
  shows "serial_answer env c (tx_request x) w (Inl e) d d"
proof (rule raise_answers)
  have "gate env (tx_request x) (w\<lparr>db := d\<rparr>) = Inl e"
    by (rule gate_same [OF waits_for_job(3) [OF ok x] e])
  with ok show "transact env c (tx_request x) (w\<lparr>db := d\<rparr>) = Inl e"
    by (auto simp: tx_ok_def intro: gate_refuses)
qed (use ok scan in \<open>simp_all add: tx_ok_def\<close>)

lemma step_answers:
  assumes inv: "lock_inv env c s" and step: "lock_step env c s (Answered r w res) s'"
  shows "serial_answer env c r w res (committed s) (committed s')"
proof -
  have d: "db_inv (committed s)" and ok: "\<And>t x. open_txs s t = Some x \<Longrightarrow> tx_ok env c (committed s) x"
    using inv by (simp_all add: lock_inv_def)
  from step show ?thesis
  proof (cases rule: lock_step.cases)
    case (absent t x l ls w')
    with absent_answers [OF d ok] show ?thesis by simp
  next
    case (refuses t x i e)
    with refuses_answers [OF ok] show ?thesis by simp
  next
    case (ends t x i w')
    with ends_answers(1) [OF d ok _ _ _ _ refl] show ?thesis by simp
  next
    case (others w')
    then have same: "w\<lparr>db := committed s\<rparr> = w" by (cases w) simp
    from others show ?thesis unfolding serial_answer_def same by simp
  qed
qed

lemma step_quiet: "lock_step env c s Quiet s' \<Longrightarrow> committed s' = committed s"
  by (cases rule: lock_step.cases) auto

lemma step_coordinator:
  assumes "lock_inv env c s" and "lock_step env c s lab s'"
  shows "committed s' = committed s \<or> coordinator_step env c (committed s) (committed s')"
proof (cases lab)
  case Quiet
  with assms step_quiet show ?thesis by auto
next
  case (Answered r w res)
  obtain w' where r: "accepted env r" "scan_ok w"
    and run: "run_tx (transact env c r) (w\<lparr>db := committed s\<rparr>) = (res, w')" "db w' = committed s'"
    using step_answers [OF assms [unfolded Answered]] by (auto simp: serial_answer_def)
  have "scan_ok (w\<lparr>db := committed s\<rparr>)" using r(2) by (simp add: scan_ok_def)
  from coordinator_step.transaction [OF r(1) this run(1)] run(2) show ?thesis by simp
qed

text \<open>The locks of the other open transactions protect what they have read.\<close>

lemma tx_ok_keep:
  assumes "tx_ok env c d x"
    and "\<And>i. JobRow i \<in> set (tx_held x) \<Longrightarrow> same_rows i d d'"
    and "\<And>v. WorkerRow v \<in> set (tx_held x) \<Longrightarrow> worker_by_id v d = worker_by_id v d'"
  shows "tx_ok env c d' x"
proof -
  have "fresh_row (tx_seen x) d' l" if "l \<in> set (tx_held x)" for l
    by (rule fresh_row_keep [of _ d]) (use assms that in \<open>auto simp: tx_ok_def split: resource.splits\<close>)
  with assms(1) show ?thesis by (simp add: tx_ok_def)
qed

lemma held_target:
  assumes ok: "tx_ok env c d x" and all: "tx_todo x = []" and i: "target (tx_request x) = Some i"
  shows "JobRow i \<in> set (tx_held x)"
proof -
  have "rev (tx_held x) = lock_plan (tx_request x)" using ok all by (simp add: tx_ok_def)
  then have "set (tx_held x) = set (lock_plan (tx_request x))" by (metis set_rev)
  with i show ?thesis by (cases "tx_request x") auto
qed

lemma step_keeps_reads:
  assumes inv: "lock_inv env c s" and step: "lock_step env c s lab s'"
    and u: "open_txs s u = Some y" "open_txs s' u = Some y"
  shows "tx_ok env c (committed s') y"
proof -
  have d: "db_inv (committed s)" and ok: "\<And>t x. open_txs s t = Some x \<Longrightarrow> tx_ok env c (committed s) x"
    and excl: "\<And>t x y u. open_txs s t = Some x \<Longrightarrow> open_txs s u = Some y \<Longrightarrow> t \<noteq> u
      \<Longrightarrow> set (tx_held x) \<inter> set (tx_held y) = {}"
    using inv unfolding lock_inv_def by blast+
  from step show ?thesis
  proof (cases rule: lock_step.cases)
    case (ends t x i w res w')
    note e = ends_answers(2,3) [OF d ok [OF ends(3)] ends(4-7) refl]
    have "t \<noteq> u" using u(2) ends(2) by auto
    then have "JobRow i \<notin> set (tx_held y)"
      using held_target [OF ok [OF ends(3)] ends(4,5)] excl [OF ends(3) u(1)] by auto
    with e show ?thesis
      using ends(2) by (auto intro!: tx_ok_keep [OF ok [OF u(1)]] simp: worker_by_id_def)
  next
    case (others r w res w')
    let ?J = "{i. taken s (JobRow i)}" and ?V = "{v. taken s (WorkerRow v)}"
    have "row_exists l (committed s)" if "taken s l" for l
      using that ok by (auto simp: taken_def tx_ok_def fresh_row_def)
    then have g: "guarded ?J ?V w"
      using others d by (fastforce simp: guarded_def)
    have "spared ?J ?V (db w) (db w')"
      by (rule unlocked_spared [OF g others(3) _ others(10)])
        (use others(7) in \<open>auto simp: plan_workers_def\<close>)
    then have "same_rows i (committed s) (committed s')" if "taken s (JobRow i)" for i
      using others(2,6) that by (simp add: spared_def)
    moreover have "worker_by_id v (committed s) = worker_by_id v (committed s')"
      if "taken s (WorkerRow v)" for v
      using \<open>spared ?J ?V (db w) (db w')\<close> others(2,6) that by (simp add: spared_def)
    moreover have "taken s l" if "l \<in> set (tx_held y)" for l using u(1) that by (auto simp: taken_def)
    ultimately show ?thesis by (intro tx_ok_keep [OF ok [OF u(1)]]) auto
  qed (use ok u in auto)
qed

lemma locks_ok:
  assumes d: "db_inv d" and ok: "tx_ok env c d x" and x: "tx_todo x = l # ls" "row_exists l d"
  shows "tx_ok env c d (x\<lparr>tx_todo := ls, tx_held := l # tx_held x, tx_seen := reread l d (tx_seen x)\<rparr>)"
proof (cases l)
  case (WorkerRow v)
  have r: "target (tx_request x) \<noteq> None"
    and plan: "rev (tx_held x) @ WorkerRow v # ls = lock_plan (tx_request x)"
    using ok x WorkerRow by (simp_all add: tx_ok_def)
  from r plan have "tx_held x = []"
    by (cases rule: plan_shape) (auto simp: append_eq_Cons_conv)
  with ok x WorkerRow d show ?thesis by (simp add: tx_ok_def fresh_row_def db_inv_def)
next
  case (JobRow i)
  let ?seen = "reread l d (tx_seen x)"
  have b: "based i (plan_workers (tx_request x)) ?seen d"
    using reread_based [OF d ok] x(1) JobRow by simp
  have "fresh_row ?seen d k" if "k \<in> set (tx_held x)" for k
  proof -
    have f: "fresh_row (tx_seen x) d k" using ok that by (simp add: tx_ok_def)
    show ?thesis
    proof (cases k)
      case (WorkerRow v)
      with f show ?thesis by (simp add: fresh_row_def JobRow worker_by_id_def)
    next
      case (JobRow m)
      have "same_rows m (d\<lparr>workers := workers (tx_seen x)\<rparr>) d" by (simp add: same_rows_def job_by_id_def)
      with f JobRow \<open>l = JobRow i\<close> show ?thesis by (simp add: fresh_row_def)
    qed
  qed
  moreover have "fresh_row ?seen d l" using b x(2) JobRow by (simp add: fresh_row_def based_def)
  moreover have "keys_ok ?seen" using b by (simp add: based_def)
  ultimately show ?thesis using ok x(1) by (simp add: tx_ok_def)
qed

lemma lock_step_inv:
  assumes inv: "lock_inv env c s" and step: "lock_step env c s lab s'"
  shows "lock_inv env c s'"
proof -
  have d: "db_inv (committed s)" and ok: "\<And>t x. open_txs s t = Some x \<Longrightarrow> tx_ok env c (committed s) x"
    and excl: "\<forall>t u x y. open_txs s t = Some x \<longrightarrow> open_txs s u = Some y \<longrightarrow> t \<noteq> u
          \<longrightarrow> set (tx_held x) \<inter> set (tx_held y) = {}"
    using inv by (simp_all add: lock_inv_def)
  have d': "db_inv (committed s')"
    using step_coordinator [OF inv step] d coordinator.step_inv by metis
  have same: "tx_ok env c (committed s') y" if "open_txs s u = Some y" "open_txs s' u = Some y" for u y
    by (rule step_keeps_reads [OF inv step that])
  from step show ?thesis
  proof (cases rule: lock_step.cases)
    case (opens t r)
    have "tx_ok env c (committed s)
        \<lparr>tx_request = r, tx_todo = lock_plan r, tx_held = [], tx_seen = committed s\<rparr>"
      using opens d by (simp add: tx_ok_def db_inv_def)
    with opens d ok excl show ?thesis by (auto simp: lock_inv_def)
  next
    case (locks t x l ls w)
    note ok' = locks_ok [OF d ok [OF locks(3)] locks(4,6)]
    have free: "l \<notin> set (tx_held y)" if "open_txs s u = Some y" for u y
      using locks(5) that by (auto simp: taken_def)
    show ?thesis
      unfolding lock_inv_def locks(2) using d ok ok' excl free locks(3)
      by (auto split: if_splits)
  qed (use d' same excl in \<open>auto simp: lock_inv_def split: if_splits\<close>)
qed

interpretation lock_system: invariant_system "\<lambda>s s'. \<exists>lab. lock_step env c s lab s'" "lock_inv env c" for env c
  by unfold_locales (blast intro: lock_step_inv)

lemma lock_start_inv: "lock_inv env c lock_start"
  by (simp add: lock_inv_def lock_start_def empty_db_inv)

lemma lock_reachable_inv: "lock_reachable env c s \<Longrightarrow> lock_inv env c s"
  unfolding lock_reachable_def using lock_system.run_inv lock_start_inv by blast

lemma lock_reachable_extend:
  "lock_reachable env c s \<Longrightarrow> lock_step env c s lab s' \<Longrightarrow> lock_reachable env c s'"
  unfolding lock_reachable_def by (blast intro: rtranclp.rtrancl_into_rtrancl)

lemma committed_reachable:
  assumes "lock_reachable env c s"
  shows "reachable env c (committed s)"
  using assms unfolding lock_reachable_def
proof (induction rule: rtranclp_induct)
  case base
  show ?case by (simp add: lock_start_def reachable_def)
next
  case (step s s')
  then have "lock_inv env c s" by (auto intro: lock_reachable_inv simp: lock_reachable_def)
  with step(2) consider "committed s' = committed s" | "coordinator_step env c (committed s) (committed s')"
    using step_coordinator by blast
  then show ?case
  proof cases
    case 2
    with step.IH show ?thesis unfolding reachable_def by (rule rtranclp.rtrancl_into_rtrancl)
  qed (use step.IH in simp)
qed

section \<open>Every serial run is an interleaving\<close>

abbreviation idle_locks :: "database \<Rightarrow> lock_state" where
  "idle_locks d \<equiv> \<lparr>committed = d, open_txs = Map.empty\<rparr>"

abbreviation lone_tx :: "database \<Rightarrow> request \<Rightarrow> resource list \<Rightarrow> resource list \<Rightarrow> lock_state" where
  "lone_tx d r todo held \<equiv> \<lparr>committed = d, open_txs = [0 \<mapsto>
     \<lparr>tx_request = r, tx_todo = todo, tx_held = held, tx_seen = d\<rparr>]\<rparr>"

lemma lone_opens:
  assumes "target r \<noteq> None" "accepted env r" "authorized c r"
  shows "lock_step env c (idle_locks d) Quiet (lone_tx d r (lock_plan r) [])"
  using lock_step.opens [of "idle_locks d" 0 r env c] assms by simp

lemma lone_locks:
  assumes "l \<notin> set held" "row_exists l d"
    and "\<forall>i. l = JobRow i \<longrightarrow> gate env r (w\<lparr>db := d\<rparr>) = Inr ((), w\<lparr>db := d\<rparr>)"
  shows "lock_step env c (lone_tx d r (l # ls) held) Quiet (lone_tx d r ls (l # held))"
proof -
  have "reread l d d = d" by (cases l) simp_all
  then show ?thesis
    using lock_step.locks [of "lone_tx d r (l # ls) held" 0 _ l ls env w c] assms
    by (simp add: taken_def)
qed

lemma lone_ends:
  assumes "target r = Some i" and "scan_ok w"
    and "run_tx (transact env c r) (w\<lparr>db := d\<rparr>) = (Inr u, w')"
  shows "lock_step env c (lone_tx d r [] held) (Answered r w (Inr u)) (idle_locks (publish i d (db w') d))"
  using lock_step.ends [of "lone_tx d r [] held" 0
      "\<lparr>tx_request = r, tx_todo = [], tx_held = held, tx_seen = d\<rparr>" i w env c "Inr u" w'] assms
  by (simp add: closes_def)

lemma gate_passes: "gate env r w = Inr p \<Longrightarrow> p = ((), w)"
  by (cases r) (auto simp: effect_def tx_bind_Inr identity_iff tx_return_def)

text \<open>A request that returns finds its rows and passes its checks.\<close>

lemma lone_ready:
  assumes r: "target r = Some i" "accepted env r" "authorized c r"
    and idle: "lock_reachable env c (idle_locks d)"
    and run: "transact env c r (w\<lparr>db := d\<rparr>) = Inr (u, w')"
  shows "lock_reachable env c (lone_tx d r [] (rev (lock_plan r)))"
proof -
  have rows: "row_exists l d" if "l \<in> set (lock_plan r)" for l
    using absent_raises [OF _ that, of "w\<lparr>db := d\<rparr>" env c] r(1) run by fastforce
  have gate: "gate env r (w\<lparr>db := d\<rparr>) = Inr ((), w\<lparr>db := d\<rparr>)"
    using gate_refuses [OF r(3), of env "w\<lparr>db := d\<rparr>"] run gate_passes
    by (cases "gate env r (w\<lparr>db := d\<rparr>)") fastforce+
  have "target r \<noteq> None" using r(1) by simp
  note open1 = lock_reachable_extend [OF idle lone_opens [OF this r(2,3)]]
  from \<open>target r \<noteq> None\<close> show ?thesis
  proof (cases rule: plan_shape)
    case (client i)
    with rows open1 lock_reachable_extend [OF _ lone_locks [OF _ _, of "JobRow i" "[]"]] gate
    show ?thesis by fastforce
  next
    case (worker v i)
    have "row_exists (WorkerRow v) d" "row_exists (JobRow i) d"
      by (rule rows, simp add: worker(2))+
    note steps = lone_locks [OF _ this(1), of "[]"] lone_locks [OF _ this(2), of "[WorkerRow v]" env r w]
    have "lock_reachable env c (lone_tx d r [JobRow i] [WorkerRow v])"
      by (rule lock_reachable_extend [OF open1 [unfolded worker(2)] steps(1)]) simp_all
    from lock_reachable_extend [OF this steps(2)] worker(2) gate show ?thesis by simp
  qed
qed

lemma serial_interleaves:
  assumes idle: "lock_reachable env c (idle_locks d)" and step: "coordinator_step env c d d'"
  shows "lock_reachable env c (idle_locks d')"
  using step
proof (cases rule: coordinator_step.cases)
  case (transaction r w res w')
  show ?thesis
  proof (cases "target r")
    case None
    have "lock_step env c (idle_locks d) (Answered r w res) (idle_locks d')"
      using lock_step.others [OF None transaction(3,4), where s = "idle_locks d" and c = c and res = res and w' = w']
        transaction by (simp add: taken_def)
    with idle show ?thesis by (rule lock_reachable_extend)
  next
    case (Some i)
    show ?thesis
    proof (cases "transact env c r w")
      case (Inl e)
      with transaction have "d' = d" by (auto simp: run_tx_def)
      with idle show ?thesis by simp
    next
      case (Inr p)
      then have p: "res = Inr (fst p)" "w' = snd p" using transaction(5) by (auto simp: run_tx_def split: prod.splits)
      have w: "w\<lparr>db := d\<rparr> = w" using transaction(1) by (cases w) simp
      have auth: "authorized c r"
      proof (rule ccontr)
        assume "\<not> authorized c r"
        moreover have "r \<noteq> RecoverTx" "r \<noteq> DetectTx" using Some by auto
        ultimately have "handle (transact env c r) w = (Inl (401, Detail ''Invalid bearer token'', []), w)"
          by (intro unauthorized_has_no_effect) (simp_all add: authorized_def)
        with Inr show False by (cases p) (simp add: handle_def run_tx_def)
      qed
      have "lock_reachable env c (lone_tx d r [] (rev (lock_plan r)))"
        using lone_ready [OF Some transaction(3) auth idle, of w "fst p" "snd p"] Inr w by (cases p) simp
      moreover have "lock_step env c (lone_tx d r [] (rev (lock_plan r))) (Answered r w res) (idle_locks d')"
      proof -
        have inv: "db_inv d" using lock_reachable_inv [OF idle] by (simp add: lock_inv_def)
        have b: "based i (plan_workers r) d d" using inv by (simp add: based_def db_inv_def)
        have run: "run_tx (transact env c r) (w\<lparr>db := d\<rparr>) = (res, w')" using transaction(5) w by simp
        have "d' = publish i d (db w') d"
          using local_replay [OF b transact_local [OF Some b] run] run p transaction(2) by auto
        with lone_ends [OF Some transaction(4)] run p show ?thesis by simp
      qed
      ultimately show ?thesis by (rule lock_reachable_extend)
    qed
  qed
qed

lemma reachable_idle:
  assumes "reachable env c d"
  shows "lock_reachable env c (idle_locks d)"
  using assms unfolding reachable_def
proof (induction rule: rtranclp_induct)
  case base
  show ?case by (simp add: lock_reachable_def lock_start_def)
next
  case (step d d')
  then show ?case by (blast intro: serial_interleaves)
qed

section \<open>What the locks guarantee\<close>

text \<open>
  C3: serializability. The databases that transactions interleaved under the row locks commit are
  exactly those the transactions reach when run one after another: what an interleaving commits is
  reachable by whole requests in some order, and every serial run is an interleaving.
\<close>

theorem interleaving_equals_serial:
  "reachable env c d \<longleftrightarrow> (\<exists>s. lock_reachable env c s \<and> committed s = d)"
proof
  assume "reachable env c d"
  then show "\<exists>s. lock_reachable env c s \<and> committed s = d" using reachable_idle by force
qed (auto intro: committed_reachable)

text \<open>
  C4: no stale answer. A request on a job reads the worker and the job when it is granted their
  locks and is answered later, after other transactions may have committed; its answer is the one
  it gets when it runs as a whole on the tables committed at that moment, and what it
  commits is what such a run leaves.
\<close>

theorem answers_are_serial:
  assumes "lock_reachable env c s" and "lock_step env c s (Answered r w res) s'"
  shows "\<exists>w'. run_tx (transact env c r) (w\<lparr>db := committed s\<rparr>) = (res, w') \<and> db w' = committed s'"
  using step_answers [OF lock_reachable_inv [OF assms(1)] assms(2)] by (auto simp: serial_answer_def)

definition demo_start_request :: request where
  "demo_start_request = StartReq demo_worker 10 \<lparr>as_worker_id = ''w1'', as_token = 20\<rparr> (Some demo_session)"

lemma demo_start_transact:
  "transact demo_env demo_settings demo_start_request (demo_world demo_leased 4000 30)
     = Inr ((), (tick (tick (tick (demo_world demo_leased 4000 30))))\<lparr>db := demo_running\<rparr>)"
proof -
  have "workers demo_leased = [demo_worker_row]" by (simp add: demo_dbs)
  then show ?thesis
    using demo_start unfolding demo_start_request_def
    by (simp add: effect_def start_route_def tx_bind_def demo_auth demo_identity tx_return_def)
qed

lemma demo_world_db [simp]: "(demo_world d t u)\<lparr>db := d'\<rparr> = demo_world d' t u"
  by (simp add: demo_world_def)

lemma demo_lone: "lock_reachable demo_env demo_settings
    (lone_tx demo_leased demo_start_request [] [JobRow 10, WorkerRow ''w1''])"
proof -
  have "target demo_start_request = Some 10" "accepted demo_env demo_start_request"
    "authorized demo_settings demo_start_request"
    by (simp_all add: demo_start_request_def Assignment_accepted_def demo_identity_ok authorized_def
        demo_worker_def demo_settings_def)
  from lone_ready [OF this reachable_idle [OF demo_leased_reachable], of "demo_world demo_leased 4000 30"]
    demo_start_transact
  show ?thesis by (simp add: demo_start_request_def)
qed

theorem answers_are_serial_witness:
  "\<exists>w'. run_tx (transact demo_env demo_settings demo_start_request) (demo_world demo_leased 4000 30)
       = (Inr (), w') \<and> db w' = publish 10 demo_leased demo_running demo_leased"
proof -
  let ?s = "lone_tx demo_leased demo_start_request [] [JobRow 10, WorkerRow ''w1'']"
  let ?w = "demo_world demo_leased 4000 30"
  have "run_tx (transact demo_env demo_settings demo_start_request) (?w\<lparr>db := demo_leased\<rparr>)
    = (Inr (), (tick (tick (tick ?w)))\<lparr>db := demo_running\<rparr>)"
    using demo_start_transact by (simp add: run_tx_def)
  from lone_ends [OF _ demo_scan this]
  have "lock_step demo_env demo_settings ?s (Answered demo_start_request ?w (Inr ()))
      (idle_locks (publish 10 demo_leased demo_running demo_leased))"
    by (simp add: demo_start_request_def)
  from answers_are_serial [OF demo_lone this] show ?thesis by simp
qed

text \<open>A transaction waits for another when that one holds the lock it needs next.\<close>

definition blocked_by :: "lock_state \<Rightarrow> nat \<Rightarrow> nat \<Rightarrow> bool" where
  "blocked_by s t u \<longleftrightarrow> (\<exists>x y l ls. open_txs s t = Some x \<and> open_txs s u = Some y
     \<and> tx_todo x = l # ls \<and> l \<in> set (tx_held y))"

lemma holder_of_job_ready:
  assumes ok: "tx_ok env c d x" and held: "JobRow i \<in> set (tx_held x)"
  shows "tx_todo x = []"
proof -
  have r: "target (tx_request x) \<noteq> None" and plan: "rev (tx_held x) @ tx_todo x = lock_plan (tx_request x)"
    using ok by (simp_all add: tx_ok_def)
  have "JobRow i \<in> set (rev (tx_held x))" using held by simp
  from r show ?thesis
    by (cases rule: plan_shape)
      (use plan \<open>JobRow i \<in> set (rev (tx_held x))\<close> in \<open>auto simp: append_eq_Cons_conv\<close>)
qed

lemma holder_of_worker_next:
  assumes ok: "tx_ok env c d x" and held: "WorkerRow v \<in> set (tx_held x)"
  shows "tx_todo x = [] \<or> (\<exists>i. tx_todo x = [JobRow i])"
proof -
  have r: "target (tx_request x) \<noteq> None" and plan: "rev (tx_held x) @ tx_todo x = lock_plan (tx_request x)"
    using ok by (simp_all add: tx_ok_def)
  have "WorkerRow v \<in> set (rev (tx_held x))" using held by simp
  from r show ?thesis
    by (cases rule: plan_shape)
      (use plan \<open>WorkerRow v \<in> set (rev (tx_held x))\<close> in \<open>auto simp: append_eq_Cons_conv\<close>)
qed

lemma wait_chain_ends:
  assumes inv: "lock_inv env c s" and "blocked_by s t u" "blocked_by s u v"
  shows "\<not> blocked_by s v z"
proof -
  have ok: "\<And>t x. open_txs s t = Some x \<Longrightarrow> tx_ok env c (committed s) x"
    using inv by (simp add: lock_inv_def)
  from assms(2,3) obtain y l m ls z' where y: "open_txs s u = Some y" "l \<in> set (tx_held y)" "tx_todo y = m # ls"
    and z': "open_txs s v = Some z'" "m \<in> set (tx_held z')"
    by (auto simp: blocked_by_def)
  have "\<exists>i. m = JobRow i"
  proof (cases l)
    case (WorkerRow v)
    with holder_of_worker_next [OF ok [OF y(1)]] y(2,3) show ?thesis by fastforce
  next
    case (JobRow i)
    with y(2) have "tx_todo y = []" by (intro holder_of_job_ready [OF ok [OF y(1)]]) simp
    with y(3) show ?thesis by simp
  qed
  with holder_of_job_ready [OF ok [OF z'(1)]] z' show ?thesis by (auto simp: blocked_by_def)
qed

text \<open>An open transaction can go on: it is granted its next lock, or it is answered and over.\<close>

definition moves :: "env \<Rightarrow> settings \<Rightarrow> lock_state \<Rightarrow> nat \<Rightarrow> bool" where
  "moves env c s t \<longleftrightarrow> (\<exists>x lab s'. open_txs s t = Some x \<and> lock_step env c s lab s'
    \<and> (open_txs s' t = None \<and> (\<exists>w res. lab = Answered (tx_request x) w res)
       \<or> (\<exists>l x'. open_txs s' t = Some x' \<and> tx_todo x = l # tx_todo x' \<and> tx_held x' = l # tx_held x)))"

lemma unblocked_moves:
  assumes inv: "lock_inv env c s" and x: "open_txs s t = Some x" and free: "\<forall>u. \<not> blocked_by s t u"
  shows "moves env c s t"
proof -
  define w where "w = demo_world empty_db 0 0"
  have scan: "scan_ok w" by (simp add: w_def demo_scan)
  have ok: "tx_ok env c (committed s) x" using inv x by (simp add: lock_inv_def)
  show ?thesis
  proof (cases "tx_todo x")
    case Nil
    obtain i where i: "target (tx_request x) = Some i" using ok by (auto simp: tx_ok_def)
    obtain res w' where "run_tx (transact env c (tx_request x)) (w\<lparr>db := tx_seen x\<rparr>) = (res, w')"
      by (metis surj_pair)
    from lock_step.ends [OF x Nil i scan this] x show ?thesis unfolding moves_def by fastforce
  next
    case (Cons l ls)
    have untaken: "\<not> taken s l" using free x Cons by (auto simp: taken_def blocked_by_def)
    show ?thesis
    proof (cases "row_exists l (committed s)")
      case False
      obtain res w' where "run_tx (transact env c (tx_request x))
          (w\<lparr>db := reread l (committed s) (tx_seen x)\<rparr>) = (res, w')"
        by (metis surj_pair)
      from lock_step.absent [OF x Cons False scan this] x show ?thesis unfolding moves_def by fastforce
    next
      case True
      let ?gate = "gate env (tx_request x) (w\<lparr>db := tx_seen x\<rparr>)"
      show ?thesis
      proof (cases "(\<exists>i. l = JobRow i) \<and> (\<exists>e. ?gate = Inl e)")
        case refused: True
        then obtain i e where e: "tx_todo x = [JobRow i]" "?gate = Inl e"
          using Cons waits_for_job(2) [OF ok] by auto
        from lock_step.refuses [OF x e(1) scan e(2)] x show ?thesis unfolding moves_def by fastforce
      next
        case False
        have "\<forall>i. l = JobRow i \<longrightarrow> ?gate = Inr ((), w\<lparr>db := tx_seen x\<rparr>)"
          using False gate_passes by (cases ?gate) fastforce+
        from lock_step.locks [OF x Cons untaken True this] x Cons show ?thesis unfolding moves_def by fastforce
      qed
    qed
  qed
qed

text \<open>
  C23: no deadlock. Every open transaction waits, directly or through at most one other, for a
  transaction that is itself not waiting; and that one can go on: it is granted its next lock, or it
  is answered and releases its locks. So the order worker before job never closes a cycle.
\<close>

theorem row_locks_never_deadlock:
  assumes "lock_reachable env c s" and "open_txs s t = Some x"
  shows "\<exists>u. (u = t \<or> blocked_by s t u \<or> (\<exists>v. blocked_by s t v \<and> blocked_by s v u)) \<and> moves env c s u"
proof -
  note inv = lock_reachable_inv [OF assms(1)]
  have opened: "\<exists>y. open_txs s u = Some y" if "blocked_by s v u" for u v
    using that by (auto simp: blocked_by_def)
  obtain u where chain: "u = t \<or> blocked_by s t u \<or> (\<exists>v. blocked_by s t v \<and> blocked_by s v u)"
    and free: "\<forall>z. \<not> blocked_by s u z"
  proof (cases "\<exists>v u. blocked_by s t v \<and> blocked_by s v u")
    case True
    then obtain v u where vu: "blocked_by s t v" "blocked_by s v u" by blast
    show thesis by (rule that [of u]) (use vu wait_chain_ends [OF inv vu] in blast)+
  next
    case none: False
    show thesis
    proof (cases "\<exists>u. blocked_by s t u")
      case True
      then obtain u where "blocked_by s t u" by blast
      with none show thesis by (intro that [of u]) blast+
    qed (rule that [of t], blast+)
  qed
  from chain obtain y where "open_txs s u = Some y" using opened assms(2) by blast
  from unblocked_moves [OF inv this free] chain show ?thesis by blast
qed

theorem row_locks_never_deadlock_witness:
  "\<exists>u. (u = 0 \<or> blocked_by (lone_tx demo_leased demo_start_request [] [JobRow 10, WorkerRow ''w1'']) 0 u
      \<or> (\<exists>v. blocked_by (lone_tx demo_leased demo_start_request [] [JobRow 10, WorkerRow ''w1'']) 0 v
        \<and> blocked_by (lone_tx demo_leased demo_start_request [] [JobRow 10, WorkerRow ''w1'']) v u))
    \<and> moves demo_env demo_settings
        (lone_tx demo_leased demo_start_request [] [JobRow 10, WorkerRow ''w1'']) u"
  by (rule row_locks_never_deadlock [OF demo_lone]) simp

end
