(* ===== verification/Live.thy ===== *)
theory Live
  imports Harness
begin

text \<open>
  Scripts that drive a live cluster (\<^verbatim>\<open>scripts/experiments.py\<close>, \<^verbatim>\<open>scripts/check_compose.py\<close>,
  \<^verbatim>\<open>scripts/side_effects.py\<close>, \<^verbatim>\<open>benchmarks/run.py\<close>) as programs that act and are answered. The
  operating system, the network, the clock and the deployment are a parameter: \<open>env h a\<close> is the
  answer to action \<open>a\<close> after the exchange \<open>h\<close>, any function at all; an answer \<open>Raised\<close> is an
  exception. What is proved of a script holds whatever the deployment does.
\<close>

section \<open>Actions and answers\<close>

text \<open>The processes a script holds handles of: the coordinators in the order they were started, and named ones.\<close>

datatype proc = Coordinator_proc nat | Named_proc string

text \<open>What a script does with a page of the browser: elements are named by label, role or selector.\<close>

datatype page_call =
    Goto string
  | Fill string string
  | Click string
  | Expect_text string string
  | Label_of string
  | Focus string
  | Wait_ms nat
  | Evaluate string
  | Texts_of string
  | Select_option string string
  | Content
  | Screenshot string
  | Viewport nat nat
  | Count_of string
  | Page_errors
  | Close_browser

text \<open>
  The calls of the harness: \<^verbatim>\<open>Cluster(...)\<close> and its \<^verbatim>\<open>__exit__\<close>, \<^verbatim>\<open>worker\<close>, \<^verbatim>\<open>start_coordinator\<close>, \<^verbatim>\<open>launch\<close> and
  waiting for the exit code, \<^verbatim>\<open>kill\<close>, \<^verbatim>\<open>submit\<close>, \<^verbatim>\<open>complete\<close>, \<^verbatim>\<open>get\<close>, the \<^verbatim>\<open>wait_for\<close> on a status; those of the
  HTTP client and of SQL; clock, sleep, output and the results file.
\<close>

datatype action =
    Open_cluster "(string \<times> string) list"
  | Close_cluster
  | Start_worker string "(string \<times> string) list"
  | Start_coordinator "nat option"
  | Free_port
  | Launch string "string list" "(string \<times> string) list"
  | Wait_exit string rat
  | Kill proc
  | Run_command "string list"
  | Submit_job json
  | Complete_jobs "string list"
  | Wait_job_status string string
  | Wait_worker_state string string
  | Wait_healthy
  | Get_attempts string
  | Wait_healthy_workers nat rat
  | Wait_all_succeeded "string list" rat
  | Get_operations
  | Http_status_of string
  | Http_text_of string
  | Count_effects string
  | Post_job json
  | Settings_url
  | File_exists string
  | Run_sql string
  | Monotonic
  | Sleep rat
  | Fresh_hex
  | Client_token
  | Getenv string
  | Open_playwright
  | Close_playwright
  | Launch_browser "string option"
  | Browse page_call
  | Measure nat string
  | Machine
  | Save_plot string json
  | Say string
  | Write_results string json

datatype answer =
    Done
  | Name string
  | Names "string list"
  | Doc json
  | Num nat
  | Time rat
  | Truth bool
  | Table "(string \<times> nat) list"
  | Attempts_seen "(string \<times> string option) list"
  | Ops nat "(nat \<times> nat) list"
  | Address string nat
  | Raised string

type_synonym trace = "(action \<times> answer) list"
type_synonym answers = "trace \<Rightarrow> action \<Rightarrow> answer"
type_synonym 'a live = "trace \<Rightarrow> (string + 'a) \<times> trace"

definition act :: "answers \<Rightarrow> action \<Rightarrow> answer live" where
  "act env a h =
     (let r = env h a in ((case r of Raised e \<Rightarrow> Inl e | _ \<Rightarrow> Inr r), h @ [(a, r)]))"

definition live_return :: "'a \<Rightarrow> 'a live" where
  "live_return x h = (Inr x, h)"

definition live_fail :: "string \<Rightarrow> 'a live" where
  "live_fail e h = (Inl e, h)"

definition live_bind :: "'a live \<Rightarrow> ('a \<Rightarrow> 'b live) \<Rightarrow> 'b live" where
  "live_bind m f h = (case m h of (Inl e, h1) \<Rightarrow> (Inl e, h1) | (Inr x, h1) \<Rightarrow> f x h1)"

text \<open>A statement, and the assertion of Python.\<close>

definition live_then :: "'a live \<Rightarrow> 'b live \<Rightarrow> 'b live" where
  "live_then m k = live_bind m (\<lambda>_. k)"

definition live_assert :: "bool \<Rightarrow> unit live" where
  "live_assert b = (if b then live_return () else live_fail ''AssertionError'')"

text \<open>A list comprehension whose element is a call.\<close>

fun live_each :: "('a \<Rightarrow> 'b live) \<Rightarrow> 'a list \<Rightarrow> 'b list live" where
  "live_each f [] = live_return []"
| "live_each f (x # xs) = live_bind (f x) (\<lambda>y. live_bind (live_each f xs) (\<lambda>ys. live_return (y # ys)))"

text \<open>Reading an answer as what the call returns; another shape would be a failure of the caller.\<close>

definition reading :: "(answer \<Rightarrow> 'a option) \<Rightarrow> answer live \<Rightarrow> 'a live" where
  "reading view m = live_bind m (\<lambda>r. case view r of Some x \<Rightarrow> live_return x | None \<Rightarrow> live_fail ''TypeError'')"

fun the_name :: "answer \<Rightarrow> string option" where "the_name (Name s) = Some s" | "the_name _ = None"
fun the_names :: "answer \<Rightarrow> string list option" where "the_names (Names l) = Some l" | "the_names _ = None"
fun the_doc :: "answer \<Rightarrow> json option" where "the_doc (Doc j) = Some j" | "the_doc _ = None"
fun the_num :: "answer \<Rightarrow> nat option" where "the_num (Num n) = Some n" | "the_num _ = None"
fun the_time :: "answer \<Rightarrow> rat option" where "the_time (Time t) = Some t" | "the_time _ = None"
fun the_truth :: "answer \<Rightarrow> bool option" where "the_truth (Truth b) = Some b" | "the_truth _ = None"
fun the_table :: "answer \<Rightarrow> (string \<times> nat) list option" where "the_table (Table t) = Some t" | "the_table _ = None"
fun the_attempts :: "answer \<Rightarrow> (string \<times> string option) list option" where
  "the_attempts (Attempts_seen l) = Some l" | "the_attempts _ = None"
fun the_ops :: "answer \<Rightarrow> (nat \<times> (nat \<times> nat) list) option" where
  "the_ops (Ops n ws) = Some (n, ws)" | "the_ops _ = None"
fun the_address :: "answer \<Rightarrow> (string \<times> nat) option" where
  "the_address (Address host port) = Some (host, port)" | "the_address _ = None"

text \<open>
  \<^verbatim>\<open>with ... as ...\<close>: when entering raises the body does not run and \<^verbatim>\<open>__exit__\<close> is not called; otherwise
  \<^verbatim>\<open>__exit__\<close> runs after the body, also when the body raised.
\<close>

definition with_block :: "answers \<Rightarrow> action \<Rightarrow> action \<Rightarrow> 'a live \<Rightarrow> 'a live" where
  "with_block env enter leave body h =
     (case act env enter h of
        (Inl e, h1) \<Rightarrow> (Inl e, h1)
      | (Inr _, h1) \<Rightarrow>
          (case body h1 of (r, h2) \<Rightarrow>
             (case act env leave h2 of
                (Inl e, h3) \<Rightarrow> (Inl e, h3)
              | (Inr _, h3) \<Rightarrow> (r, h3))))"

text \<open>\<^verbatim>\<open>with Cluster(...) as cluster\<close>.\<close>

definition with_cluster :: "answers \<Rightarrow> (string \<times> string) list \<Rightarrow> 'a live \<Rightarrow> 'a live" where
  "with_cluster env overrides body = with_block env (Open_cluster overrides) Close_cluster body"

section \<open>The harness\<close>

text \<open>\<^verbatim>\<open>Cluster.submit(task="sleep", args=None, **kwargs)\<close>: the body it posts.\<close>

definition submit_body :: "string \<Rightarrow> json option \<Rightarrow> (string \<times> json) list \<Rightarrow> json" where
  "submit_body task args kwargs =
     JObj ([(''task'', JStr task),
            (''args'', case args of None \<Rightarrow> JObj [(''seconds'', JFloat (1 / 10))]
                       | Some a \<Rightarrow> if a = JObj [] then JObj [(''seconds'', JFloat (1 / 10))] else a)] @ kwargs)"

definition submit_call :: "answers \<Rightarrow> string \<Rightarrow> json option \<Rightarrow> (string \<times> json) list \<Rightarrow> string live" where
  "submit_call env task args kwargs = reading the_name (act env (Submit_job (submit_body task args kwargs)))"

section \<open>Reasoning about scripts\<close>

named_theorems live_simps \<open>inversion of the steps of a script\<close>

lemma act_Inr [live_simps]:
  "act env a h = (Inr r, h') \<longleftrightarrow> r = env h a \<and> (\<forall>e. r \<noteq> Raised e) \<and> h' = h @ [(a, r)]"
  by (auto simp: act_def Let_def split: answer.splits)

lemma live_return_iff [live_simps]: "live_return x h = (r, h') \<longleftrightarrow> r = Inr x \<and> h' = h"
  by (auto simp: live_return_def)

lemma live_fail_iff [live_simps]: "live_fail e h = (r, h') \<longleftrightarrow> r = Inl e \<and> h' = h"
  by (auto simp: live_fail_def)

lemma live_bind_Inr [live_simps]:
  "live_bind m f h = (Inr y, h') \<longleftrightarrow> (\<exists>x h1. m h = (Inr x, h1) \<and> f x h1 = (Inr y, h'))"
  by (auto simp: live_bind_def split: prod.splits sum.splits)

lemma live_then_Inr [live_simps]:
  "live_then m k h = (Inr y, h') \<longleftrightarrow> (\<exists>x h1. m h = (Inr x, h1) \<and> k h1 = (Inr y, h'))"
  by (simp add: live_then_def live_bind_Inr)

lemma live_assert_Inr [live_simps]: "live_assert b h = (Inr u, h') \<longleftrightarrow> b \<and> h' = h"
  by (auto simp: live_assert_def live_return_def live_fail_def)

lemma reading_Inr [live_simps]:
  "reading view m h = (Inr x, h') \<longleftrightarrow> (\<exists>r. m h = (Inr r, h') \<and> view r = Some x)"
  by (auto simp: reading_def live_bind_Inr live_return_iff live_fail_iff split: option.splits)

lemma the_simps [live_simps]:
  "the_name r = Some s \<longleftrightarrow> r = Name s" "the_names r = Some ss \<longleftrightarrow> r = Names ss" "the_doc r = Some j \<longleftrightarrow> r = Doc j"
  "the_num r = Some n \<longleftrightarrow> r = Num n" "the_time r = Some t \<longleftrightarrow> r = Time t"
  "the_truth r = Some b \<longleftrightarrow> r = Truth b" "the_table r = Some l \<longleftrightarrow> r = Table l"
  "the_attempts r = Some k \<longleftrightarrow> r = Attempts_seen k"
  "the_ops r = Some p \<longleftrightarrow> r = Ops (fst p) (snd p)" "the_address r = Some q \<longleftrightarrow> r = Address (fst q) (snd q)"
  by (cases r; auto)+

text \<open>What a script has on its hands after an exchange: clusters open, and the results it has written.\<close>

definition opened :: "trace \<Rightarrow> nat" where
  "opened h = length (filter (\<lambda>(a, r). (\<exists>o'. a = Open_cluster o') \<and> (\<forall>e. r \<noteq> Raised e)) h)"

definition closings :: "trace \<Rightarrow> nat" where
  "closings h = length (filter (\<lambda>(a, r). a = Close_cluster) h)"

definition written :: "trace \<Rightarrow> (string \<times> json) list" where
  "written h = List.map_filter (\<lambda>(a, r). case a of
     Write_results p j \<Rightarrow> (case r of Raised e \<Rightarrow> None | _ \<Rightarrow> Some (p, j)) | _ \<Rightarrow> None) h"

fun plain :: "action \<Rightarrow> bool" where
  "plain (Open_cluster x) = False" | "plain Close_cluster = False" | "plain (Write_results p j) = False"
| "plain _ = True"

text \<open>A program is tidy if, however it ends, it closes what it opened and writes no results.\<close>

definition tidy :: "'a live \<Rightarrow> bool" where
  "tidy m \<longleftrightarrow> (\<forall>h r h'. m h = (r, h') \<longrightarrow>
     (\<exists>k. h' = h @ k \<and> opened k = closings k \<and> written k = []))"

lemma trace_append [simp]:
  "opened (h @ k) = opened h + opened k" "closings (h @ k) = closings h + closings k"
  "written (h @ k) = written h @ written k"
  by (simp_all add: opened_def closings_def written_def map_filter_def)

lemma trace_Nil [simp]: "opened [] = 0" "closings [] = 0" "written [] = []"
  by (simp_all add: opened_def closings_def written_def map_filter_def)

lemma trace_plain [simp]:
  assumes "plain a"
  shows "opened [(a, r)] = 0" "closings [(a, r)] = 0" "written [(a, r)] = []"
  using assms by (cases a; simp add: opened_def closings_def written_def map_filter_def)+

lemma trace_results [simp]:
  "opened [(Write_results p j, r)] = 0" "closings [(Write_results p j, r)] = 0"
  "written [(Write_results p j, r)] = (case r of Raised e \<Rightarrow> [] | _ \<Rightarrow> [(p, j)])"
  by (simp_all add: opened_def closings_def written_def map_filter_def split: answer.split)

lemma tidy_act: "plain a \<Longrightarrow> tidy (act env a)"
  by (auto simp: tidy_def act_def Let_def)

lemma tidy_return: "tidy (live_return x)" and tidy_fail: "tidy (live_fail e)"
  by (auto simp: tidy_def live_return_def live_fail_def)

lemma tidy_bind:
  assumes "tidy m" and "\<And>x. tidy (f x)"
  shows "tidy (live_bind m f)"
  unfolding tidy_def
proof (intro allI impI)
  fix h r h'
  assume run: "live_bind m f h = (r, h')"
  obtain q h1 where m: "m h = (q, h1)" by (metis surj_pair)
  then obtain k where k: "h1 = h @ k" "opened k = closings k" "written k = []"
    using assms(1) unfolding tidy_def by blast
  show "\<exists>k. h' = h @ k \<and> opened k = closings k \<and> written k = []"
  proof (cases q)
    case (Inl e)
    with run m k show ?thesis by (auto simp: live_bind_def)
  next
    case (Inr x)
    with run m have "f x h1 = (r, h')" by (simp add: live_bind_def)
    then obtain k' where "h' = h1 @ k'" "opened k' = closings k'" "written k' = []"
      using assms(2) unfolding tidy_def by blast
    with k show ?thesis by (intro exI [of _ "k @ k'"]) auto
  qed
qed

lemma tidy_then: "tidy m \<Longrightarrow> tidy k \<Longrightarrow> tidy (live_then m k)"
  unfolding live_then_def by (rule tidy_bind)

lemma tidy_assert: "tidy (live_assert b)"
  by (simp add: live_assert_def tidy_return tidy_fail)

lemma tidy_reading: "tidy m \<Longrightarrow> tidy (reading view m)"
  unfolding reading_def by (intro tidy_bind) (auto simp: tidy_return tidy_fail split: option.splits)

lemma tidy_each: "(\<And>x. tidy (f x)) \<Longrightarrow> tidy (live_each f xs)"
  by (induction xs) (auto intro!: tidy_bind tidy_return)

lemma tidy_submit: "tidy (submit_call env task args kwargs)"
  unfolding submit_call_def by (intro tidy_reading tidy_act) simp

lemmas tidy_intros = tidy_act tidy_return tidy_fail tidy_bind tidy_then tidy_assert tidy_reading
  tidy_each tidy_submit

text \<open>
  A cluster whose \<^verbatim>\<open>__exit__\<close> is reached is closed; only a constructor that raises leaves one
  behind, and it does not count as opened.
\<close>

lemma tidy_cluster:
  assumes "tidy body"
  shows "tidy (with_cluster env overrides body)"
  unfolding tidy_def
proof (intro allI impI)
  fix h r h'
  assume run: "with_cluster env overrides body h = (r, h')"
  let ?a = "Open_cluster overrides"
  show "\<exists>k. h' = h @ k \<and> opened k = closings k \<and> written k = []"
  proof (cases "\<exists>e. env h ?a = Raised e")
    case True
    with run show ?thesis
      by (auto simp: with_cluster_def with_block_def act_def Let_def opened_def closings_def written_def map_filter_def)
  next
    case False
    obtain q h2 where b: "body (h @ [(?a, env h ?a)]) = (q, h2)" by (metis surj_pair)
    then obtain k where k: "h2 = (h @ [(?a, env h ?a)]) @ k" "opened k = closings k" "written k = []"
      using assms unfolding tidy_def by blast
    have act: "act env ?a h = (Inr (env h ?a), h @ [(?a, env h ?a)])"
      using False by (auto simp: act_def Let_def split: answer.splits)
    have "h' = h2 @ [(Close_cluster, env h2 Close_cluster)]"
      using run b act by (auto simp: with_cluster_def with_block_def act_def [of env Close_cluster] Let_def split: answer.splits sum.splits)
    moreover have "opened [(?a, env h ?a)] = 1" "closings [(?a, env h ?a)] = 0" "written [(?a, env h ?a)] = []"
      "opened [(Close_cluster, x)] = 0" "closings [(Close_cluster, x)] = 1" "written [(Close_cluster, x)] = []" for x
      using False by (auto simp: opened_def closings_def written_def map_filter_def)
    moreover have "opened ([p] @ k @ [q]) = closings ([p] @ k @ [q])" "written ([p] @ k @ [q]) = []"
      if "opened [p] = 1" "closings [p] = 0" "written [p] = []" "opened [q] = 0" "closings [q] = 1" "written [q] = []"
      for p q
      unfolding trace_append using that k by simp_all
    ultimately show ?thesis using k(1)
      by (intro exI [of _ "[(?a, env h ?a)] @ k @ [(Close_cluster, env h2 Close_cluster)]"]) (metis append_assoc)
  qed
qed

lemma with_cluster_Inr [live_simps]:
  "with_cluster env overrides body h = (Inr x, h') \<longleftrightarrow>
     (\<exists>r0 h2. act env (Open_cluster overrides) h = (Inr r0, h @ [(Open_cluster overrides, r0)])
        \<and> body (h @ [(Open_cluster overrides, r0)]) = (Inr x, h2)
        \<and> (\<exists>r1. act env Close_cluster h2 = (Inr r1, h')))"
  by (auto simp: with_cluster_def with_block_def act_Inr split: prod.splits sum.splits)
    (auto simp: act_def Let_def split: answer.splits)

text \<open>Calls that are answered one by one.\<close>

lemma live_each_answered:
  assumes "\<And>x h. f x h = (Inr (g x), h @ [p x])"
  shows "live_each f xs h = (Inr (map g xs), h @ map p xs)"
  by (induction xs arbitrary: h) (simp_all add: live_bind_def live_return_def assms)

text \<open>How a script that writes its results last can end.\<close>

lemma act_cases:
  obtains (raised) e where "act env a h = (Inl e, h @ [(a, Raised e)])"
  | (answered) r where "act env a h = (Inr r, h @ [(a, r)])" and "\<And>e. r \<noteq> Raised e"
proof (cases "\<exists>e. env h a = Raised e")
  case True
  then show ?thesis by (auto intro: raised simp: act_def)
next
  case False
  then show ?thesis by (intro answered [of "env h a"]) (auto simp: act_def Let_def split: answer.splits)
qed

lemma tidy_run:
  assumes "tidy m" and "m [] = (r, h)"
  shows "opened h = closings h" and "written h = []"
  using assms unfolding tidy_def by (metis append_Nil)+

lemma results_last:
  assumes m: "tidy m" and tail: "\<And>x. tidy (tail x)"
    and run: "live_bind m (\<lambda>x. live_then (act env (Write_results path (f x))) (tail x)) [] = (r, h)"
  shows "opened h = closings h"
    and "r = Inr y \<Longrightarrow> \<exists>x h0. m [] = (Inr x, h0) \<and> set h0 \<subseteq> set h \<and> written h = [(path, f x)]
      \<and> (\<exists>h1. tail x h1 = (Inr y, h))"
    and "written h \<noteq> [] \<Longrightarrow> \<exists>x h0. m [] = (Inr x, h0) \<and> set h0 \<subseteq> set h \<and> written h = [(path, f x)]"
proof -
  obtain q h0 where q: "m [] = (q, h0)" by (metis surj_pair)
  note t = tidy_run [OF m q]
  have "opened h = closings h
    \<and> (\<forall>y. r = Inr y \<longrightarrow> (\<exists>x h0. m [] = (Inr x, h0) \<and> set h0 \<subseteq> set h \<and> written h = [(path, f x)]
          \<and> (\<exists>h1. tail x h1 = (Inr y, h))))
    \<and> (written h \<noteq> [] \<longrightarrow> (\<exists>x h0. m [] = (Inr x, h0) \<and> set h0 \<subseteq> set h \<and> written h = [(path, f x)]))"
  proof (cases q)
    case (Inl e)
    with run q t show ?thesis by (auto simp: live_bind_def)
  next
    case (Inr x)
    show ?thesis
    proof (cases rule: act_cases [of env "Write_results path (f x)" h0])
      case (raised e)
      with run q t Inr show ?thesis by (auto simp: live_bind_def live_then_def)
    next
      case (answered a)
      let ?h1 = "h0 @ [(Write_results path (f x), a)]"
      have w: "written ?h1 = [(path, f x)]" "opened ?h1 = closings ?h1"
        using t answered(2) by (auto split: answer.split)
      have end_run: "tail x ?h1 = (r, h)"
        using run q Inr answered(1) by (simp add: live_bind_def live_then_def)
      then obtain k where k: "h = ?h1 @ k" "opened k = closings k" "written k = []"
        using tail unfolding tidy_def by blast
      have "opened h = closings h" "written h = [(path, f x)]" "set h0 \<subseteq> set h"
        unfolding k(1) trace_append using w k(2,3) by auto
      with q Inr end_run show ?thesis by blast
    qed
  qed
  then show "opened h = closings h"
    "r = Inr y \<Longrightarrow> \<exists>x h0. m [] = (Inr x, h0) \<and> set h0 \<subseteq> set h \<and> written h = [(path, f x)]
      \<and> (\<exists>h1. tail x h1 = (Inr y, h))"
    "written h \<noteq> [] \<Longrightarrow> \<exists>x h0. m [] = (Inr x, h0) \<and> set h0 \<subseteq> set h \<and> written h = [(path, f x)]"
    by blast+
qed

text \<open>What an exchange contains.\<close>

definition saw :: "trace \<Rightarrow> action \<Rightarrow> (answer \<Rightarrow> bool) \<Rightarrow> bool" where
  "saw h a P \<longleftrightarrow> (\<exists>r. (a, r) \<in> set h \<and> P r)"

lemma saw_mono: "saw h a P \<Longrightarrow> set h \<subseteq> set h' \<Longrightarrow> saw h' a P"
  by (auto simp: saw_def)

lemma tidy_grows: "tidy m \<Longrightarrow> m h = (r, h') \<Longrightarrow> set h \<subseteq> set h'"
  unfolding tidy_def by fastforce

lemma cluster_run:
  assumes "with_cluster env overrides body h = (Inr x, h')"
  obtains g g' where "body g = (Inr x, g')" and "set h \<subseteq> set g" and "set g' \<subseteq> set h'"
proof -
  from assms obtain r0 h2 r1 where "body (h @ [(Open_cluster overrides, r0)]) = (Inr x, h2)"
    and "act env Close_cluster h2 = (Inr r1, h')" by (auto simp: with_cluster_Inr)
  then show thesis by (intro that) (auto simp: act_Inr)
qed

lemma trace_ends:
  "opened [(Open_cluster x, r)] = (case r of Raised e \<Rightarrow> 0 | _ \<Rightarrow> 1)" "closings [(Open_cluster x, r)] = 0"
  "written [(Open_cluster x, r)] = []" "opened [(Close_cluster, r)] = 0" "closings [(Close_cluster, r)] = 1"
  "written [(Close_cluster, r)] = []"
  by (simp_all add: opened_def closings_def written_def map_filter_def split: answer.split)

text \<open>An entry of a results file that says its check passed.\<close>

definition passed :: "(string \<times> json) list \<Rightarrow> json" where
  "passed entries = JObj (entries @ [(''passed'', JBool True)])"

definition says_passed :: "json \<Rightarrow> bool" where
  "says_passed e \<longleftrightarrow> (\<exists>entries. e = passed entries)"

text \<open>What a block writes, its body has written; and a block whose two ends are plain is as tidy as its body.\<close>

lemma block_body:
  assumes "with_block env enter leave body h = (r, h')"
  obtains (unopened) e where "h' = h @ [(enter, Raised e)]"
  | (ran) r0 r1 q g where "body (h @ [(enter, r0)]) = (q, g)" "h' = g @ [(leave, r1)]" "\<And>e. r0 \<noteq> Raised e"
proof (cases rule: act_cases [of env enter h])
  case (raised e)
  with assms show ?thesis by (intro unopened [of e]) (simp add: with_block_def)
next
  case (answered r0)
  obtain q g where "body (h @ [(enter, r0)]) = (q, g)" by (metis surj_pair)
  moreover from this answered assms have "h' = g @ [(leave, env g leave)]"
    by (auto simp: with_block_def act_def [of env leave] Let_def split: answer.splits)
  ultimately show ?thesis using answered(2) by (intro ran)
qed

lemma tidy_block:
  assumes "plain enter" and "plain leave" and "tidy body"
  shows "tidy (with_block env enter leave body)"
  unfolding tidy_def
proof (intro allI impI)
  fix h r h'
  assume "with_block env enter leave body h = (r, h')"
  then show "\<exists>k. h' = h @ k \<and> opened k = closings k \<and> written k = []"
  proof (cases rule: block_body)
    case (unopened e)
    then show ?thesis using trace_plain [OF assms(1)] by (intro exI [of _ "[(enter, Raised e)]"]) simp
  next
    case (ran r0 r1 q g)
    then obtain k where k: "g = (h @ [(enter, r0)]) @ k" "opened k = closings k" "written k = []"
      using assms(3) unfolding tidy_def by blast
    have "opened ([(enter, r0)] @ k @ [(leave, r1)]) = closings ([(enter, r0)] @ k @ [(leave, r1)])"
      "written ([(enter, r0)] @ k @ [(leave, r1)]) = []"
      unfolding trace_append trace_plain [OF assms(1)] trace_plain [OF assms(2)] using k by simp_all
    then show ?thesis using ran(2) k(1) by (intro exI [of _ "[(enter, r0)] @ k @ [(leave, r1)]"]) simp
  qed
qed

end
