(* ===== verification/Experiments.thy ===== *)
theory Experiments
  imports Live
begin

text \<open>
  \<^verbatim>\<open>scripts/experiments.py\<close>: the demonstrations against real processes, each a function that acts on the
  cluster, asserts what it sees and returns its entry of the evidence; and the main program, which
  writes the evidence when all of them have passed.
\<close>

section \<open>Calls with a status that is checked\<close>

definition monotonic :: "answers \<Rightarrow> rat live" where
  "monotonic env = reading the_time (act env Monotonic)"

definition attempts_call :: "answers \<Rightarrow> string \<Rightarrow> (string \<times> string option) list live" where
  "attempts_call env job = reading the_attempts (act env (Get_attempts job))"

definition running_job :: "answers \<Rightarrow> string live" where
  "running_job env =
     live_bind (submit_call env ''sleep'' (Some (JObj [(''seconds'', JFloat 4)]))
         [(''retry_delay'', JFloat (1 / 10))]) (\<lambda>job.
     live_then (act env (Wait_job_status job ''RUNNING''))
     (live_return job))"

definition outcomes_shown :: "(string \<times> string option) list \<Rightarrow> json" where
  "outcomes_shown seen = JArr (map (\<lambda>a. opt_str (snd a)) seen)"

section \<open>The demonstrations\<close>

definition DISTRIBUTION :: string where
  "DISTRIBUTION = ''SELECT worker_id,count(*) FROM attempts GROUP BY worker_id''"

definition DUPLICATES :: string where
  "DUPLICATES = ''SELECT count(*) FROM (SELECT job_id FROM attempts WHERE outcome='' @ [CHR 0x27] @ ''SUCCEEDED''
     @ [CHR 0x27] @ '' GROUP BY job_id HAVING count(*)>1) x''"

definition demo_names :: "string list" where
  "demo_names = map (\<lambda>i. ''demo-worker-'' @ nat_text i) [0..<3]"

definition distributed_execution :: "answers \<Rightarrow> json live" where
  "distributed_execution env =
     live_then (live_each (\<lambda>name. act env (Start_worker name [])) demo_names) (
     live_bind (monotonic env) (\<lambda>started.
     live_bind (live_each (\<lambda>i. submit_call env ''sleep'' None [(''priority'', JInt (int i mod 4))]) [0..<100]) (\<lambda>ids.
     live_then (act env (Complete_jobs ids)) (
     live_bind (reading the_table (act env (Run_sql DISTRIBUTION))) (\<lambda>distribution.
     live_then (live_assert (length distribution = 3)) (
     live_bind (monotonic env) (\<lambda>now.
     live_then (act env (Say ''PASS: 100 jobs across three workers'')) (
     live_return (passed [(''demo'', JStr ''distributed_execution''), (''jobs'', JInt 100),
       (''distribution'', JObj (map (\<lambda>(w, n). (w, JInt (int n))) distribution)),
       (''seconds'', JFloat (of_int (round_half_even ((now - started) * 1000)) / 1000))])))))))))"

definition worker_killed :: "answers \<Rightarrow> json live" where
  "worker_killed env =
     live_then (live_each (\<lambda>name. act env (Kill (Named_proc name))) demo_names) (
     live_then (act env (Start_worker ''victim'' [(''CAPACITY'', ''1'')])) (
     live_bind (running_job env) (\<lambda>job.
     live_then (act env (Kill (Named_proc ''victim''))) (
     live_then (act env (Start_worker ''survivor'' [])) (
     live_then (act env (Complete_jobs [job])) (
     live_bind (attempts_call env job) (\<lambda>attempts.
     live_then (if attempts = [] then live_fail ''IndexError''
                else live_assert (snd (hd attempts) = Some ''LEASE_EXPIRED'' \<and> length attempts = 2)) (
     live_then (act env (Wait_worker_state ''victim'' ''DEAD'')) (
     live_then (act env (Say ''PASS: killed worker detected; lease recovered'')) (
     live_return (passed [(''demo'', JStr ''worker_killed_during_execution''),
       (''attempts'', outcomes_shown attempts)])))))))))))"

definition coordinator_killed :: "answers \<Rightarrow> json live" where
  "coordinator_killed env =
     live_bind (running_job env) (\<lambda>job.
     live_then (act env (Kill (Coordinator_proc 0))) (
     live_then (act env (Sleep (26 / 10))) (
     live_then (act env (Start_coordinator None)) (
     live_then (act env (Complete_jobs [job])) (
     live_bind (attempts_call env job) (\<lambda>attempts.
     live_then (live_assert (2 \<le> length attempts \<and> snd (last attempts) = Some ''SUCCEEDED'')) (
     live_then (act env (Say ''PASS: coordinator restart reconstructs and recovers work'')) (
     live_return (passed [(''demo'', JStr ''coordinator_killed_and_restarted''),
       (''attempts'', outcomes_shown attempts)])))))))))"

definition two_coordinators :: "answers \<Rightarrow> json live" where
  "two_coordinators env =
     live_bind (reading the_num (act env Free_port)) (\<lambda>port.
     live_then (act env (Start_coordinator (Some port))) (
     live_then (act env (Start_worker ''second-coordinator-worker''
         [(''COORDINATOR_URL'', ''http://127.0.0.1:'' @ nat_text port)])) (
     live_bind (live_each (\<lambda>i. submit_call env ''sleep'' None []) [0..<30]) (\<lambda>ids.
     live_then (act env (Complete_jobs ids)) (
     live_bind (reading the_num (act env (Run_sql DUPLICATES))) (\<lambda>duplicate.
     live_then (live_assert (duplicate = 0)) (
     live_then (act env (Say ''PASS: two coordinators share exclusive claims'')) (
     live_then (act env (Kill (Named_proc ''second-coordinator-worker''))) (
     live_then (act env (Kill (Coordinator_proc 2))) (
     live_return (passed [(''demo'', JStr ''two_active_coordinators''), (''jobs'', JInt 30),
       (''duplicate_successes'', JInt (int duplicate))])))))))))))"

definition retry_and_timeout :: "answers \<Rightarrow> json live" where
  "retry_and_timeout env =
     live_bind (submit_call env ''flaky'' (Some (JObj [(''failures'', JInt 2)]))
         [(''retry_delay'', JFloat (5 / 100)), (''max_retries'', JInt 3)]) (\<lambda>retry.
     live_then (act env (Complete_jobs [retry])) (
     live_bind (attempts_call env retry) (\<lambda>attempts.
     live_then (live_assert (length attempts = 3)) (
     live_bind (submit_call env ''sleep'' (Some (JObj [(''seconds'', JFloat 1)]))
         [(''timeout'', JFloat (5 / 100)), (''max_retries'', JInt 1), (''retry_delay'', JInt 0)]) (\<lambda>timeout.
     live_then (act env (Wait_job_status timeout ''DEAD_LETTER'')) (
     live_then (act env (Say ''PASS: transient failures retry; timeouts reach dead letters'')) (
     live_return (passed [(''demo'', JStr ''retry_and_timeout''), (''retry_attempts'', JInt 3),
       (''timeout_terminal'', JStr ''DEAD_LETTER'')]))))))))"

text \<open>
  \<^verbatim>\<open>try ... finally\<close>: the database is started again whatever happens while it is down; an exception of the
  restart replaces the one of the body.
\<close>

definition live_finally :: "'a live \<Rightarrow> answer live \<Rightarrow> 'a live" where
  "live_finally body cleanup h =
     (case body h of (r, h1) \<Rightarrow>
        (case cleanup h1 of (Inl e, h2) \<Rightarrow> (Inl e, h2) | (Inr _, h2) \<Rightarrow> (r, h2)))"

definition database_outage :: "answers \<Rightarrow> json live" where
  "database_outage env =
     live_bind (reading the_address (act env Settings_url)) (\<lambda>(host, port).
     live_then (live_assert (host = ''127.0.0.1'' \<and> port = 55441)) (
     live_bind (reading the_truth (act env (File_exists ''.runtime/postgres/PG_VERSION''))) (\<lambda>owned_cluster.
     live_then (live_assert owned_cluster) (
     live_bind (running_job env) (\<lambda>job.
     live_then (act env (Run_command [''scripts/local_db.py'', ''stop''])) (
     live_then (live_finally
       (live_bind (reading the_num (act env (Http_status_of ''/health''))) (\<lambda>status.
        live_then (live_assert (status = 503)) (act env (Sleep (25 / 10)))))
       (act env (Run_command [''scripts/local_db.py'', ''start'']))) (
     live_then (act env Wait_healthy) (
     live_then (act env (Complete_jobs [job])) (
     live_then (act env (Say ''PASS: temporary PostgreSQL outage returns 503 and recovers'')) (
     live_return (passed [(''demo'', JStr ''postgresql_outage'')])))))))))))"

definition backpressure :: "answers \<Rightarrow> json live" where
  "backpressure env =
     live_bind (live_each (\<lambda>i. submit_call env ''sleep'' (Some (JObj [(''seconds'', JFloat (4 / 10))])) []) [0..<8]) (\<lambda>ids.
     live_bind (reading the_num (act env (Post_job (JObj [(''task'', JStr ''sleep''),
         (''args'', JObj [(''seconds'', JFloat (1 / 10))])])))) (\<lambda>status.
     live_then (live_assert (status = 429)) (
     live_then (act env (Start_worker ''bounded'' [(''CAPACITY'', ''2'')])) (
     live_bind (reading the_ops (act env Get_operations)) (\<lambda>(depth, loads).
     live_then (live_assert (0 < depth)) (
     live_then (live_assert (\<forall>(running, capacity) \<in> set loads. running \<le> capacity)) (
     live_then (act env (Complete_jobs ids)) (
     live_bind (reading the_ops (act env Get_operations)) (\<lambda>(rest, loads').
     live_then (live_assert (rest = 0)) (
     live_then (act env (Say ''PASS: admission and worker backpressure drain successfully'')) (
     live_return (passed [(''demo'', JStr ''backpressure''), (''admitted'', JInt 8), (''overflow_status'', JInt 429),
       (''capacity'', JInt 2)]))))))))))))"

section \<open>The main program\<close>

definition demonstrations :: "answers \<Rightarrow> bool \<Rightarrow> json list live" where
  "demonstrations env outage =
     live_each (\<lambda>demo. demo env)
       ([distributed_execution, worker_killed, coordinator_killed, two_coordinators, retry_and_timeout]
        @ (if outage then [database_outage] else []))"

definition experiments :: "answers \<Rightarrow> bool \<Rightarrow> json list live" where
  "experiments env outage =
     live_bind (with_cluster env [] (demonstrations env outage)) (\<lambda>first.
     live_bind (with_cluster env [(''QUEUE_LIMIT'', ''8'')] (backpressure env)) (\<lambda>second.
     live_return (first @ [second])))"

definition experiments_main :: "answers \<Rightarrow> bool \<Rightarrow> json list live" where
  "experiments_main env outage =
     live_bind (experiments env outage) (\<lambda>evidence.
     live_then (act env (Write_results ''docs/results/experiments.json'' (JArr evidence))) (
     live_then (act env (Say (''Saved '' @ nat_text (length evidence) @ '' passing experiments''))) (
     live_return evidence)))"

section \<open>Lemmas\<close>

lemma tidy_finally:
  assumes "tidy body" and "tidy cleanup"
  shows "tidy (live_finally body cleanup)"
  unfolding tidy_def
proof (intro allI impI)
  fix h r h'
  assume run: "live_finally body cleanup h = (r, h')"
  obtain q h1 where b: "body h = (q, h1)" by (metis surj_pair)
  obtain p h2 where c: "cleanup h1 = (p, h2)" by (metis surj_pair)
  have "h' = h2" using run b c by (auto simp: live_finally_def split: sum.splits)
  moreover obtain k where "h1 = h @ k" "opened k = closings k" "written k = []"
    using assms(1) b unfolding tidy_def by blast
  moreover obtain k' where "h2 = h1 @ k'" "opened k' = closings k'" "written k' = []"
    using assms(2) c unfolding tidy_def by blast
  ultimately show "\<exists>k. h' = h @ k \<and> opened k = closings k \<and> written k = []"
    by (intro exI [of _ "k @ k'"]) simp
qed

lemmas experiment_defs = distributed_execution_def worker_killed_def coordinator_killed_def
  two_coordinators_def retry_and_timeout_def database_outage_def backpressure_def monotonic_def
  attempts_call_def running_job_def

lemma tidy_demos:
  "tidy (distributed_execution env)" "tidy (worker_killed env)" "tidy (coordinator_killed env)"
  "tidy (two_coordinators env)" "tidy (retry_and_timeout env)" "tidy (database_outage env)"
  "tidy (backpressure env)"
  unfolding experiment_defs by (auto intro!: tidy_intros tidy_finally split: prod.splits)

text \<open>What a demonstration that passes has seen.\<close>

lemma distributed_saw:
  assumes "distributed_execution env h = (Inr e, h')"
  shows "\<exists>t. saw h' (Run_sql DISTRIBUTION) (\<lambda>r. r = Table t) \<and> length t = 3"
  using assms by (auto simp: distributed_execution_def monotonic_def live_simps saw_def)

lemma worker_killed_saw:
  assumes "worker_killed env h = (Inr e, h')"
  shows "\<exists>job l. saw h' (Get_attempts job) (\<lambda>r. r = Attempts_seen l)
    \<and> length l = 2 \<and> snd (hd l) = Some ''LEASE_EXPIRED''"
  using assms
  by (auto simp: worker_killed_def running_job_def attempts_call_def live_simps saw_def split: if_splits) blast+

lemma coordinator_killed_saw:
  assumes "coordinator_killed env h = (Inr e, h')"
  shows "\<exists>job l. saw h' (Get_attempts job) (\<lambda>r. r = Attempts_seen l)
    \<and> 2 \<le> length l \<and> snd (last l) = Some ''SUCCEEDED''"
  using assms
  by (auto simp: coordinator_killed_def running_job_def attempts_call_def live_simps saw_def) blast+

lemma two_coordinators_saw:
  assumes "two_coordinators env h = (Inr e, h')"
  shows "saw h' (Run_sql DUPLICATES) (\<lambda>r. r = Num 0)"
  using assms by (auto simp: two_coordinators_def live_simps saw_def)

lemma retry_saw:
  assumes "retry_and_timeout env h = (Inr e, h')"
  shows "\<exists>job l. saw h' (Get_attempts job) (\<lambda>r. r = Attempts_seen l) \<and> length l = 3"
  using assms by (auto simp: retry_and_timeout_def attempts_call_def submit_call_def live_simps saw_def) blast+

lemma live_finally_Inr [live_simps]:
  "live_finally body cleanup h = (Inr x, h') \<longleftrightarrow>
     (\<exists>h1 r. body h = (Inr x, h1) \<and> cleanup h1 = (Inr r, h'))"
  by (auto simp: live_finally_def split: prod.splits sum.splits)

lemma outage_saw:
  assumes "database_outage env h = (Inr e, h')"
  shows "saw h' (Http_status_of ''/health'') (\<lambda>r. r = Num 503)"
  using assms by (auto simp: database_outage_def running_job_def live_simps saw_def split: prod.splits)

lemma backpressure_saw:
  assumes "backpressure env h = (Inr e, h')"
  shows "(\<exists>b. saw h' (Post_job b) (\<lambda>r. r = Num 429))
    \<and> (\<exists>n l. saw h' Get_operations (\<lambda>r. r = Ops n l) \<and> 0 < n \<and> (\<forall>(k, c) \<in> set l. k \<le> c))
    \<and> (\<exists>l. saw h' Get_operations (\<lambda>r. r = Ops 0 l))"
  using assms by (auto simp: backpressure_def live_simps saw_def split: prod.splits)

lemma demo_passed:
  "distributed_execution env h = (Inr e, h') \<Longrightarrow> says_passed e"
  "worker_killed env h = (Inr e, h') \<Longrightarrow> says_passed e"
  "coordinator_killed env h = (Inr e, h') \<Longrightarrow> says_passed e"
  "two_coordinators env h = (Inr e, h') \<Longrightarrow> says_passed e"
  "retry_and_timeout env h = (Inr e, h') \<Longrightarrow> says_passed e"
  "database_outage env h = (Inr e, h') \<Longrightarrow> says_passed e"
  "backpressure env h = (Inr e, h') \<Longrightarrow> says_passed e"
  by (auto simp: experiment_defs live_simps says_passed_def split: prod.splits)

lemma tidy_demonstrations: "tidy (demonstrations env outage)"
  unfolding demonstrations_def by (auto intro!: tidy_bind tidy_return tidy_demos)

lemma tidy_experiments: "tidy (experiments env outage)"
  unfolding experiments_def
  by (intro tidy_bind tidy_cluster tidy_demonstrations tidy_demos tidy_return)

text \<open>What the evidence of a complete run rests on.\<close>

definition checks_seen :: "bool \<Rightarrow> trace \<Rightarrow> bool" where
  "checks_seen outage h \<longleftrightarrow>
     (\<exists>t. saw h (Run_sql DISTRIBUTION) (\<lambda>r. r = Table t) \<and> length t = 3)
     \<and> (\<exists>job l. saw h (Get_attempts job) (\<lambda>r. r = Attempts_seen l)
          \<and> length l = 2 \<and> snd (hd l) = Some ''LEASE_EXPIRED'')
     \<and> (\<exists>job l. saw h (Get_attempts job) (\<lambda>r. r = Attempts_seen l)
          \<and> 2 \<le> length l \<and> snd (last l) = Some ''SUCCEEDED'')
     \<and> saw h (Run_sql DUPLICATES) (\<lambda>r. r = Num 0)
     \<and> (\<exists>job l. saw h (Get_attempts job) (\<lambda>r. r = Attempts_seen l) \<and> length l = 3)
     \<and> (outage \<longrightarrow> saw h (Http_status_of ''/health'') (\<lambda>r. r = Num 503))
     \<and> (\<exists>b. saw h (Post_job b) (\<lambda>r. r = Num 429))
     \<and> (\<exists>n l. saw h Get_operations (\<lambda>r. r = Ops n l) \<and> 0 < n \<and> (\<forall>(k, c) \<in> set l. k \<le> c))
     \<and> (\<exists>l. saw h Get_operations (\<lambda>r. r = Ops 0 l))"

lemma demonstrations_run:
  assumes "demonstrations env outage h = (Inr ev, h')"
  obtains e1 e2 e3 e4 e5 rest h1 h2 h3 h4 h5 where
    "distributed_execution env h = (Inr e1, h1)" "worker_killed env h1 = (Inr e2, h2)"
    "coordinator_killed env h2 = (Inr e3, h3)" "two_coordinators env h3 = (Inr e4, h4)"
    "retry_and_timeout env h4 = (Inr e5, h5)"
    "if outage then \<exists>e. database_outage env h5 = (Inr e, h') \<and> rest = [e] else h' = h5 \<and> rest = []"
    "ev = [e1, e2, e3, e4, e5] @ rest"
  using assms by (cases outage) (auto simp: demonstrations_def live_simps)

lemma experiments_run:
  assumes "experiments env outage [] = (Inr ev, h)"
  shows "length ev = (if outage then 7 else 6)" and "\<forall>e \<in> set ev. says_passed e" and "checks_seen outage h"
proof -
  from assms obtain first second g0 g1 g2 g3 g4 where
    demos: "demonstrations env outage g0 = (Inr first, g1)"
    and full: "backpressure env g3 = (Inr second, g4)"
    and grow: "set g1 \<subseteq> set g3" "set g4 \<subseteq> set h" and ev: "ev = first @ [second]"
    by (fastforce simp: experiments_def live_bind_Inr live_return_iff elim!: cluster_run)
  from demos obtain e1 e2 e3 e4 e5 rest h1 h2 h3 h4 h5 where
    d: "distributed_execution env g0 = (Inr e1, h1)" "worker_killed env h1 = (Inr e2, h2)"
    "coordinator_killed env h2 = (Inr e3, h3)" "two_coordinators env h3 = (Inr e4, h4)"
    "retry_and_timeout env h4 = (Inr e5, h5)"
    and last: "if outage then \<exists>e. database_outage env h5 = (Inr e, g1) \<and> rest = [e] else g1 = h5 \<and> rest = []"
    and first: "first = [e1, e2, e3, e4, e5] @ rest"
    by (rule demonstrations_run)
  note steps = tidy_grows [OF tidy_demos(2) d(2)] tidy_grows [OF tidy_demos(3) d(3)]
    tidy_grows [OF tidy_demos(4) d(4)] tidy_grows [OF tidy_demos(5) d(5)] tidy_grows [OF tidy_demos(7) full]
  have up: "set h5 \<subseteq> set g1"
  proof (cases outage)
    case True
    then obtain e where "database_outage env h5 = (Inr e, g1)" using last by auto
    then show ?thesis by (rule tidy_grows [OF tidy_demos(6)])
  qed (use last in simp)
  have in_h: "set h5 \<subseteq> set h" "set g1 \<subseteq> set h" using up grow steps(5) by auto
  have sub: "set h1 \<subseteq> set h" "set h2 \<subseteq> set h" "set h3 \<subseteq> set h" "set h4 \<subseteq> set h"
    using in_h(1) steps(1-4) by auto
  show "length ev = (if outage then 7 else 6)" using ev first last by (auto split: if_splits)
  show "\<forall>e \<in> set ev. says_passed e"
    using demo_passed(1) [OF d(1)] demo_passed(2) [OF d(2)] demo_passed(3) [OF d(3)]
      demo_passed(4) [OF d(4)] demo_passed(5) [OF d(5)] demo_passed(7) [OF full] demo_passed(6) ev first last
    by (auto split: if_splits)
  have "saw h (Http_status_of ''/health'') (\<lambda>r. r = Num 503)" if outage
    using that last outage_saw saw_mono [OF _ in_h(2)] by fastforce
  moreover note saw_mono [OF two_coordinators_saw [OF d(4)] sub(4)]
  moreover have "\<exists>t. saw h (Run_sql DISTRIBUTION) (\<lambda>r. r = Table t) \<and> length t = 3"
    using distributed_saw [OF d(1)] saw_mono [OF _ sub(1)] by blast
  moreover have "\<exists>job l. saw h (Get_attempts job) (\<lambda>r. r = Attempts_seen l)
      \<and> length l = 2 \<and> snd (hd l) = Some ''LEASE_EXPIRED''"
    using worker_killed_saw [OF d(2)] saw_mono [OF _ sub(2)] by blast
  moreover have "\<exists>job l. saw h (Get_attempts job) (\<lambda>r. r = Attempts_seen l)
      \<and> 2 \<le> length l \<and> snd (last l) = Some ''SUCCEEDED''"
    using coordinator_killed_saw [OF d(3)] saw_mono [OF _ sub(3)] by blast
  moreover have "\<exists>job l. saw h (Get_attempts job) (\<lambda>r. r = Attempts_seen l) \<and> length l = 3"
    using retry_saw [OF d(5)] saw_mono [OF _ in_h(1)] by blast
  moreover have "(\<exists>b. saw h (Post_job b) (\<lambda>r. r = Num 429))
    \<and> (\<exists>n l. saw h Get_operations (\<lambda>r. r = Ops n l) \<and> 0 < n \<and> (\<forall>(k, c) \<in> set l. k \<le> c))
    \<and> (\<exists>l. saw h Get_operations (\<lambda>r. r = Ops 0 l))"
    using backpressure_saw [OF full] saw_mono [OF _ grow(2)] by blast
  ultimately show "checks_seen outage h" unfolding checks_seen_def by blast
qed

lemma checks_seen_mono: "checks_seen outage h \<Longrightarrow> set h \<subseteq> set h' \<Longrightarrow> checks_seen outage h'"
  unfolding checks_seen_def by (blast intro: saw_mono)

section \<open>Properties\<close>


text \<open>A deployment that behaves as the experiments expect.\<close>

fun demo_answers :: answers where
  "demo_answers h (Submit_job b) =
     Name (if b = submit_body ''flaky'' (Some (JObj [(''failures'', JInt 2)]))
                    [(''retry_delay'', JFloat (5 / 100)), (''max_retries'', JInt 3)]
           then ''retry'' else ''job'')"
| "demo_answers h (Run_sql q) = (if q = DUPLICATES then Num 0 else Table [(''a'', 40), (''b'', 30), (''c'', 30)])"
| "demo_answers h (Get_attempts job) = Attempts_seen
     (if job = ''retry'' then [(''a'', Some ''FAILED''), (''b'', Some ''FAILED''), (''a'', Some ''SUCCEEDED'')]
      else [(''victim'', Some ''LEASE_EXPIRED''), (''survivor'', Some ''SUCCEEDED'')])"
| "demo_answers h Get_operations = (case fst (last h) of Start_worker n e \<Rightarrow> Ops 6 [(2, 2)] | _ \<Rightarrow> Ops 0 [(0, 2)])"
| "demo_answers h (Post_job b) = Num 429"
| "demo_answers h Free_port = Num 8900"
| "demo_answers h Monotonic = Time 0"
| "demo_answers h a = Done"

lemma demo_act: "(\<And>e. demo_answers h a \<noteq> Raised e) \<Longrightarrow> act demo_answers a h = (Inr (demo_answers h a), h @ [(a, demo_answers h a)])"
  by (auto simp: act_def Let_def split: answer.splits)

definition demo_job_name :: "json \<Rightarrow> string" where
  "demo_job_name b = (if b = submit_body ''flaky'' (Some (JObj [(''failures'', JInt 2)]))
      [(''retry_delay'', JFloat (5 / 100)), (''max_retries'', JInt 3)] then ''retry'' else ''job'')"

lemma demo_submit_call:
  "submit_call demo_answers task args kwargs h =
     (Inr (demo_job_name (submit_body task args kwargs)),
      h @ [(Submit_job (submit_body task args kwargs), Name (demo_job_name (submit_body task args kwargs)))])"
  by (simp add: submit_call_def reading_def live_bind_def live_return_def demo_act demo_job_name_def)

lemmas demo_live = live_bind_def live_then_def live_return_def live_assert_def reading_def demo_act
  demo_submit_call live_each_answered running_job_def attempts_call_def monotonic_def

lemma demo_names_sleep:
  "demo_job_name (submit_body ''sleep'' args kwargs) = ''job''"
  "demo_job_name (submit_body ''flaky'' (Some (JObj [(''failures'', JInt 2)]))
     [(''retry_delay'', JFloat (1 / 20)), (''max_retries'', JInt 3)]) = ''retry''"
  by (simp_all add: demo_job_name_def submit_body_def)

lemma demo_demos:
  "\<exists>e h'. distributed_execution demo_answers h = (Inr e, h')"
  "\<exists>e h'. worker_killed demo_answers h = (Inr e, h')"
  "\<exists>e h'. coordinator_killed demo_answers h = (Inr e, h')"
  "\<exists>e h'. two_coordinators demo_answers h = (Inr e, h')"
  "\<exists>e h'. retry_and_timeout demo_answers h = (Inr e, h')"
  "\<exists>e h'. backpressure demo_answers h = (Inr e, h')"
  by (simp_all add: experiment_defs demo_live demo_names_sleep DISTRIBUTION_def DUPLICATES_def)

lemma demo_cluster:
  assumes "\<And>h. \<exists>x h'. body h = (Inr x, h')"
  shows "\<exists>x h'. with_cluster demo_answers overrides body h = (Inr x, h')"
proof -
  obtain x h2 where "body (h @ [(Open_cluster overrides, Done)]) = (Inr x, h2)" using assms by blast
  then have "with_cluster demo_answers overrides body h = (Inr x, h2 @ [(Close_cluster, Done)])"
    by (simp add: with_cluster_def with_block_def demo_act)
  then show ?thesis by blast
qed

lemma demo_all: "\<exists>ev h'. demonstrations demo_answers False h = (Inr ev, h')"
proof -
  have each: "\<exists>ys h'. live_each (\<lambda>demo. demo demo_answers) ds h = (Inr ys, h')"
    if "\<And>d h. d \<in> set ds \<Longrightarrow> \<exists>e h'. d demo_answers h = (Inr e, h')"
    for ds :: "(answers \<Rightarrow> json live) list" and h
    using that
  proof (induction ds arbitrary: h)
    case (Cons d ds)
    obtain e h1 where "d demo_answers h = (Inr e, h1)" using Cons.prems by (meson list.set_intros(1))
    moreover obtain ys h2 where "live_each (\<lambda>demo. demo demo_answers) ds h1 = (Inr ys, h2)"
      using Cons.IH Cons.prems by (meson list.set_intros(2))
    ultimately show ?case by (simp add: live_bind_def live_return_def)
  qed (simp add: live_return_def)
  show ?thesis unfolding demonstrations_def by (rule each) (auto intro!: demo_demos)
qed


end
