(* ===== verification/Checks.thy ===== *)
theory Checks
  imports Experiments
begin

text \<open>
  Two more scripts against live deployments: \<^verbatim>\<open>scripts/check_compose.py\<close>, which checks a running
  Compose deployment, and the demonstration of \<^verbatim>\<open>scripts/side_effects.py\<close>, which crashes a one-shot worker
  between its effect and its report, with and without an idempotent sink.
\<close>

section \<open>The Compose check\<close>

definition compose_job :: "string \<Rightarrow> nat \<Rightarrow> json" where
  "compose_job run_id index =
     JObj [(''task'', JStr ''sleep''), (''args'', JObj [(''seconds'', JFloat (1 / 10))]),
           (''idempotency_key'', JStr (''compose-'' @ run_id @ ''-'' @ nat_text index))]"

text \<open>The jobs per worker, from the attempts of each job; more or fewer than one attempt fails the check.\<close>

fun tally :: "answers \<Rightarrow> string list \<Rightarrow> (string \<times> nat) list \<Rightarrow> (string \<times> nat) list live" where
  "tally env [] counts = live_return counts"
| "tally env (job # rest) counts =
     live_bind (attempts_call env job) (\<lambda>seen.
     live_then (live_assert (length seen = 1)) (
     tally env rest (bump (fst (hd seen)) counts)))"

definition compose_report :: "(string \<times> nat) list \<Rightarrow> json" where
  "compose_report counts =
     JObj [(''passed'', JBool True), (''jobs'', JInt 100), (''healthy_workers'', JInt 3),
           (''jobs_per_worker'', JObj (map (\<lambda>(w, n). (w, JInt (int n))) counts)),
           (''checks'', JArr (map JStr [''Docker image build'', ''Alembic migration'', ''three containers'',
              ''job execution'', ''dashboard'', ''metrics'']))]"

definition compose_checks :: "answers \<Rightarrow> (string \<times> nat) list live" where
  "compose_checks env =
     live_then (act env (Wait_healthy_workers 3 60)) (
     live_bind (reading the_name (act env Fresh_hex)) (\<lambda>run_id.
     live_bind (live_each (\<lambda>i. reading the_name (act env (Submit_job (compose_job run_id i)))) [0..<100]) (\<lambda>ids.
     live_then (act env (Wait_all_succeeded ids 120)) (
     live_bind (tally env ids []) (\<lambda>counts.
     live_then (live_assert (length counts = 3)) (
     live_bind (reading the_num (act env (Http_status_of ''/dashboard''))) (\<lambda>status.
     live_then (live_assert (status = 200)) (
     live_bind (reading the_name (act env (Http_text_of ''/metrics''))) (\<lambda>body.
     live_then (live_assert (sublist ''greyqueue_jobs_completed_total'' body)) (
     live_return counts))))))))))"

definition compose_main :: "answers \<Rightarrow> unit live" where
  "compose_main env =
     live_bind (compose_checks env) (\<lambda>counts.
     live_then (act env (Write_results ''docs/results/compose.json'' (compose_report counts))) (
     live_then (act env (Say ''PASS: Docker Compose, 100 jobs, three workers, dashboard and metrics'')) (
     live_return ())))"

section \<open>The side-effect demonstration\<close>

definition once_command :: "bool \<Rightarrow> string list" where
  "once_command deduplicate =
     [''-m'', ''scripts.side_effects'', ''--once''] @ (if deduplicate then [''--deduplicate''] else [])"

definition LEDGER :: string where "LEDGER = ''external-sink.sqlite''"

definition side_effect_round :: "answers \<Rightarrow> bool \<Rightarrow> json live" where
  "side_effect_round env deduplicate =
     live_bind (submit_call env ''hash_text''
         (Some (JObj [(''text'', JStr ''controlled side-effect simulation'')])) [(''retry_delay'', JInt 0)]) (\<lambda>job.
     live_then (act env (Launch ''crash-before-ack'' (once_command deduplicate @ [''--crash''])
         [(''DEMO_LEDGER'', LEDGER)])) (
     live_bind (reading the_num (act env (Wait_exit ''crash-before-ack'' 20))) (\<lambda>first.
     live_then (live_assert (first = 17)) (
     live_then (act env (Wait_job_status job ''RETRY_WAIT'')) (
     live_then (act env (Launch ''retry'' (once_command deduplicate) [(''DEMO_LEDGER'', LEDGER)])) (
     live_bind (reading the_num (act env (Wait_exit ''retry'' 20))) (\<lambda>second.
     live_then (live_assert (second = 0)) (
     live_then (act env (Complete_jobs [job])) (
     live_bind (reading the_num (act env (Count_effects LEDGER))) (\<lambda>effects.
     live_bind (attempts_call env job) (\<lambda>seen.
     live_then (live_assert (effects = (if deduplicate then 1 else 2) \<and> length seen = 2)) (
     live_then (act env (Say (''PASS: executions=2, effects='' @ nat_text effects @ '', idempotent sink=''
         @ (if deduplicate then ''True'' else ''False'')))) (
     live_return (passed [(''idempotent_sink'', JBool deduplicate), (''executions'', JInt 2),
       (''side_effects'', JInt (int effects))]))))))))))))))"

definition side_effects_main :: "answers \<Rightarrow> unit live" where
  "side_effects_main env =
     live_bind (live_each (\<lambda>deduplicate. with_cluster env [] (side_effect_round env deduplicate)) [False, True]) (\<lambda>found.
     live_then (act env (Write_results ''docs/results/side-effects.json'' (JArr found))) (
     live_return ()))"

section \<open>Lemmas\<close>

lemma tidy_calls: "tidy (attempts_call env job)"
  unfolding attempts_call_def by (intro tidy_intros) simp

lemma tidy_tally: "tidy (tally env ids counts)"
  by (induction env ids counts rule: tally.induct) (auto intro!: tidy_intros tidy_calls)

lemma tidy_compose: "tidy (compose_checks env)"
  unfolding compose_checks_def by (auto intro!: tidy_intros tidy_tally)

lemma tidy_round: "tidy (side_effect_round env deduplicate)"
  unfolding side_effect_round_def by (auto intro!: tidy_intros tidy_calls)

lemma tally_run:
  assumes "tally env ids counts h = (Inr counts', h')"
  shows "sum_list (map snd counts') = sum_list (map snd counts) + length ids
    \<and> (distinct (map fst counts) \<longrightarrow> distinct (map fst counts'))
    \<and> (\<forall>job \<in> set ids. \<exists>a. saw h' (Get_attempts job) (\<lambda>r. r = Attempts_seen [a]))"
  using assms
proof (induction env ids counts arbitrary: h rule: tally.induct)
  case (1 env counts)
  then show ?case by (simp add: live_simps)
next
  case (2 env job rest counts)
  then obtain a h1 where h1: "h1 = h @ [(Get_attempts job, Attempts_seen [a])]"
    and rest: "tally env rest (bump (fst a) counts) h1 = (Inr counts', h')"
    by (auto simp: attempts_call_def live_simps length_Suc_conv)
  have "saw h1 (Get_attempts job) (\<lambda>r. r = Attempts_seen [a])" by (simp add: h1 saw_def)
  then have "saw h' (Get_attempts job) (\<lambda>r. r = Attempts_seen [a])"
    using saw_mono tidy_grows [OF tidy_tally rest] by blast
  moreover have "tally env rest (bump (fst (hd [a])) counts) h1 = (Inr counts', h')" using rest by simp
  note 2(1) [OF this]
  ultimately show ?case by (cases a) (auto simp: bump_total)
qed

lemma act_appends: "act env a h = (Inr r, h') \<Longrightarrow> h' = h @ [(a, r)]"
  by (simp add: act_Inr)

lemma compose_run:
  assumes "compose_checks env h = (Inr counts, h')"
  shows "length counts = 3" and "distinct (map fst counts)" and "sum_list (map snd counts) = 100"
    and "saw h' (Http_status_of ''/dashboard'') (\<lambda>r. r = Num 200)"
proof -
  have each: "length ys = length xs" if "live_each f xs g = (Inr ys, g')" for f xs g ys g'
    using that by (induction xs arbitrary: g ys) (auto simp: live_simps)
  from assms obtain run_id ids g0 g1 g2 g3 where
    ids: "live_each (\<lambda>i. reading the_name (act env (Submit_job (compose_job run_id i)))) [0..<100] g0 = (Inr ids, g1)"
    and tally: "tally env ids [] g2 = (Inr counts, g3)"
    and three: "length counts = 3"
    and board: "saw h' (Http_status_of ''/dashboard'') (\<lambda>r. r = Num 200)"
    unfolding compose_checks_def by (auto simp: live_bind_Inr live_then_Inr live_assert_Inr live_return_iff
        reading_Inr act_Inr the_simps saw_def simp del: upt_Suc)
  from tally_run [OF tally] each [OF ids] three board
  show "length counts = 3" "distinct (map fst counts)" "sum_list (map snd counts) = 100"
    "saw h' (Http_status_of ''/dashboard'') (\<lambda>r. r = Num 200)" by simp_all
qed

text \<open>
  The Compose report is written only after its checks: then it counts the hundred jobs, each run by a
  single attempt, over exactly three workers.
\<close>

lemma compose_report_sound:
  assumes "compose_main env [] = (r, h)" and "written h \<noteq> []"
  shows "\<exists>counts. written h = [(''docs/results/compose.json'', compose_report counts)]
    \<and> length counts = 3 \<and> distinct (map fst counts) \<and> sum_list (map snd counts) = 100
    \<and> saw h (Http_status_of ''/dashboard'') (\<lambda>r. r = Num 200)"
proof -
  have tail: "tidy (live_then (act env (Say t)) (live_return ()))" for t by (intro tidy_intros) simp
  obtain counts h0 where run: "compose_checks env [] = (Inr counts, h0)" "set h0 \<subseteq> set h"
    "written h = [(''docs/results/compose.json'', compose_report counts)]"
    using results_last(3) [OF tidy_compose tail assms(1) [unfolded compose_main_def] assms(2)] by blast
  with compose_run [OF run(1)] saw_mono show ?thesis by blast
qed

lemma round_run:
  assumes "side_effect_round env deduplicate h = (Inr e, h')"
  shows "e = passed [(''idempotent_sink'', JBool deduplicate), (''executions'', JInt 2),
      (''side_effects'', JInt (if deduplicate then 1 else 2))]"
    and "saw h' (Wait_exit ''crash-before-ack'' 20) (\<lambda>r. r = Num 17)"
    and "saw h' (Count_effects LEDGER) (\<lambda>r. r = Num (if deduplicate then 1 else 2))"
  using assms
  by (auto simp: side_effect_round_def attempts_call_def submit_call_def live_bind_Inr live_then_Inr
      live_assert_Inr live_return_iff reading_Inr the_simps saw_def dest!: act_appends)

text \<open>
  The side-effect results are written only after both rounds: the worker that was crashed after its
  effect left the plain sink with two effects and the idempotent one with a single effect.
\<close>

lemma side_effect_results_sound:
  assumes "side_effects_main env [] = (r, h)" and "written h \<noteq> []"
  shows "opened h = closings h
    \<and> written h = [(''docs/results/side-effects.json'', JArr (map (\<lambda>deduplicate.
        passed [(''idempotent_sink'', JBool deduplicate), (''executions'', JInt 2),
          (''side_effects'', JInt (if deduplicate then 1 else 2))]) [False, True]))]
    \<and> (\<forall>deduplicate. saw h (Count_effects LEDGER) (\<lambda>r. r = Num (if deduplicate then 1 else 2)))"
proof -
  let ?rounds = "live_each (\<lambda>deduplicate. with_cluster env [] (side_effect_round env deduplicate)) [False, True]"
  have tidy: "tidy ?rounds" by (intro tidy_each tidy_cluster tidy_round)
  have tail: "tidy (live_return ())" by (rule tidy_return)
  note last = results_last [OF tidy tail assms(1) [unfolded side_effects_main_def]]
  obtain found h0 where run: "?rounds [] = (Inr found, h0)" "set h0 \<subseteq> set h"
    "written h = [(''docs/results/side-effects.json'', JArr found)]"
    using last(3) [OF assms(2)] by blast
  from run(1) obtain e1 e2 h1 where found: "found = [e1, e2]"
    and first: "with_cluster env [] (side_effect_round env False) [] = (Inr e1, h1)"
    and second: "with_cluster env [] (side_effect_round env True) h1 = (Inr e2, h0)"
    by (auto simp: live_bind_Inr live_return_iff)
  obtain g1 g1' where g1: "side_effect_round env False g1 = (Inr e1, g1')" "set g1' \<subseteq> set h1"
    using first by (rule cluster_run)
  obtain g2 g2' where g2: "side_effect_round env True g2 = (Inr e2, g2')" "set h1 \<subseteq> set g2" "set g2' \<subseteq> set h0"
    using second by (rule cluster_run)
  have sub: "set g1' \<subseteq> set h" "set g2' \<subseteq> set h"
    using g1(2) g2(2,3) tidy_grows [OF tidy_round g2(1)] run(2) by auto
  have "saw h (Count_effects LEDGER) (\<lambda>r. r = Num (if deduplicate then 1 else 2))" for deduplicate
    using saw_mono [OF round_run(3) [OF g1(1)] sub(1)] saw_mono [OF round_run(3) [OF g2(1)] sub(2)]
    by (cases deduplicate) simp_all
  with last(1) run(3) found round_run(1) [OF g1(1)] round_run(1) [OF g2(1)] show ?thesis by simp
qed

end
