(* ===== verification/Dashboard_Check.thy ===== *)
theory Dashboard_Check
  imports Checks
begin

text \<open>
  \<^verbatim>\<open>scripts/check_dashboard.py\<close>: the browser checks of the operations dashboard, as a program over the answers
  of the deployment and of the browser; evidence is recorded unless it is a dry run.
\<close>

section \<open>The checks\<close>

definition page :: "answers \<Rightarrow> page_call \<Rightarrow> answer live" where
  "page env call = act env (Browse call)"

definition connection :: "answers \<Rightarrow> string live" where
  "connection env = reading the_name (page env (Texts_of ''#connection''))"

definition no_errors :: "answers \<Rightarrow> unit live" where
  "no_errors env = live_bind (reading the_names (page env Page_errors)) (\<lambda>errors. live_assert (errors = []))"

definition connect :: "answers \<Rightarrow> string \<Rightarrow> answer live" where
  "connect env token = live_then (page env (Fill ''Client access token'' token)) (page env (Click ''Connect''))"

text \<open>\<^verbatim>\<open>executable_path\<close> is passed only when \<^verbatim>\<open>CHROMIUM_PATH\<close> is set and not empty.\<close>

definition open_page :: "answers \<Rightarrow> answer live" where
  "open_page env =
     live_then (act env (Start_worker ''dashboard-worker'' [])) (
     live_bind (reading the_name (act env (Getenv ''CHROMIUM_PATH''))) (\<lambda>path.
     live_then (act env (Launch_browser (if path \<noteq> [] then Some path else None))) (
     live_then (page env (Viewport 1440 1100)) (
     page env (Goto ''/dashboard'')))))"

definition submit_and_inspect :: "answers \<Rightarrow> string \<Rightarrow> unit live" where
  "submit_and_inspect env token =
     live_then (connect env token) (
     live_then (page env (Expect_text ''#connection'' ''Connected'')) (
     live_then (page env (Click ''#submit Submit job'')) (
     live_then (page env (Expect_text ''#jobs'' ''SUCCEEDED'')) (
     live_then (page env (Click ''Inspect job'')) (
     live_then (page env (Expect_text ''#inspect'' ''attempts'')) (
     live_bind (reading the_name (page env (Label_of ''Inspect job''))) (\<lambda>label.
     live_then (page env (Focus ''Inspect job'')) (
     live_then (page env (Wait_ms 2600)) (
     live_bind (reading the_name (page env (Evaluate (''document.activeElement.getAttribute('' @ [CHR 0x27]
         @ ''aria-label'' @ [CHR 0x27] @ '')'')))) (\<lambda>focused.
     live_assert (focused = label)))))))))))"

definition filter_and_storage :: "answers \<Rightarrow> string \<Rightarrow> unit live" where
  "filter_and_storage env token =
     live_bind (reading the_names (page env (Texts_of ''#filter option''))) (\<lambda>options.
     live_then (live_assert (set (tl options) = status_name ` set STATUSES)) (
     live_then (page env (Select_option ''#filter'' ''CANCELLED'')) (
     live_then (page env (Expect_text ''#jobs'' ''No CANCELLED jobs'')) (
     live_then (page env (Select_option ''#filter'' [])) (
     live_bind (reading the_num (page env (Evaluate ''localStorage.length + sessionStorage.length''))) (\<lambda>kept.
     live_then (live_assert (kept = 0)) (
     live_bind (reading the_name (page env Content)) (\<lambda>shown.
     live_assert (\<not> sublist token shown)))))))))"

definition screenshot :: "answers \<Rightarrow> bool \<Rightarrow> string \<Rightarrow> answer live" where
  "screenshot env recording path = (if recording then page env (Screenshot path) else live_return Done)"

definition desktop_and_mobile :: "answers \<Rightarrow> bool \<Rightarrow> unit live" where
  "desktop_and_mobile env recording =
     live_then (screenshot env recording ''docs/results/dashboard-desktop.png'') (
     live_then (page env (Viewport 390 844)) (
     live_bind (reading the_truth (page env (Evaluate ''document.documentElement.scrollWidth <= innerWidth''))) (\<lambda>fits.
     live_then (live_assert fits) (
     live_then (screenshot env recording ''docs/results/dashboard-mobile.png'') (
     no_errors env)))))"

text \<open>The dash the dashboard shows for an unknown depth, in UTF-8.\<close>

definition DASH :: string where "DASH = [CHR 0xE2, CHR 0x80, CHR 0x94]"

definition disconnect_page :: "answers \<Rightarrow> unit live" where
  "disconnect_page env =
     live_then (page env (Click ''Disconnect'')) (
     live_bind (connection env) (\<lambda>status.
     live_then (live_assert (status = ''Disconnected'')) (
     live_then (page env (Wait_ms 2500)) (
     live_bind (connection env) (\<lambda>status'.
     live_then (live_assert (status' = ''Disconnected'')) (
     live_bind (reading the_num (page env (Count_of ''#jobs tr''))) (\<lambda>rows.
     live_then (live_assert (rows = 0)) (
     live_bind (reading the_name (page env (Texts_of ''#depth''))) (\<lambda>depth.
     live_assert (depth = DASH))))))))))"

definition reject_token :: "answers \<Rightarrow> unit live" where
  "reject_token env =
     live_then (connect env ''not-the-right-token-value'') (
     live_then (page env (Expect_text ''#notice'' ''rejected'')) (
     live_bind (connection env) (\<lambda>status.
     live_then (live_assert (status = ''Disconnected'')) (
     live_then (no_errors env) (
     live_then (page env Close_browser) (
     live_return ()))))))"

definition dashboard_checks :: "answers \<Rightarrow> bool \<Rightarrow> unit live" where
  "dashboard_checks env recording =
     live_then (open_page env) (
     live_bind (reading the_name (act env Client_token)) (\<lambda>token.
     live_then (submit_and_inspect env token) (
     live_then (filter_and_storage env token) (
     live_then (desktop_and_mobile env recording) (
     live_then (disconnect_page env) (
     reject_token env))))))"

definition dashboard_report :: "string list \<Rightarrow> json" where
  "dashboard_report errors = JObj [(''passed'', JBool True), (''javascript_errors'', JArr (map JStr errors)),
     (''checks'', JArr (map JStr [''connect'', ''submit'', ''live completion'', ''inspect attempts'',
        ''focus kept across refresh'', ''complete state filter'', ''empty state'', ''no persisted token'',
        ''mobile overflow'', ''disconnect clears panels'', ''rejected token disconnects'']))]"

definition dashboard_ending :: "answers \<Rightarrow> bool \<Rightarrow> answer live" where
  "dashboard_ending env dry_run =
     (if dry_run then act env (Say ''PASS (dry run): all dashboard checks; no evidence written'')
      else
        live_bind (reading the_names (page env Page_errors)) (\<lambda>errors.
        live_then (act env (Write_results ''docs/results/dashboard-check.json'' (dashboard_report errors))) (
        act env (Say ''PASS: browser dashboard interactions, desktop and mobile''))))"

definition dashboard_main :: "answers \<Rightarrow> bool \<Rightarrow> answer live" where
  "dashboard_main env dry_run =
     with_cluster env [] (with_block env Open_playwright Close_playwright (
       live_then (dashboard_checks env (\<not> dry_run)) (dashboard_ending env dry_run)))"

section \<open>Lemmas\<close>

lemmas dashboard_defs = open_page_def submit_and_inspect_def filter_and_storage_def desktop_and_mobile_def
  disconnect_page_def reject_token_def connect_def connection_def no_errors_def screenshot_def page_def

lemma tidy_parts:
  "tidy (open_page env)" "tidy (submit_and_inspect env token)" "tidy (filter_and_storage env token)"
  "tidy (desktop_and_mobile env recording)" "tidy (disconnect_page env)" "tidy (reject_token env)"
  unfolding dashboard_defs by (auto intro!: tidy_intros)

lemma tidy_dashboard: "tidy (dashboard_checks env recording)"
  unfolding dashboard_checks_def by (auto intro!: tidy_intros tidy_parts)

text \<open>What the checks have seen when they pass.\<close>

definition dashboard_seen :: "trace \<Rightarrow> bool" where
  "dashboard_seen h \<longleftrightarrow> (\<exists>token shown. saw h Client_token (\<lambda>r. r = Name token)
       \<and> saw h (Browse Content) (\<lambda>r. r = Name shown) \<and> \<not> sublist token shown)
     \<and> (\<exists>options. saw h (Browse (Texts_of ''#filter option'')) (\<lambda>r. r = Names options) \<and> set (tl options) = status_name ` set STATUSES)
     \<and> saw h (Browse (Texts_of ''#depth'')) (\<lambda>r. r = Name DASH)
     \<and> saw h (Browse (Texts_of ''#connection'')) (\<lambda>r. r = Name ''Disconnected'')
     \<and> saw h (Browse Page_errors) (\<lambda>r. r = Names [])"

lemma dashboard_seen_mono: "dashboard_seen h \<Longrightarrow> set h \<subseteq> set h' \<Longrightarrow> dashboard_seen h'"
  unfolding dashboard_seen_def by (meson saw_mono)

lemma parts_seen:
  "filter_and_storage env token h = (Inr u, h') \<Longrightarrow>
     \<exists>shown. saw h' (Browse Content) (\<lambda>r. r = Name shown) \<and> \<not> sublist token shown"
  "filter_and_storage env token h = (Inr u, h') \<Longrightarrow>
     \<exists>options. saw h' (Browse (Texts_of ''#filter option'')) (\<lambda>r. r = Names options) \<and> set (tl options) = status_name ` set STATUSES"
  "disconnect_page env h = (Inr u, h') \<Longrightarrow> saw h' (Browse (Texts_of ''#depth'')) (\<lambda>r. r = Name DASH)"
  "reject_token env h = (Inr u, h') \<Longrightarrow> saw h' (Browse (Texts_of ''#connection'')) (\<lambda>r. r = Name ''Disconnected'')"
  "reject_token env h = (Inr u, h') \<Longrightarrow> saw h' (Browse Page_errors) (\<lambda>r. r = Names [])"
  by (auto simp: filter_and_storage_def disconnect_page_def reject_token_def connect_def connection_def no_errors_def
      page_def live_simps saw_def)

lemma dashboard_checks_seen:
  assumes "dashboard_checks env recording h = (Inr u, h')"
  shows "dashboard_seen h'"
proof -
  from assms obtain g token g1 g2 g3 g4 where run:
    "submit_and_inspect env token (g @ [(Client_token, Name token)]) = (Inr (), g1)"
    "filter_and_storage env token g1 = (Inr (), g2)" "desktop_and_mobile env recording g2 = (Inr (), g3)"
    "disconnect_page env g3 = (Inr (), g4)" "reject_token env g4 = (Inr u, h')"
    unfolding dashboard_checks_def by (clarsimp simp: live_simps)
  note grow = tidy_grows [OF tidy_parts(2) run(1)] tidy_grows [OF tidy_parts(3) run(2)] tidy_grows [OF tidy_parts(4) run(3)]
    tidy_grows [OF tidy_parts(5) run(4)] tidy_grows [OF tidy_parts(6) run(5)]
  have token: "saw h' Client_token (\<lambda>r. r = Name token)" using grow by (auto simp: saw_def)
  have g2: "set g2 \<subseteq> set h'" using grow by blast
  obtain shown options where
    "saw h' (Browse Content) (\<lambda>r. r = Name shown)" "\<not> sublist token shown"
    "saw h' (Browse (Texts_of ''#filter option'')) (\<lambda>r. r = Names options)" "set (tl options) = status_name ` set STATUSES"
    using parts_seen(1,2) [OF run(2)] saw_mono [OF _ g2] by blast
  moreover have "saw h' (Browse (Texts_of ''#depth'')) (\<lambda>r. r = Name DASH)"
    using saw_mono [OF parts_seen(3) [OF run(4)] grow(5)] .
  ultimately show ?thesis
    unfolding dashboard_seen_def using token parts_seen(4,5) [OF run(5)] by blast
qed

section \<open>Evidence\<close>

definition recorded :: "bool \<Rightarrow> trace \<Rightarrow> bool" where
  "recorded dry_run k \<longleftrightarrow> opened k = closings k \<and> (written k = [] \<or> \<not> dry_run
     \<and> (\<exists>errors. written k = [(''docs/results/dashboard-check.json'', dashboard_report errors)]))"

lemma act_extends: "act env a h = (r, h') \<Longrightarrow> h' = h @ [(a, env h a)]"
  by (simp add: act_def Let_def)

lemma ending_records:
  assumes "dashboard_ending env dry_run h = (r, h')"
  shows "\<exists>k. h' = h @ k \<and> recorded dry_run k"
proof (cases dry_run)
  case True
  with assms have "h' = h @ [(Say ''PASS (dry run): all dashboard checks; no evidence written'',
      env h (Say ''PASS (dry run): all dashboard checks; no evidence written''))]"
    by (auto simp: dashboard_ending_def dest: act_extends)
  then show ?thesis by (auto simp: recorded_def)
next
  case False
  let ?path = "''docs/results/dashboard-check.json''"
  obtain q g where q: "reading the_names (page env Page_errors) h = (q, g)" by (metis surj_pair)
  have "tidy (reading the_names (page env Page_errors))" by (auto intro!: tidy_intros simp: page_def)
  then obtain k where k: "g = h @ k" "opened k = closings k" "written k = []" using q unfolding tidy_def by blast
  show ?thesis
  proof (cases q)
    case (Inl e)
    with False assms q k show ?thesis by (auto simp: dashboard_ending_def live_bind_def recorded_def)
  next
    case (Inr errors)
    let ?wrote = "Write_results ?path (dashboard_report errors)"
    let ?say = "Say ''PASS: browser dashboard interactions, desktop and mobile''"
    have "live_then (act env ?wrote) (act env ?say) g = (r, h')"
      using False Inr assms q by (simp add: dashboard_ending_def live_bind_def)
    then have "h' = g @ [(?wrote, env g ?wrote)] \<or> (\<exists>x. h' = (g @ [(?wrote, env g ?wrote)]) @ [(?say, x)])"
      by (auto simp: live_then_def live_bind_def act_def Let_def split: answer.splits)
    then obtain t where "h' = h @ (k @ [(?wrote, env g ?wrote)] @ t)" "opened t = 0" "closings t = 0" "written t = []"
      using k(1) by fastforce
    moreover have "recorded dry_run (k @ [(?wrote, env g ?wrote)] @ t)"
      if "opened t = 0" "closings t = 0" "written t = []" for t
      unfolding recorded_def trace_append trace_results using that k False by (auto split: answer.split)
    ultimately show ?thesis by blast
  qed
qed

text \<open>
  However the deployment and the browser behave, every cluster that was opened is closed, a dry run writes no
  evidence, and evidence is written only after every check has passed: the token is not in the
  page, the filter offers exactly the statuses of the protocol, and no error was raised.
\<close>

lemma body_records:
  assumes "live_then (dashboard_checks env (\<not> dry_run)) (dashboard_ending env dry_run) h = (r, h')"
  shows "\<exists>k. h' = h @ k \<and> recorded dry_run k \<and> (written k \<noteq> [] \<longrightarrow> dashboard_seen h')"
proof -
  obtain q g where q: "dashboard_checks env (\<not> dry_run) h = (q, g)" by (metis surj_pair)
  then obtain k where k: "g = h @ k" "opened k = closings k" "written k = []"
    using tidy_dashboard unfolding tidy_def by blast
  show ?thesis
  proof (cases q)
    case (Inl e)
    with assms q k show ?thesis by (auto simp: live_then_def live_bind_def recorded_def)
  next
    case (Inr u)
    with assms q have "dashboard_ending env dry_run g = (r, h')" by (simp add: live_then_def live_bind_def)
    then obtain t where t: "h' = g @ t" "recorded dry_run t" using ending_records by blast
    have seen: "dashboard_seen h'"
      using dashboard_checks_seen [of env "\<not> dry_run" h u g] q Inr t(1) by (auto elim: dashboard_seen_mono)
    have "recorded dry_run (k @ t)" using t(2) k by (simp add: recorded_def trace_append)
    with seen t(1) k(1) show ?thesis by (intro exI [of _ "k @ t"]) simp
  qed
qed

lemma dashboard_evidence:
  assumes "dashboard_main env dry_run [] = (r, h)"
  shows "recorded dry_run h \<and> (written h \<noteq> [] \<longrightarrow> dashboard_seen h)"
  using assms unfolding dashboard_main_def with_cluster_def
proof (cases rule: block_body)
  case (unopened e)
  then show ?thesis by (simp add: recorded_def trace_ends)
next
  case (ran r0 r1 q g)
  have one: "opened [(Open_cluster [], r0)] = 1" using ran(3) by (simp add: trace_ends split: answer.split)
  from ran(1) have "\<exists>k. g = [(Open_cluster [], r0)] @ k \<and> recorded dry_run k \<and> (written k \<noteq> [] \<longrightarrow> dashboard_seen g)"
  proof (cases rule: block_body)
    case (unopened e)
    then show ?thesis by (auto simp: recorded_def)
  next
    case (ran s0 s1 q' g')
    from body_records [OF ran(1)] obtain k where k: "g' = ([] @ [(Open_cluster [], r0)] @ [(Open_playwright, s0)]) @ k"
      "recorded dry_run k" "written k \<noteq> [] \<longrightarrow> dashboard_seen g'" by auto
    have "recorded dry_run ([(Open_playwright, s0)] @ k @ [(Close_playwright, s1)])"
      "written ([(Open_playwright, s0)] @ k @ [(Close_playwright, s1)]) = written k"
      using k(2) unfolding recorded_def trace_append by simp_all
    moreover have "dashboard_seen g' \<Longrightarrow> dashboard_seen g"
      using ran(2) by (auto elim: dashboard_seen_mono)
    ultimately show ?thesis using k ran(2)
      by (intro exI [of _ "[(Open_playwright, s0)] @ k @ [(Close_playwright, s1)]"]) simp
  qed
  then obtain k where k: "g = [(Open_cluster [], r0)] @ k" "recorded dry_run k" "written k \<noteq> [] \<longrightarrow> dashboard_seen g" by blast
  have "dashboard_seen g \<Longrightarrow> dashboard_seen h"
    using ran(2) by (auto elim: dashboard_seen_mono)
  moreover have h: "h = [(Open_cluster [], r0)] @ k @ [(Close_cluster, r1)]" using k(1) ran(2) by simp
  have "opened h = closings h" "written h = written k"
    using k(2) one unfolding h trace_append trace_ends recorded_def by simp_all
  ultimately show ?thesis using k(2,3) by (simp add: recorded_def)
qed

end
