(* ===== verification/Cluster.thy ===== *)
theory Cluster
  imports Live Bench
begin

text \<open>
  \<^verbatim>\<open>greyqueue/config.py\<close> read from an environment, and the \<^verbatim>\<open>Cluster\<close> of \<^verbatim>\<open>scripts/harness.py\<close>: the environment it
  gives its processes, the process tree it owns, and its release. The process table of the operating
  system is a list in the order of creation, so a process stands behind its parent.
\<close>

section \<open>Settings from the environment\<close>

type_synonym environ = "string \<rightharpoonup> string"

text \<open>
  The numerals the scripts and the sample files write: digits, and digits with a fraction. Other texts
  are read as no number.
\<close>

definition digit_value :: "char \<Rightarrow> nat option" where
  "digit_value c = (let n = of_char c :: nat in if 48 \<le> n \<and> n \<le> 57 then Some (n - 48) else None)"

fun digits_value :: "nat \<Rightarrow> string \<Rightarrow> nat option" where
  "digits_value acc [] = Some acc"
| "digits_value acc (c # cs) = (case digit_value c of None \<Rightarrow> None | Some d \<Rightarrow> digits_value (acc * 10 + d) cs)"

definition read_int :: "string \<Rightarrow> int option" where
  "read_int s = (if s = [] then None else map_option int (digits_value 0 s))"

definition read_float :: "string \<Rightarrow> rat option" where
  "read_float s =
     (let whole = takeWhile (\<lambda>c. c \<noteq> CHR ''.'') s; frac = drop (Suc (length whole)) s in
      if whole = [] then None
      else Option.bind (digits_value 0 whole) (\<lambda>n.
           map_option (\<lambda>k. of_nat n + of_nat k / 10 ^ length frac) (digits_value 0 frac)))"

definition read_bool :: "string \<Rightarrow> bool option" where
  "read_bool s = (if s \<in> {''true'', ''True'', ''1''} then Some True
     else if s \<in> {''false'', ''False'', ''0''} then Some False else None)"

definition field :: "environ \<Rightarrow> string \<Rightarrow> (string \<Rightarrow> 'a option) \<Rightarrow> 'a option \<Rightarrow> 'a option" where
  "field env key parse dflt = (case env key of None \<Rightarrow> dflt | Some s \<Rightarrow> parse s)"

text \<open>
  \<^verbatim>\<open>Settings()\<close>: each field from its variable, or its default; \<open>None\<close> when a field is missing or malformed.
  Lists are JSON, read by \<open>items\<close>.
\<close>

definition Settings_of :: "(string \<Rightarrow> string list option) \<Rightarrow> environ \<Rightarrow> settings option" where
  "Settings_of items env =
     Option.bind (field env ''WORKER_TOKEN'' Some None) (\<lambda>worker_token.
     Option.bind (field env ''COORDINATOR_URL'' Some (Some ''http://127.0.0.1:8810'')) (\<lambda>coordinator_url.
     Option.bind (field env ''WORKER_ID'' Some (Some [])) (\<lambda>worker_id.
     Option.bind (field env ''POLL_INTERVAL'' read_float (Some (2 / 10))) (\<lambda>poll_interval.
     Option.bind (field env ''CAPACITY'' read_int (Some 2)) (\<lambda>capacity.
     Option.bind (field env ''CAPABILITIES'' items
         (Some [''sleep'', ''calculate_pi'', ''hash_text'', ''flaky''])) (\<lambda>capabilities.
     Option.bind (field env ''EXECUTOR'' Some (Some ''subprocess'')) (\<lambda>executor.
     Option.bind (field env ''DATABASE_URL'' Some None) (\<lambda>database_url.
     Option.bind (field env ''CLIENT_TOKEN'' Some None) (\<lambda>client_token.
     Option.bind (field env ''SCHEDULER'' Some (Some ''priority'')) (\<lambda>policy.
     Option.bind (field env ''HEARTBEAT_INTERVAL'' read_float (Some 2)) (\<lambda>heartbeat_interval.
     Option.bind (field env ''SUSPECT_AFTER'' read_float (Some 6)) (\<lambda>suspect_after.
     Option.bind (field env ''DEAD_AFTER'' read_float (Some 12)) (\<lambda>dead_after.
     Option.bind (field env ''LEASE_SECONDS'' read_float (Some 10)) (\<lambda>lease_seconds.
     Option.bind (field env ''MAINTENANCE_INTERVAL'' read_float (Some (5 / 10))) (\<lambda>maintenance_interval.
     Option.bind (field env ''QUEUE_LIMIT'' read_int (Some 10000)) (\<lambda>queue_limit.
     Option.bind (field env ''SUBMISSIONS_PER_MINUTE'' read_int (Some 20000)) (\<lambda>submissions_per_minute.
     Option.bind (field env ''REQUIRE_TLS'' read_bool (Some False)) (\<lambda>require_tls.
     Option.bind (field env ''ALLOWED_HOSTS'' items
         (Some [''127.0.0.1'', ''localhost'', ''coordinator''])) (\<lambda>allowed_hosts.
     Some \<lparr>ws_worker_token = worker_token, ws_coordinator_url = coordinator_url, ws_worker_id = worker_id,
        ws_poll_interval = poll_interval, ws_capacity = capacity, ws_capabilities = capabilities,
        ws_executor = executor, cfg_database_url = database_url, cfg_client_token = client_token,
        cfg_scheduler = policy, cfg_heartbeat_interval = heartbeat_interval,
        cfg_suspect_after = suspect_after, cfg_dead_after = dead_after, cfg_lease_seconds = lease_seconds,
        cfg_maintenance_interval = maintenance_interval, cfg_queue_limit = queue_limit,
        cfg_submissions_per_minute = submissions_per_minute, cfg_require_tls = require_tls,
        cfg_allowed_hosts = allowed_hosts\<rparr>)))))))))))))))))))"

text \<open>\<^verbatim>\<open>settings()\<close>: what validation accepts; variables win over the lines of \<^verbatim>\<open>.env\<close>.\<close>

definition load_settings :: "(string \<Rightarrow> string list option) \<Rightarrow> environ \<Rightarrow> environ \<Rightarrow> settings option" where
  "load_settings items dotenv env =
     Option.bind (Settings_of items (dotenv ++ env)) (\<lambda>c. if Settings_accepted c then Some c else None)"

section \<open>The environment of a cluster\<close>

definition overriding :: "environ \<Rightarrow> (string \<times> string) list \<Rightarrow> environ" where
  "overriding env kvs = fold (\<lambda>(k, v) e. e(k \<mapsto> v)) kvs env"

definition cluster_env ::
    "environ \<Rightarrow> string \<Rightarrow> string \<Rightarrow> string \<Rightarrow> nat \<Rightarrow> (string \<times> string) list \<Rightarrow> environ" where
  "cluster_env environ url client_token worker_token port overrides =
     overriding environ
       ([(''DATABASE_URL'', url), (''CLIENT_TOKEN'', client_token), (''WORKER_TOKEN'', worker_token),
         (''COORDINATOR_URL'', ''http://127.0.0.1:'' @ nat_text port), (''HEARTBEAT_INTERVAL'', ''0.4''),
         (''SUSPECT_AFTER'', ''1.2''), (''DEAD_AFTER'', ''2.4''), (''LEASE_SECONDS'', ''2''),
         (''MAINTENANCE_INTERVAL'', ''0.2''), (''CAPACITY'', ''2''), (''EXECUTOR'', ''hybrid''),
         (''POLL_INTERVAL'', ''0.05''), (''QUEUE_LIMIT'', ''20000''), (''SUBMISSIONS_PER_MINUTE'', ''100000'')]
        @ overrides)"

text \<open>The overrides of \<^verbatim>\<open>benchmarks/run.py\<close>.\<close>

definition bench_overrides :: "string \<Rightarrow> nat \<Rightarrow> (string \<times> string) list" where
  "bench_overrides strategy concurrency =
     [(''EXECUTOR'', strategy), (''CAPACITY'', nat_text concurrency), (''LEASE_SECONDS'', ''15''),
      (''SUSPECT_AFTER'', ''10''), (''DEAD_AFTER'', ''20'')]"

section \<open>The process tree\<close>

record os_proc =
  op_pid :: nat
  op_parent :: "nat option"
  op_command :: "string list"
  op_env :: environ
  op_alive :: bool

record cluster =
  cu_env :: environ
  cu_processes :: "nat list"
  cu_logs :: "(string \<times> bool) list"
  cu_schemas :: "string list"
  cu_schema :: string
  cu_open :: "string list"
  cu_os :: "os_proc list"

definition alive :: "nat \<Rightarrow> cluster \<Rightarrow> bool" where
  "alive p s \<longleftrightarrow> (\<exists>q \<in> set (cu_os s). op_pid q = p \<and> op_alive q)"

text \<open>\<^verbatim>\<open>psutil.Process(pid).children(recursive=True)\<close>: the living descendants.\<close>

definition descendants :: "nat \<Rightarrow> os_proc list \<Rightarrow> nat list" where
  "descendants p ps =
     fold (\<lambda>q found. if op_alive q \<and> (case op_parent q of None \<Rightarrow> False | Some r \<Rightarrow> r = p \<or> r \<in> set found)
                     then found @ [op_pid q] else found) ps []"

definition killed :: "nat list \<Rightarrow> os_proc list \<Rightarrow> os_proc list" where
  "killed ds ps = map (\<lambda>q. if op_pid q \<in> set ds then q\<lparr>op_alive := False\<rparr> else q) ps"

text \<open>\<^verbatim>\<open>launch\<close>: a log of its own, and a process with the environment of the cluster and its own variables.\<close>

definition launch :: "string \<Rightarrow> string list \<Rightarrow> (string \<times> string) list \<Rightarrow> cluster \<Rightarrow> nat \<times> cluster" where
  "launch name command env s =
     (let pid = length (cu_os s) in
      (pid, s\<lparr>cu_logs := cu_logs s @ [(name @ ''-'' @ nat_text (length (cu_logs s)) @ ''.log'', True)],
              cu_os := cu_os s @ [\<lparr>op_pid = pid, op_parent = None, op_command = command,
                op_env = overriding (cu_env s) env, op_alive = True\<rparr>],
              cu_processes := cu_processes s @ [pid]\<rparr>))"

definition coordinator_command :: "nat \<Rightarrow> string list" where
  "coordinator_command port = [''-m'', ''uvicorn'', ''greyqueue.api:create_app'', ''--factory'', ''--host'',
     ''127.0.0.1'', ''--port'', nat_text port, ''--no-access-log'']"

text \<open>A poll of \<^verbatim>\<open>ready\<close>: the process has exited, the health check answers, or there is no connection.\<close>

datatype probe = Exited | Health nat | No_connection

definition ready :: "probe \<Rightarrow> string + unit option" where
  "ready x = (case x of
       Exited \<Rightarrow> Inl ''Coordinator exited''
     | Health st \<Rightarrow> Inr (if st = 200 then Some () else None)
     | No_connection \<Rightarrow> Inr None)"

definition start_coordinator ::
    "(nat \<Rightarrow> rat) \<Rightarrow> (nat \<Rightarrow> probe) \<Rightarrow> nat \<Rightarrow> cluster \<Rightarrow> (string wait_error + nat) option \<times> cluster" where
  "start_coordinator clock probes port s =
     (case launch ''coordinator'' (coordinator_command port) [] s of (pid, s') \<Rightarrow>
        (map_option (map_sum id (\<lambda>_. pid)) (wait_for clock (\<lambda>n. ready (probes n)) 45), s'))"

text \<open>\<^verbatim>\<open>worker\<close>: wait until the coordinator lists it; \<open>listed n\<close> is the answer to the n-th poll (or a failed one).\<close>

definition start_worker :: "(nat \<Rightarrow> rat) \<Rightarrow> (nat \<Rightarrow> nat + string list) \<Rightarrow> string \<Rightarrow> (string \<times> string) list
    \<Rightarrow> cluster \<Rightarrow> (nat wait_error + nat) option \<times> cluster" where
  "start_worker clock listed name env s =
     (case launch name [''-m'', ''greyqueue.worker''] ((''WORKER_ID'', name) # env) s of (pid, s') \<Rightarrow>
        (map_option (map_sum id (\<lambda>_. pid))
           (wait_for clock (\<lambda>n. map_sum id (\<lambda>ids. if name \<in> set ids then Some () else None) (listed n)) 45), s'))"

definition kill :: "nat \<Rightarrow> cluster \<Rightarrow> cluster" where
  "kill p s =
     (if alive p s then s\<lparr>cu_os := killed (p # descendants p (cu_os s)) (cu_os s)\<rparr> else s)"

text \<open>\<^verbatim>\<open>__exit__\<close>.\<close>

definition release :: "cluster \<Rightarrow> cluster" where
  "release s =
     (let s1 = fold kill (rev (cu_processes s)) s in
      s1\<lparr>cu_logs := map (\<lambda>(n, _). (n, False)) (cu_logs s1), cu_open := [],
         cu_schemas := filter (\<lambda>x. x \<noteq> cu_schema s1) (cu_schemas s1)\<rparr>)"

text \<open>
  \<^verbatim>\<open>__init__\<close>: a fresh schema, the connections, the migration (which has exited with \<open>code\<close>) and the first
  coordinator. An exception leaves the cluster as it is at that point.
\<close>

definition init_cluster :: "environ \<Rightarrow> string list \<Rightarrow> string \<Rightarrow> string \<Rightarrow> string \<Rightarrow> string \<Rightarrow> nat
    \<Rightarrow> (string \<times> string) list \<Rightarrow> nat \<Rightarrow> (nat \<Rightarrow> rat) \<Rightarrow> (nat \<Rightarrow> probe)
    \<Rightarrow> (string wait_error + nat) option \<times> cluster" where
  "init_cluster environ schemas schema url client_token worker_token port overrides code clock probes =
     (let s0 = \<lparr>cu_env = cluster_env environ url client_token worker_token port overrides,
                cu_processes = [], cu_logs = [], cu_schemas = schemas @ [schema], cu_schema = schema,
                cu_open = [''admin'', ''client'', ''engine''], cu_os = []\<rparr>;
          (migration, s1) = launch ''migration'' [''-m'', ''alembic'', ''upgrade'', ''head''] [] s0;
          s2 = s1\<lparr>cu_os := killed [migration] (cu_os s1)\<rparr> in
      if code \<noteq> 0 then (Some (Inl (Raised_by ''Migration failed'')), s2)
      else start_coordinator clock probes port s2)"

section \<open>The environment is accepted\<close>

lemma digit_value_char [simp]: "n < 10 \<Longrightarrow> digit_value (digit_char n) = Some n"
proof -
  have "n < 10 \<Longrightarrow> n \<in> {0, 1, 2, 3, 4, 5, 6, 7, 8, 9}" by auto
  then show "n < 10 \<Longrightarrow> digit_value (digit_char n) = Some n"
    by (auto simp: digit_char_def digit_value_def)
qed

lemma digits_value_append:
  "digits_value acc (xs @ ys) = Option.bind (digits_value acc xs) (\<lambda>a. digits_value a ys)"
  by (induction xs arbitrary: acc) (auto split: option.splits)

lemma digits_value_text: "digits_value 0 (nat_text n) = Some n"
proof (induction n rule: nat_text.induct)
  case (1 n)
  then show ?case
    by (subst nat_text.simps) (auto simp: digits_value_append)
qed

lemma nat_text_nonempty [simp]: "nat_text n \<noteq> []"
  by (subst nat_text.simps) simp

lemma read_int_text [simp]: "read_int (nat_text n) = Some (int n)"
  by (simp add: read_int_def digits_value_text)

lemma overriding_lookup:
  "overriding env kvs k = (case map_of (rev kvs) k of None \<Rightarrow> env k | Some v \<Rightarrow> Some v)"
  by (induction kvs arbitrary: env) (auto simp: overriding_def split: option.splits)

lemma read_literals:
  "read_float ''0.4'' = Some (2 / 5)" "read_float ''1.2'' = Some (6 / 5)" "read_float ''2.4'' = Some (12 / 5)"
  "read_float ''2'' = Some 2" "read_float ''0.2'' = Some (1 / 5)" "read_float ''0.05'' = Some (1 / 20)"
  "read_float ''15'' = Some 15" "read_float ''10'' = Some 10" "read_float ''20'' = Some 20"
  "read_int ''2'' = Some 2" "read_int ''20000'' = Some 20000" "read_int ''100000'' = Some 100000"
  "read_int ''8'' = Some 8"
  by (simp_all add: read_float_def read_int_def digit_value_def)

text \<open>The overrides the scripts of the repository pass.\<close>

definition script_overrides :: "(string \<times> string) list \<Rightarrow> bool" where
  "script_overrides kvs \<longleftrightarrow> kvs = [] \<or> kvs = [(''QUEUE_LIMIT'', ''8'')]
     \<or> (\<exists>strategy \<in> set STRATEGIES. \<exists>n. 1 \<le> n \<and> n \<le> 32 \<and> kvs = bench_overrides strategy n)"

lemma cluster_loads:
  assumes tokens: "16 \<le> length ct" "16 \<le> length wt" "ct \<noteq> wt"
    and clean: "\<forall>k \<in> {''WORKER_ID'', ''CAPABILITIES'', ''SCHEDULER'', ''REQUIRE_TLS'', ''ALLOWED_HOSTS''}.
      dotenv k = None \<and> environ k = None"
    and kvs: "script_overrides kvs"
  shows "\<exists>c. load_settings items dotenv (cluster_env environ url ct wt port kvs) = Some c
    \<and> cfg_database_url c = url \<and> cfg_client_token c = ct \<and> ws_worker_token c = wt"
proof -
  let ?e = "dotenv ++ cluster_env environ url ct wt port kvs"
  note look = map_add_def cluster_env_def overriding_lookup field_def read_literals
  note accept = Settings_accepted_def Settings_fields_def WorkerSettings_fields_def timings_def
    worker_settings.truncate_def
  from kvs consider "kvs = []" | "kvs = [(''QUEUE_LIMIT'', ''8'')]"
    | st n where "st \<in> set STRATEGIES" "1 \<le> n" "n \<le> 32" "kvs = bench_overrides st n"
    by (auto simp: script_overrides_def)
  then show ?thesis
  proof cases
    case 1
    then show ?thesis using tokens clean
      by (simp add: load_settings_def Settings_of_def look accept)
  next
    case 2
    then show ?thesis using tokens clean
      by (simp add: load_settings_def Settings_of_def look accept)
  next
    case 3
    then show ?thesis using tokens clean
      by (auto simp: load_settings_def Settings_of_def look accept bench_overrides_def STRATEGIES_def)
  qed
qed

section \<open>The life of a cluster\<close>

text \<open>
  What happens between \<^verbatim>\<open>__init__\<close> and \<^verbatim>\<open>__exit__\<close>: the script launches processes and kills some; a living process
  starts a child (the task processes of a worker), and a process that has no living child exits.
\<close>

definition spawned :: "nat \<Rightarrow> string list \<Rightarrow> cluster \<Rightarrow> cluster" where
  "spawned p command s = s\<lparr>cu_os := cu_os s @ [\<lparr>op_pid = length (cu_os s), op_parent = Some p,
     op_command = command, op_env = cu_env s, op_alive = True\<rparr>]\<rparr>"

definition childless :: "nat \<Rightarrow> cluster \<Rightarrow> bool" where
  "childless p s \<longleftrightarrow> list_all (\<lambda>q. op_alive q \<longrightarrow> op_parent q \<noteq> Some p) (cu_os s)"

definition exited :: "nat \<Rightarrow> cluster \<Rightarrow> cluster" where
  "exited p s = s\<lparr>cu_os := killed [p] (cu_os s)\<rparr>"

datatype cluster_event = Launched string "string list" "(string \<times> string) list" | Spawned nat "string list"
  | Exits nat | Kills nat

inductive cluster_step :: "cluster \<Rightarrow> cluster_event \<Rightarrow> cluster \<Rightarrow> bool" where
  launches: "cluster_step s (Launched name command env) (snd (launch name command env s))"
| spawns: "alive p s \<Longrightarrow> cluster_step s (Spawned p command) (spawned p command s)"
| exits: "childless p s \<Longrightarrow> cluster_step s (Exits p) (exited p s)"
| kills: "cluster_step s (Kills p) (kill p s)"

inductive_cases cluster_stepE: "cluster_step s e s'"

text \<open>Processes are numbered in the order of creation, and a living one is a launched one or has a living parent.\<close>

definition attended :: "cluster \<Rightarrow> os_proc \<Rightarrow> bool" where
  "attended s q \<longleftrightarrow> (case op_parent q of
       None \<Rightarrow> op_pid q \<in> set (cu_processes s)
     | Some r \<Rightarrow> r < op_pid q \<and> (op_alive q \<longrightarrow> alive r s))"

definition tended :: "cluster \<Rightarrow> bool" where
  "tended s \<longleftrightarrow> map op_pid (cu_os s) = [0..<length (cu_os s)] \<and> (\<forall>q \<in> set (cu_os s). attended s q)"

lemma descendants_Nil [simp]: "descendants p [] = []"
  by (simp add: descendants_def)

lemma descendants_snoc:
  "descendants p (ps @ [q]) = (let found = descendants p ps in
     if op_alive q \<and> (case op_parent q of None \<Rightarrow> False | Some r \<Rightarrow> r = p \<or> r \<in> set found)
     then found @ [op_pid q] else found)"
  by (simp add: descendants_def Let_def)

lemma descendants_pids: "set (descendants p ps) \<subseteq> op_pid ` set ps"
  by (induction ps rule: rev_induct) (auto simp: descendants_snoc Let_def split: option.splits)

text \<open>One pass finds every descendant, because children stand behind their parents.\<close>

lemma descendants_closed:
  assumes "sorted_wrt (<) (map op_pid ps)" "\<forall>q \<in> set ps. \<forall>r. op_parent q = Some r \<longrightarrow> r < op_pid q"
    and "q \<in> set ps" "op_alive q" "op_parent q = Some r" "r = p \<or> r \<in> set (descendants p ps)"
  shows "op_pid q \<in> set (descendants p ps)"
  using assms
proof (induction ps rule: rev_induct)
  case Nil
  then show ?case by simp
next
  case (snoc x ps)
  have below: "\<forall>y \<in> set ps. op_pid y < op_pid x" using snoc.prems(1) by (simp add: sorted_wrt_append)
  have rq: "r < op_pid q" using snoc.prems by blast
  have r: "r = p \<or> r \<in> set (descendants p ps)"
  proof (cases "r = op_pid x")
    case True
    then show ?thesis using rq below snoc.prems(3) by fastforce
  next
    case False
    then show ?thesis using snoc.prems(6) by (auto simp: descendants_snoc Let_def split: if_splits)
  qed
  show ?case
  proof (cases "q = x")
    case True
    then show ?thesis using r snoc.prems by (simp add: descendants_snoc Let_def)
  next
    case False
    then have "op_pid q \<in> set (descendants p ps)" using snoc r by (simp add: sorted_wrt_append)
    then show ?thesis by (auto simp: descendants_snoc Let_def)
  qed
qed

lemma tended_sorted: "tended s \<Longrightarrow> sorted_wrt (<) (map op_pid (cu_os s))"
  by (simp add: tended_def)

lemma tended_parent:
  "tended s \<Longrightarrow> q \<in> set (cu_os s) \<Longrightarrow> op_parent q = Some r \<Longrightarrow> r < op_pid q \<and> (op_alive q \<longrightarrow> alive r s)"
  by (force simp: tended_def attended_def)

lemma alive_killed:
  "alive r (s\<lparr>cu_os := killed ds (cu_os s)\<rparr>) \<longleftrightarrow> alive r s \<and> r \<notin> set ds"
  by (auto simp: alive_def killed_def)

lemma killed_pids [simp]: "map op_pid (killed ds ps) = map op_pid ps" "length (killed ds ps) = length ps"
  by (simp_all add: killed_def)

lemma set_killed: "set (killed ds ps) = (\<lambda>q. if op_pid q \<in> set ds then q\<lparr>op_alive := False\<rparr> else q) ` set ps"
  by (simp add: killed_def)

text \<open>Ending a set of processes that contains the living children of its members keeps the tree tended.\<close>

lemma tended_killed:
  assumes t: "tended s"
    and down: "\<And>q r. q \<in> set (cu_os s) \<Longrightarrow> op_alive q \<Longrightarrow> op_parent q = Some r \<Longrightarrow> r \<in> set ds
      \<Longrightarrow> op_pid q \<in> set ds"
  shows "tended (s\<lparr>cu_os := killed ds (cu_os s)\<rparr>)"
proof -
  have "attended (s\<lparr>cu_os := killed ds (cu_os s)\<rparr>) (if op_pid q \<in> set ds then q\<lparr>op_alive := False\<rparr> else q)"
    if q: "q \<in> set (cu_os s)" for q
  proof (cases "op_parent q")
    case None
    then show ?thesis using t q by (force simp: tended_def attended_def)
  next
    case (Some r)
    then show ?thesis using tended_parent [OF t q Some] down [OF q _ Some]
      by (auto simp: attended_def alive_killed)
  qed
  then have "\<forall>q \<in> set (killed ds (cu_os s)). attended (s\<lparr>cu_os := killed ds (cu_os s)\<rparr>) q"
    unfolding set_killed by blast
  then show ?thesis using t by (simp add: tended_def)
qed

lemma kill_tended: "tended s \<Longrightarrow> tended (kill p s)"
  using descendants_closed [OF tended_sorted, of s _ _ p] tended_parent [of s]
  by (auto simp: kill_def intro!: tended_killed)

lemma exited_tended: "tended s \<Longrightarrow> childless p s \<Longrightarrow> tended (exited p s)"
  unfolding exited_def by (rule tended_killed) (auto simp: childless_def list_all_iff)

lemma alive_snoc [simp]:
  "alive r (s\<lparr>cu_os := cu_os s @ [q]\<rparr>) \<longleftrightarrow> alive r s \<or> op_pid q = r \<and> op_alive q"
  "alive r (s\<lparr>cu_logs := l, cu_os := cu_os s @ [q], cu_processes := ps\<rparr>) \<longleftrightarrow> alive r s \<or> op_pid q = r \<and> op_alive q"
  by (auto simp: alive_def)

lemma tended_pid: "tended s \<Longrightarrow> alive p s \<Longrightarrow> p < length (cu_os s)"
proof -
  assume "tended s" "alive p s"
  then have "p \<in> set (map op_pid (cu_os s))" "map op_pid (cu_os s) = [0..<length (cu_os s)]"
    unfolding alive_def tended_def set_map by blast+
  then show ?thesis by (metis atLeastLessThan_iff set_upt)
qed

lemma launch_tended: "tended s \<Longrightarrow> tended (snd (launch name command env s))"
  by (auto simp: tended_def launch_def attended_def Let_def split: option.splits)

lemma spawned_tended: "tended s \<Longrightarrow> alive p s \<Longrightarrow> tended (spawned p command s)"
  using tended_pid [of s p] by (auto simp: tended_def spawned_def attended_def split: option.splits)

lemma cluster_step_tended: "cluster_step s e s' \<Longrightarrow> tended s \<Longrightarrow> tended s'"
  by (erule cluster_stepE) (auto intro: launch_tended spawned_tended exited_tended kill_tended)

interpretation cluster_system: invariant_system "\<lambda>s s'. \<exists>e. cluster_step s e s'" tended
  by unfold_locales (blast intro: cluster_step_tended)

text \<open>\<open>init_cluster\<close> hands over a tended cluster, and its fixed parts stay as they are.\<close>

lemma start_coordinator_state:
  "snd (start_coordinator clock probes port s) = snd (launch ''coordinator'' (coordinator_command port) [] s)"
  by (simp add: start_coordinator_def split: prod.splits)

lemma init_cluster_tended:
  "tended (snd (init_cluster environ schemas schema url ct wt port kvs code clock probes))"
  by (auto simp: init_cluster_def start_coordinator_state Let_def launch_def tended_def attended_def killed_def
      split: prod.splits)

lemma kill_frame [simp]:
  "cu_processes (kill p s) = cu_processes s" "cu_schema (kill p s) = cu_schema s"
  "cu_schemas (kill p s) = cu_schemas s" "cu_logs (kill p s) = cu_logs s"
  by (simp_all add: kill_def)

lemma cluster_step_frame:
  "cluster_step s e s' \<Longrightarrow> cu_schema s' = cu_schema s \<and> cu_schemas s' = cu_schemas s"
  by (erule cluster_stepE) (auto simp: launch_def spawned_def exited_def Let_def)

lemma cluster_run_frame:
  "(\<lambda>s s'. \<exists>e. cluster_step s e s')\<^sup>*\<^sup>* s s' \<Longrightarrow> cu_schema s' = cu_schema s \<and> cu_schemas s' = cu_schemas s"
  by (induction rule: rtranclp_induct) (auto dest: cluster_step_frame)

lemma kill_alive: "alive q (kill p s) \<Longrightarrow> alive q s \<and> q \<noteq> p"
  by (auto simp: kill_def alive_killed split: if_splits)

lemma kills_alive: "alive q (fold kill ps s) \<Longrightarrow> alive q s \<and> q \<notin> set ps"
  by (induction ps arbitrary: s) (auto dest: kill_alive)

lemma kills_frame [simp]:
  "cu_processes (fold kill ps s) = cu_processes s" "cu_schema (fold kill ps s) = cu_schema s"
  "cu_schemas (fold kill ps s) = cu_schemas s"
  by (induction ps arbitrary: s) auto

lemma kills_tended: "tended s \<Longrightarrow> tended (fold kill ps s)"
  by (induction ps arbitrary: s) (auto intro: kill_tended)

text \<open>Where every launched process has ended, every process has: its ancestors lead to a launched one.\<close>

lemma rootless_dead:
  assumes t: "tended s" and roots: "\<And>p. p \<in> set (cu_processes s) \<Longrightarrow> \<not> alive p s"
  shows "\<not> alive p s"
proof (induction p rule: less_induct)
  case (less p)
  show ?case
  proof
    assume "alive p s"
    then obtain q where q: "q \<in> set (cu_os s)" "op_pid q = p" "op_alive q" by (auto simp: alive_def)
    show False
    proof (cases "op_parent q")
      case None
      then have "p \<in> set (cu_processes s)" using t q by (force simp: tended_def attended_def)
      then show False using roots \<open>alive p s\<close> by blast
    next
      case (Some r)
      then show False using tended_parent [OF t q(1) Some] q less by blast
    qed
  qed
qed

lemma release_alive: "tended s \<Longrightarrow> \<not> alive p (release s)"
  using rootless_dead [OF kills_tended, of s "rev (cu_processes s)" p] kills_alive [of _ "rev (cu_processes s)" s]
  by (auto simp: release_def Let_def alive_def)

lemma init_cluster_schema:
  assumes "init_cluster environ schemas schema url ct wt port kvs code clock probes = (r, s)"
  shows "cu_schema s = schema \<and> cu_schemas s = schemas @ [schema] \<and> cu_open s = [''admin'', ''client'', ''engine'']"
proof -
  have s: "s = snd (init_cluster environ schemas schema url ct wt port kvs code clock probes)" using assms by simp
  show ?thesis unfolding s
    by (auto simp: init_cluster_def start_coordinator_state Let_def launch_def split: prod.splits)
qed

text \<open>
  An exception of \<^verbatim>\<open>__init__\<close> reaches the \<^verbatim>\<open>with\<close> statement before \<^verbatim>\<open>__exit__\<close> is registered: the schema, the
  connections and the logs of a cluster that failed to start are left behind.
\<close>

lemma failed_start_leaks:
  assumes "init_cluster environ schemas schema url ct wt port kvs code clock probes = (Some (Inl e), s)"
  shows "schema \<in> set (cu_schemas s) \<and> cu_open s \<noteq> [] \<and> (\<exists>n. (n, True) \<in> set (cu_logs s))"
proof -
  have "snd (init_cluster environ schemas schema url ct wt port kvs code clock probes) = s" using assms by simp
  then have "\<exists>n. (n, True) \<in> set (cu_logs s)"
    by (auto simp: init_cluster_def start_coordinator_state Let_def launch_def split: prod.splits if_splits)
  then show ?thesis using init_cluster_schema [OF assms] by simp
qed


definition sample_cluster :: cluster where
  "sample_cluster = snd (init_cluster Map.empty [''public''] ''experiment_a'' ''db'' ''c'' ''w'' 8810 [] 0
     (\<lambda>n. of_nat n) (\<lambda>n. if n < 3 then No_connection else Health 200))"


end
