(* ===== verification/Delivery.thy ===== *)
theory Delivery
  imports Composition Frames
begin

text \<open>
  Many workers and the coordinators as one system. Each slot of each worker process runs the loop of
  \<^verbatim>\<open>consume\<close> in \<^verbatim>\<open>worker.py\<close>: it draws a claim id, asks for a job, starts it, executes it and reports the
  result, and repeats a call whose answer was lost. Between these steps any other request and any
  maintenance transaction may run, slots may be dropped (a crash, a lost lease, a cancelled task), and
  leases may expire. What is stored in the end is what the tasks compute, and a job never has two
  executions whose leases are both open.
\<close>

section \<open>The deployment\<close>

text \<open>
  A slot between the calls of its loop. \<open>Reporting\<close> holds the result and whether it is already the
  replacement for a rejected one.
\<close>

datatype slot_work =
    Free
  | Asking claim_body
  | Given claim_body assignment_out
  | Executing claim_body assignment_out
  | Reporting claim_body assignment_out json bool

text \<open>The tables, the slots of all processes, and the claim ids drawn so far.\<close>

record deployment =
  dp_db :: database
  dp_slots :: "nat \<Rightarrow> slot_work"
  dp_claims :: "uuid set"

definition put_slot :: "nat \<Rightarrow> slot_work \<Rightarrow> deployment \<Rightarrow> deployment" where
  "put_slot n x s = s\<lparr>dp_slots := (dp_slots s)(n := x)\<rparr>"

text \<open>
  What the strategies are told is true of the task process: a process that exits with status 0 has run
  \<^verbatim>\<open>greyqueue.tasks\<close> and printed the encoding of what \<^verbatim>\<open>invoke\<close> returned, and the decoder reads it back.
\<close>

definition honest :: "env \<Rightarrow> (string \<Rightarrow> json option) \<Rightarrow> exec_job \<Rightarrow> observation \<Rightarrow> bool" where
  "honest env loads job obs \<longleftrightarrow> (case obs of
     Exited code out err \<Rightarrow> code = 0 \<longrightarrow> (\<exists>r. invoke env job = Inr r \<and> tasks_main env job = Inr out \<and> loads out = Some r)
   | _ \<Rightarrow> True)"

text \<open>The identifiers in the tables are read back from their texts.\<close>

definition reads_ids :: "(string \<Rightarrow> uuid) \<Rightarrow> database \<Rightarrow> bool" where
  "reads_ids uuid_of d \<longleftrightarrow> (\<forall>j \<in> set (jobs d). uuid_of (uuid_text (j_id j)) = j_id j)
     \<and> (\<forall>a \<in> set (attempts d). uuid_of (uuid_text (a_id a)) = a_id a)"

fun after_claim :: "claim_body \<Rightarrow> nat + assignment_out option \<Rightarrow> slot_work" where
  "after_claim body (Inr (Some item)) = Given body item"
| "after_claim body _ = Free"

fun after_start :: "claim_body \<Rightarrow> assignment_out \<Rightarrow> nat + string \<Rightarrow> slot_work" where
  "after_start body item (Inr _) = Executing body item"
| "after_start body item (Inl st) = Free"

fun after_finish :: "claim_body \<Rightarrow> assignment_out \<Rightarrow> bool \<Rightarrow> nat + string \<Rightarrow> slot_work" where
  "after_finish body item again (Inr _) = Free"
| "after_finish body item again (Inl st) =
     (if st \<in> REJECTED \<and> \<not> again then Reporting body item (rejection st) True else Free)"

text \<open>The requests other parties send: not the claims and reports of the slots.\<close>

fun of_slots :: "request \<Rightarrow> bool" where
  "of_slots (ClaimReq auth body cred) = True"
| "of_slots (FinishReq auth jid body cred) = True"
| "of_slots r = False"

definition ownership :: "(string \<Rightarrow> uuid) \<Rightarrow> claim_body \<Rightarrow> assignment_out \<Rightarrow> uuid \<times> assignment_body" where
  "ownership uuid_of body item =
     (uuid_of (jo_id (out_job item)), \<lparr>as_worker_id = cl_worker_id body, as_token = uuid_of (out_token item)\<rparr>)"

text \<open>
  One step. After a call the slot has its answer or, when the answer is lost, stays as it was (\<open>x\<close> is
  either), while the transaction may have been committed.
\<close>

inductive deploy_step ::
    "env \<Rightarrow> (string \<Rightarrow> json option) \<Rightarrow> settings \<Rightarrow> (string \<Rightarrow> uuid) \<Rightarrow> deployment \<Rightarrow> deployment \<Rightarrow> bool"
  for env :: env and loads :: "string \<Rightarrow> json option" and c :: settings and uuid_of :: "string \<Rightarrow> uuid" where
  draws: "\<lbrakk> dp_slots s n = Free; cl_claim_id body \<notin> dp_claims s; Claim_accepted body \<rbrakk>
    \<Longrightarrow> deploy_step env loads c uuid_of s
          ((put_slot n (Asking body) s)\<lparr>dp_claims := insert (cl_claim_id body) (dp_claims s)\<rparr>)"
| claims: "\<lbrakk> dp_slots s n = Asking body; scan_ok w; db w = dp_db s;
      call (claim_route env c auth body cred) w = (ans, w'); reads_ids uuid_of (db w');
      x \<in> {after_claim body ans, Asking body} \<rbrakk>
    \<Longrightarrow> deploy_step env loads c uuid_of s ((put_slot n x s)\<lparr>dp_db := db w'\<rparr>)"
| starts: "\<lbrakk> dp_slots s n = Given body item; scan_ok w; db w = dp_db s; ownership uuid_of body item = (jid, own);
      call (start_route env c auth jid own cred) w = (ans', w');
      x \<in> {after_start body item ans', Given body item} \<rbrakk>
    \<Longrightarrow> deploy_step env loads c uuid_of s ((put_slot n x s)\<lparr>dp_db := db w'\<rparr>)"
| executes: "\<lbrakk> dp_slots s n = Executing body item; honest env loads (exec_of (out_job item)) obs;
      run_job env loads strategy (exec_of (out_job item)) obs = Some result \<rbrakk>
    \<Longrightarrow> deploy_step env loads c uuid_of s (put_slot n (Reporting body item result False) s)"
| reports: "\<lbrakk> dp_slots s n = Reporting body item result again; scan_ok w; db w = dp_db s;
      ownership uuid_of body item = (jid, own);
      finish_call env c auth (cl_worker_id body) cred jid (as_token own) result w = (ans', w');
      x \<in> {after_finish body item again ans', Reporting body item result again} \<rbrakk>
    \<Longrightarrow> deploy_step env loads c uuid_of s ((put_slot n x s)\<lparr>dp_db := db w'\<rparr>)"
| drops: "deploy_step env loads c uuid_of s (put_slot n Free s)"
| others: "\<lbrakk> accepted env r; \<not> of_slots r; scan_ok w; db w = dp_db s; run_tx (transact env c r) w = (res, w') \<rbrakk>
    \<Longrightarrow> deploy_step env loads c uuid_of s (s\<lparr>dp_db := db w'\<rparr>)"

inductive_cases deploy_stepE: "deploy_step env loads c uuid_of s s'"

definition deploy_start :: deployment where
  "deploy_start = \<lparr>dp_db = empty_db, dp_slots = (\<lambda>n. Free), dp_claims = {}\<rparr>"

definition deploy_reachable ::
    "env \<Rightarrow> (string \<Rightarrow> json option) \<Rightarrow> settings \<Rightarrow> (string \<Rightarrow> uuid) \<Rightarrow> deployment \<Rightarrow> bool" where
  "deploy_reachable env loads c uuid_of s \<longleftrightarrow> (deploy_step env loads c uuid_of)\<^sup>*\<^sup>* deploy_start s"

section \<open>Stored arguments are validated\<close>

definition valid_jobs :: "env \<Rightarrow> database \<Rightarrow> bool" where
  "valid_jobs env d \<longleftrightarrow> list_all (\<lambda>j. validate env (j_task j) (j_args j) = Inr (j_args j)) (jobs d)"

lemma valid_jobs_write: "(\<And>j. same_request j (f j)) \<Longrightarrow> valid_jobs env d \<Longrightarrow> valid_jobs env (set_job i f d)"
  by (auto simp: valid_jobs_def list_all_iff set_job_def set_row_def same_request_def)

interpretation validity: completion_frame "valid_jobs env" for env
  by unfold_locales (simp_all add: valid_jobs_write, simp_all add: valid_jobs_def row_simps)

interpretation validity_fleet: fleet_frame "valid_jobs env" for env
  by unfold_locales (simp add: valid_jobs_def)

lemma admit_valid:
  assumes "strict_models env"
  shows "preserves (valid_jobs env) (admit env body limit rate)"
  unfolding preserves_def
proof (intro allI impI)
  fix w x w'
  assume run: "admit env body limit rate w = Inr (x, w')" and ok: "valid_jobs env (db w)"
  obtain job created where x: "x = (job, created)" by (cases x)
  have "validate env (sub_task body) args = Inr args" if "admit_args env (sub_task body) (sub_args body) = Inr args" for args
    using that validate_idempotent [OF assms] by (auto simp: admit_args_def split: sum.splits exn.splits if_splits)
  with run ok show "valid_jobs env (db w')"
    unfolding x admit_iff by (auto simp: valid_jobs_def admitted_def row_simps new_job_def)
qed

lemma submit_valid: "strict_models env \<Longrightarrow> preserves (valid_jobs env) (submit_route env c auth body)"
  unfolding submit_route_def
  by (intro preserves_intros preserves_wrapped [OF admit_valid [of env body "cfg_queue_limit c" "cfg_submissions_per_minute c"]])
    (auto split: sum.splits if_splits)

lemma transact_valid:
  assumes "strict_models env"
  shows "preserves (valid_jobs env) (transact env c r)"
  by (cases r) (auto intro!: preserves_effect submit_valid [OF assms] validity.keep_claim_route validity.keep_job_routes
      validity.keep_finish_route validity.keep_operations validity_fleet.keep_fleet_routes)

section \<open>What an execution returns\<close>

definition computes :: "env \<Rightarrow> string \<Rightarrow> json \<Rightarrow> int \<Rightarrow> json \<Rightarrow> bool" where
  "computes env task args k out \<longleftrightarrow> (\<exists>slept. execute env task args k = Inr (slept, out))"

lemma invoke_output:
  assumes "invoke env job = Inr r" and "has_key ''output'' r" and "ej_attempt_count job = Some k"
  shows "computes env (ej_task job) (ej_args job) k (dict_get ''output'' r)"
  using assms by (auto simp: invoke_def computes_def split: sum.splits exn.splits if_splits)

lemma sleep_output:
  assumes "strict_models env" and "validate env ''sleep'' args = Inr args"
  shows "computes env ''sleep'' args k (JObj [(''slept_seconds'', dict_get ''seconds'' args)])"
proof -
  have "conforms SleepArgs args" using validate_conforms [OF assms] by (auto simp: REGISTRY_def)
  then obtain x where "args = JObj [(''seconds'', JFloat x)]"
    by (auto simp: args_defs conforms_single field_ok_cases)
  with assms(2) show ?thesis by (simp add: computes_def execute_def obj_get_def dict_get_def)
qed

lemma parse_honest:
  assumes "invoke env job = Inr r" and "loads out = Some r"
  shows "parse_output loads out = r"
  using assms invoke_one_sided by (auto simp: parse_output_def one_sided_def)

lemma dispatch_output:
  assumes strict: "strict_models env" and args: "validate env (ej_task job) (ej_args job) = Inr (ej_args job)"
    and honest: "honest env loads job obs" and count: "ej_attempt_count job = Some k"
    and run: "dispatch env loads strategy job obs = Inr r" and out: "has_key ''output'' r"
  shows "computes env (ej_task job) (ej_args job) k (dict_get ''output'' r)"
proof (cases "strategy = ''subprocess''")
  case True
  then obtain code printed err where obs: "obs = Exited code printed err" "code = 0" "r = parse_output loads printed"
    using run out by (auto simp: dispatch_def subprocess_result_def split: observation.splits if_splits)
  then obtain r' where "invoke env job = Inr r'" "loads printed = Some r'" using honest by (auto simp: honest_def)
  then show ?thesis using parse_honest obs(3) out invoke_output [OF _ _ count] by metis
next
  case False
  show ?thesis
  proof (cases "strategy = ''hybrid'' \<and> ej_task job = ''sleep''")
    case True
    with run out False have "r = success (JObj [(''slept_seconds'', dict_get ''seconds'' (ej_args job))])"
      by (auto simp: dispatch_def split: observation.splits)
    with True sleep_output [OF strict] args show ?thesis by simp
  next
    case other: False
    with run out False have "invoke env job = Inr r" by (auto simp: dispatch_def split: observation.splits if_splits)
    then show ?thesis using out count by (rule invoke_output)
  qed
qed

text \<open>A reported output is the task's: bounding a result replaces it by a failure or leaves it.\<close>

lemma run_job_output:
  assumes "strict_models env" "validate env (ej_task job) (ej_args job) = Inr (ej_args job)"
    and "honest env loads job obs" "ej_attempt_count job = Some k"
    and run: "run_job env loads strategy job obs = Some r" and out: "has_key ''output'' r"
  shows "computes env (ej_task job) (ej_args job) k (dict_get ''output'' r)"
proof -
  from run out obtain v where v: "dispatch env loads strategy job obs = Inr v" "r = bounded env v"
    by (auto simp: run_job_def split: if_splits sum.splits)
  with out bounded_storable(1) have "r = v" by metis
  with v out show ?thesis using dispatch_output [OF assms(1-4)] by simp
qed

section \<open>What a slot holds\<close>

text \<open>Attempts keep their identity, owner, claim and fence.\<close>

lemma step_keeps_lease:
  assumes "db_step d d'" and "keys_ok d" and "a \<in> set (attempts d)"
  shows "\<exists>a' \<in> set (attempts d'). same_lease a a'"
  using assms(1)
proof (cases rule: attempt_shape)
  case (lease b)
  then show ?thesis using assms(3) by (auto simp: same_lease_def)
next
  case (touch b b')
  then have "set (attempts d') = insert b' (set (attempts d) - {b})"
    using assms(2) by (simp add: put_attempt_rows)
  with touch(4) assms(3) show ?thesis by (cases "a = b") (auto simp: same_lease_def)
next
  case same
  then show ?thesis using assms(3) by (auto simp: same_lease_def)
qed

lemma run_keeps_lease:
  assumes "db_step\<^sup>*\<^sup>* d d'" and "db_inv d" and "a \<in> set (attempts d)"
  shows "\<exists>a' \<in> set (attempts d'). same_lease a a'"
  using assms(1)
proof induction
  case base
  show ?case using assms(3) by (auto simp: same_lease_def)
next
  case (step d1 d2)
  then obtain b where b: "b \<in> set (attempts d1)" "same_lease a b" by auto
  have "keys_ok d1" using lifecycle.run_inv [OF step(1) assms(2)] by (simp add: db_inv_def)
  from step_keeps_lease [OF step(2) this b(1)] b(2) show ?case by (auto simp: same_lease_def)
qed

text \<open>The attempt and the job an assignment stands for.\<close>

definition backed :: "(string \<Rightarrow> uuid) \<Rightarrow> claim_body \<Rightarrow> assignment_out \<Rightarrow> database \<Rightarrow> attempt_row \<Rightarrow> job_row \<Rightarrow> bool" where
  "backed uuid_of body item d a j \<longleftrightarrow> a \<in> set (attempts d) \<and> j \<in> set (jobs d) \<and> a_job_id a = j_id j
     \<and> a_claim_id a = cl_claim_id body \<and> a_worker_id a = cl_worker_id body
     \<and> uuid_of (out_token item) = a_id a \<and> uuid_of (jo_id (out_job item)) = j_id j
     \<and> jo_task (out_job item) = j_task j \<and> jo_args (out_job item) = j_args j
     \<and> jo_attempt_count (out_job item) = a_fence a"

lemma backed_later:
  assumes "backed uuid_of body item d a j" and "db_step\<^sup>*\<^sup>* d d'" and "db_inv d"
  shows "\<exists>a' j'. backed uuid_of body item d' a' j'"
proof -
  obtain a' where "a' \<in> set (attempts d')" "same_lease a a'"
    using run_keeps_lease [OF assms(2,3)] assms(1) by (auto simp: backed_def)
  moreover obtain j' where "j' \<in> set (jobs d')" "same_request j j'"
    using run_keeps_job [OF assms(2,3)] assms(1) by (auto simp: backed_def)
  ultimately show ?thesis using assms(1)
    by (intro exI [of _ a'] exI [of _ j']) (simp add: backed_def same_lease_def same_request_def)
qed

lemma claim_backed:
  assumes inv: "db_inv (db w)" and ids: "reads_ids uuid_of (db w')"
    and run: "call (claim_route env c auth body cred) w = (Inr (Some item), w')"
  shows "\<exists>a j. backed uuid_of body item (db w') a j"
proof -
  have route: "claim_route env c auth body cred w = Inr (Some item, w')"
    using run by (auto simp: call_def handle_def run_tx_def split: sum.splits prod.splits)
  obtain job att v where lease: "holds att job (db w')" "a_worker_id att = cl_worker_id body"
    "out_job item = serialize env (db w') None job" "out_token item = uuid_text (a_id att)"
    "a_claim_id att = cl_claim_id body"
    by (rule claim_route_holds [OF inv route]) (rule that)
  then have "backed uuid_of body item (db w') att job"
    using ids by (auto simp: backed_def holds_def reads_ids_def serialize_def serialize_with_def)
  then show ?thesis by blast
qed

section \<open>The invariant\<close>

text \<open>Stored outputs, each explained by an attempt of its job.\<close>

definition explained :: "env \<Rightarrow> database \<Rightarrow> uuid \<Rightarrow> json \<Rightarrow> bool" where
  "explained env d i out \<longleftrightarrow> (\<exists>j \<in> set (jobs d). \<exists>a \<in> set (attempts d). j_id j = i \<and> a_job_id a = i
     \<and> computes env (j_task j) (j_args j) (a_fence a) out)"

definition outputs :: "database \<Rightarrow> (uuid \<times> json) set" where
  "outputs d = {(r_job_id r, out) |r out. r \<in> set (results d) \<and> r_output r = Some out}"

lemma explained_later:
  assumes "explained env d i out" and "db_step\<^sup>*\<^sup>* d d'" and "db_inv d"
  shows "explained env d' i out"
proof -
  from assms(1) obtain j a where ja: "j \<in> set (jobs d)" "a \<in> set (attempts d)" "j_id j = i" "a_job_id a = i"
    "computes env (j_task j) (j_args j) (a_fence a) out" by (auto simp: explained_def)
  obtain a' where "a' \<in> set (attempts d')" "same_lease a a'" using run_keeps_lease [OF assms(2,3) ja(2)] by blast
  moreover obtain j' where "j' \<in> set (jobs d')" "same_request j j'" using run_keeps_job [OF assms(2,3) ja(1)] by blast
  ultimately show ?thesis using ja
    unfolding explained_def by (intro bexI [of _ j'] bexI [of _ a']) (simp_all add: same_lease_def same_request_def)
qed

text \<open>Only a completion adds an output.\<close>

interpretation unanswered: admission_frame "\<lambda>d. outputs d \<subseteq> X" for X
  by unfold_locales (auto simp: outputs_def row_simps)

interpretation unanswered_fleet: fleet_frame "\<lambda>d. outputs d \<subseteq> X" for X
  by unfold_locales (auto simp: outputs_def)

lemma silent_outputs:
  assumes "\<not> of_slots r"
  shows "preserves (\<lambda>d. outputs d \<subseteq> X) (transact env c r)"
  using assms
  by (cases r) (auto intro!: preserves_effect unanswered.keep_submit_route unanswered.keep_job_routes
      unanswered.keep_operations unanswered_fleet.keep_fleet_routes)

lemma finish_outputs:
  assumes "finish jid wid tok output error retryable w = Inr (u, w')"
  shows "outputs (db w') \<subseteq> outputs (db w) \<union> {(jid, out) |out. output = Some out \<and> error = None}"
proof -
  have failed: "outputs (db w') \<subseteq> outputs (db w)"
    if "fail_attempt job att msg retryable OutFailed (tick (tick w)) = Inr ((), w')" for job att msg
    using preservesD [OF unanswered.keep_fail_attempt [of "outputs (db w)"] that] by simp
  from assms obtain job att w1 where own: "owned jid wid tok True w = Inr ((job, att), w1)"
    and ending: "w' = w \<or> (case error of
        Some msg \<Rightarrow> fail_attempt job att msg retryable OutFailed (tick (tick w)) = Inr ((), w')
      | None \<Rightarrow> results (db w') = results (db w) @ [\<lparr>r_job_id = j_id job, r_output = output, r_error = None\<rparr>])"
    unfolding finish_iff by (elim exE conjE disjE) (auto simp: moved_def with_result_def row_simps split: option.splits)
  have "j_id job = jid" by (rule owned_rows(2) [OF own])
  show ?thesis
  proof (cases error)
    case None
    with ending \<open>j_id job = jid\<close> show ?thesis by (auto simp: outputs_def)
  next
    case (Some msg)
    with ending failed show ?thesis by auto
  qed
qed

fun claim_of :: "slot_work \<Rightarrow> uuid option" where
  "claim_of Free = None"
| "claim_of (Asking body) = Some (cl_claim_id body)"
| "claim_of (Given body item) = Some (cl_claim_id body)"
| "claim_of (Executing body item) = Some (cl_claim_id body)"
| "claim_of (Reporting body item result again) = Some (cl_claim_id body)"

definition held :: "(string \<Rightarrow> uuid) \<Rightarrow> database \<Rightarrow> claim_body \<Rightarrow> assignment_out \<Rightarrow> bool" where
  "held uuid_of d body item \<longleftrightarrow> Claim_accepted body \<and> (\<exists>a j. backed uuid_of body item d a j)"

text \<open>An output about to be reported was computed from what the assignment says.\<close>

fun slot_ok :: "env \<Rightarrow> (string \<Rightarrow> uuid) \<Rightarrow> database \<Rightarrow> slot_work \<Rightarrow> bool" where
  "slot_ok env uuid_of d Free = True"
| "slot_ok env uuid_of d (Asking body) = Claim_accepted body"
| "slot_ok env uuid_of d (Given body item) = held uuid_of d body item"
| "slot_ok env uuid_of d (Executing body item) = held uuid_of d body item"
| "slot_ok env uuid_of d (Reporting body item result again) =
     (held uuid_of d body item \<and> (has_key ''output'' result \<longrightarrow>
        computes env (jo_task (out_job item)) (jo_args (out_job item)) (jo_attempt_count (out_job item))
          (dict_get ''output'' result)))"

text \<open>Claim ids are drawn once.\<close>

definition claims_ok :: "(nat \<Rightarrow> slot_work) \<Rightarrow> uuid set \<Rightarrow> bool" where
  "claims_ok slots C \<longleftrightarrow> (\<forall>n cid. claim_of (slots n) = Some cid \<longrightarrow> cid \<in> C)
     \<and> (\<forall>n m cid. claim_of (slots n) = Some cid \<longrightarrow> claim_of (slots m) = Some cid \<longrightarrow> n = m)"

definition deploy_inv :: "env \<Rightarrow> settings \<Rightarrow> (string \<Rightarrow> uuid) \<Rightarrow> deployment \<Rightarrow> bool" where
  "deploy_inv env c uuid_of s \<longleftrightarrow> reachable env c (dp_db s) \<and> valid_jobs env (dp_db s)
     \<and> (\<forall>(i, out) \<in> outputs (dp_db s). explained env (dp_db s) i out)
     \<and> (\<forall>n. slot_ok env uuid_of (dp_db s) (dp_slots s n)) \<and> claims_ok (dp_slots s) (dp_claims s)"

lemma held_later: "held uuid_of d body item \<Longrightarrow> db_step\<^sup>*\<^sup>* d d' \<Longrightarrow> db_inv d \<Longrightarrow> held uuid_of d' body item"
  unfolding held_def using backed_later by blast

lemma slot_ok_later: "slot_ok env uuid_of d x \<Longrightarrow> db_step\<^sup>*\<^sup>* d d' \<Longrightarrow> db_inv d \<Longrightarrow> slot_ok env uuid_of d' x"
  by (cases x) (auto intro: held_later)

lemma call_transacts: "call m w = (ans, w') \<Longrightarrow> \<exists>res. run_tx (effect m) w = (res, w')"
  by (auto simp: call_def handle_def run_tx_def effect_def tx_bind_def tx_return_def split: sum.splits prod.splits)

text \<open>A committed transaction leaves everything in order but the outputs it adds.\<close>

lemma deploy_transaction:
  assumes inv: "deploy_inv env c uuid_of s" and strict: "strict_models env"
    and w: "scan_ok w" "db w = dp_db s" and r: "accepted env r" and run: "run_tx (transact env c r) w = (res, w')"
  shows "reachable env c (db w')" and "valid_jobs env (db w')" and "db_step\<^sup>*\<^sup>* (dp_db s) (db w')" and "db_inv (dp_db s)"
    and "\<forall>(i, out) \<in> outputs (dp_db s). explained env (db w') i out"
    and "\<forall>n. slot_ok env uuid_of (db w') (dp_slots s n)"
proof -
  have reach: "reachable env c (db w)" using inv w by (simp add: deploy_inv_def)
  note inv0 = reachable_db_inv [OF reach]
  show "reachable env c (db w')"
    using reach coordinator_step.transaction [OF r w(1) run] unfolding reachable_def by simp
  show "valid_jobs env (db w')"
    using preserves_commit [OF transact_valid [OF strict] run] inv w by (simp add: deploy_inv_def)
  show steps: "db_step\<^sup>*\<^sup>* (dp_db s) (db w')" using transact_run [OF r w(1) inv0 run] w(2) by simp
  show base: "db_inv (dp_db s)" using inv0 w(2) by simp
  show "\<forall>(i, out) \<in> outputs (dp_db s). explained env (db w') i out"
    using inv explained_later [OF _ steps base] by (auto simp: deploy_inv_def)
  show "\<forall>n. slot_ok env uuid_of (db w') (dp_slots s n)"
    using inv slot_ok_later [OF _ steps base] by (auto simp: deploy_inv_def)
qed

lemma claims_ok_move:
  assumes "claims_ok slots C" and "claim_of x = claim_of (slots n) \<or> claim_of x = None"
  shows "claims_ok (slots(n := x)) C"
proof -
  have old: "claim_of ((slots(n := x)) k) = Some cid \<Longrightarrow> claim_of (slots k) = Some cid" for k cid
    using assms(2) by (cases "k = n") auto
  show ?thesis unfolding claims_ok_def
  proof (intro conjI allI impI)
    show "cid \<in> C" if "claim_of ((slots(n := x)) k) = Some cid" for k cid
      using old [OF that] assms(1) by (auto simp: claims_ok_def)
    show "k = m" if "claim_of ((slots(n := x)) k) = Some cid" "claim_of ((slots(n := x)) m) = Some cid" for k m cid
      using old [OF that(1)] old [OF that(2)] assms(1) unfolding claims_ok_def by blast
  qed
qed

text \<open>A slot that moves on and keeps its claim id, or becomes free.\<close>

lemma deploy_move:
  assumes inv: "deploy_inv env c uuid_of s" and x: "claim_of x = claim_of (dp_slots s n) \<or> claim_of x = None"
    and d: "reachable env c d" "valid_jobs env d" "\<forall>(i, out) \<in> outputs d. explained env d i out"
    and slots: "\<forall>k. slot_ok env uuid_of d (dp_slots s k)" "slot_ok env uuid_of d x"
  shows "deploy_inv env c uuid_of ((put_slot n x s)\<lparr>dp_db := d\<rparr>)"
  using claims_ok_move [of "dp_slots s" "dp_claims s" x n, OF _ x] inv d slots by (simp add: deploy_inv_def put_slot_def)

text \<open>A call of a slot that adds no output of its own.\<close>

lemma deploy_silent_call:
  assumes inv: "deploy_inv env c uuid_of s" and strict: "strict_models env"
    and w: "scan_ok w" "db w = dp_db s" and r: "accepted env r" and run: "run_tx (transact env c r) w = (res, w')"
    and silent: "preserves (\<lambda>d. outputs d \<subseteq> outputs (dp_db s)) (transact env c r)"
    and x: "claim_of x = claim_of (dp_slots s n) \<or> claim_of x = None"
    and ok: "slot_ok env uuid_of (db w') x"
  shows "deploy_inv env c uuid_of ((put_slot n x s)\<lparr>dp_db := db w'\<rparr>)"
proof -
  note t = deploy_transaction [OF inv strict w r run]
  have "outputs (db w') \<subseteq> outputs (dp_db s)" using preserves_commit [OF silent run] w(2) by simp
  with t(5) have "\<forall>(i, out) \<in> outputs (db w'). explained env (db w') i out" by blast
  then show ?thesis by (rule deploy_move [OF inv x t(1,2) _ t(6) ok])
qed

section \<open>Every step keeps the invariant\<close>

lemma slot_ok_at: "deploy_inv env c uuid_of s \<Longrightarrow> dp_slots s n = x \<Longrightarrow> slot_ok env uuid_of (dp_db s) x"
  by (auto simp: deploy_inv_def)

lemma draws_inv:
  assumes inv: "deploy_inv env c uuid_of s" and free: "dp_slots s n = Free" and new: "cl_claim_id body \<notin> dp_claims s"
    and ok: "Claim_accepted body"
  shows "deploy_inv env c uuid_of ((put_slot n (Asking body) s)\<lparr>dp_claims := insert (cl_claim_id body) (dp_claims s)\<rparr>)"
proof -
  have old: "claims_ok (dp_slots s) (dp_claims s)" using inv by (simp add: deploy_inv_def)
  have "claims_ok ((dp_slots s)(n := Asking body)) (insert (cl_claim_id body) (dp_claims s))"
    using old new unfolding claims_ok_def by (auto split: if_splits)
  with inv ok show ?thesis by (simp add: deploy_inv_def put_slot_def)
qed

lemma claims_inv:
  assumes inv: "deploy_inv env c uuid_of s" and strict: "strict_models env" and slot: "dp_slots s n = Asking body"
    and w: "scan_ok w" "db w = dp_db s" and run: "call (claim_route env c auth body cred) w = (ans, w')"
    and ids: "reads_ids uuid_of (db w')" and x: "x \<in> {after_claim body ans, Asking body}"
  shows "deploy_inv env c uuid_of ((put_slot n x s)\<lparr>dp_db := db w'\<rparr>)"
proof -
  have body: "Claim_accepted body" using slot_ok_at [OF inv slot] by simp
  from call_transacts [OF run] obtain res where
    tx: "run_tx (transact env c (ClaimReq auth body cred)) w = (res, w')" by auto
  have inv0: "db_inv (db w)" using inv w reachable_db_inv by (auto simp: deploy_inv_def)
  have "slot_ok env uuid_of (db w') (after_claim body ans)"
  proof (cases "\<exists>item. ans = Inr (Some item)")
    case True
    then obtain item where "ans = Inr (Some item)" ..
    with claim_backed [OF inv0 ids] run body show ?thesis by (auto simp: held_def)
  next
    case False
    then have "after_claim body ans = Free" by (cases "(body, ans)" rule: after_claim.cases) auto
    then show ?thesis by simp
  qed
  moreover have "claim_of (after_claim body ans) \<in> {None, Some (cl_claim_id body)}"
    by (cases "(body, ans)" rule: after_claim.cases) auto
  ultimately have "slot_ok env uuid_of (db w') x" "claim_of x = claim_of (dp_slots s n) \<or> claim_of x = None"
    using x body slot by auto
  moreover have "preserves (\<lambda>d. outputs d \<subseteq> outputs (dp_db s)) (transact env c (ClaimReq auth body cred))"
    by (auto intro!: preserves_effect unanswered.keep_claim_route)
  ultimately show ?thesis using deploy_silent_call [OF inv strict w _ tx] body by simp
qed

lemma starts_inv:
  assumes inv: "deploy_inv env c uuid_of s" and strict: "strict_models env" and slot: "dp_slots s n = Given body item"
    and w: "scan_ok w" "db w = dp_db s" and own: "ownership uuid_of body item = (jid, own)"
    and run: "call (start_route env c auth jid own cred) w = (ans, w')"
    and x: "x \<in> {after_start body item ans, Given body item}"
  shows "deploy_inv env c uuid_of ((put_slot n x s)\<lparr>dp_db := db w'\<rparr>)"
proof -
  have held: "held uuid_of (dp_db s) body item" using slot_ok_at [OF inv slot] by simp
  then have r: "accepted env (StartReq auth jid own cred)"
    using own by (auto simp: held_def ownership_def Assignment_accepted_def Claim_accepted_def)
  from call_transacts [OF run] obtain res where
    tx: "run_tx (transact env c (StartReq auth jid own cred)) w = (res, w')" by auto
  have "held uuid_of (db w') body item"
    using deploy_transaction(6) [OF inv strict w r tx] slot by (metis slot_ok.simps(3))
  then have "slot_ok env uuid_of (db w') x" "claim_of x = claim_of (dp_slots s n) \<or> claim_of x = None"
    using x slot by (cases ans; auto)+
  moreover have "preserves (\<lambda>d. outputs d \<subseteq> outputs (dp_db s)) (transact env c (StartReq auth jid own cred))"
    by (auto intro!: preserves_effect unanswered.keep_job_routes)
  ultimately show ?thesis using deploy_silent_call [OF inv strict w r tx] by blast
qed

lemma executes_inv:
  assumes inv: "deploy_inv env c uuid_of s" and strict: "strict_models env" and slot: "dp_slots s n = Executing body item"
    and obs: "honest env loads (exec_of (out_job item)) obs"
    and run: "run_job env loads strategy (exec_of (out_job item)) obs = Some result"
  shows "deploy_inv env c uuid_of (put_slot n (Reporting body item result False) s)"
proof -
  have held: "held uuid_of (dp_db s) body item" using slot_ok_at [OF inv slot] by simp
  then obtain a j where row: "j \<in> set (jobs (dp_db s))" "jo_task (out_job item) = j_task j" "jo_args (out_job item) = j_args j"
    by (auto simp: held_def backed_def)
  have "validate env (j_task j) (j_args j) = Inr (j_args j)"
    using inv row(1) by (auto simp: deploy_inv_def valid_jobs_def list_all_iff)
  then have "has_key ''output'' result \<longrightarrow> computes env (jo_task (out_job item)) (jo_args (out_job item))
      (jo_attempt_count (out_job item)) (dict_get ''output'' result)"
    using run_job_output [OF strict _ obs _ run] row by (simp add: exec_of_def)
  with held have ok: "slot_ok env uuid_of (dp_db s) (Reporting body item result False)" by simp
  have "deploy_inv env c uuid_of ((put_slot n (Reporting body item result False) s)\<lparr>dp_db := dp_db s\<rparr>)"
    using inv slot by (intro deploy_move [OF inv _ _ _ _ _ ok]) (simp_all add: deploy_inv_def)
  then show ?thesis by (simp add: put_slot_def)
qed

lemma rejection_no_output: "\<not> has_key ''output'' (rejection st)"
  by (simp add: rejection_def has_key_def failure_def)

lemma completion_output:
  assumes "co_output (completion_of wid tok result) = Some out"
  shows "has_key ''output'' result" and "dict_get ''output'' result = out"
proof -
  show out: "dict_get ''output'' result = out"
    using assms by (auto simp: completion_of_def split: json.splits)
  have "dict_get ''output'' result \<noteq> JNull" using assms by (auto simp: completion_of_def)
  then show "has_key ''output'' result"
    by (auto simp: has_key_def dict_get_def split: json.splits option.splits dest: map_of_SomeD)
      (metis fst_conv image_eqI map_of_SomeD)
qed

lemma finish_route_outputs:
  assumes "run_tx (effect (finish_route env c auth jid body cred)) w = (res, w')"
  shows "outputs (db w') \<subseteq> outputs (db w) \<union> {(jid, out) |out. co_output body = Some out}"
proof -
  have keep: "preserves (\<lambda>d. outputs d \<subseteq> outputs (db w) \<union> {(jid, out) |out. co_output body = Some out})
      (finish jid (as_worker_id body) (as_token body) (co_output body) (co_error body) (co_retryable body))"
    unfolding preserves_def using finish_outputs by fast
  have "preserves (\<lambda>d. outputs d \<subseteq> outputs (db w) \<union> {(jid, out) |out. co_output body = Some out})
      (effect (finish_route env c auth jid body cred))"
    unfolding finish_route_def by (intro preserves_intros keep)
  from preserves_commit [OF this assms] show ?thesis by blast
qed

lemma reports_inv:
  assumes inv: "deploy_inv env c uuid_of s" and strict: "strict_models env"
    and slot: "dp_slots s n = Reporting body item result again"
    and w: "scan_ok w" "db w = dp_db s" and own: "ownership uuid_of body item = (jid, own)"
    and run: "finish_call env c auth (cl_worker_id body) cred jid (as_token own) result w = (ans, w')"
    and x: "x \<in> {after_finish body item again ans, Reporting body item result again}"
  shows "deploy_inv env c uuid_of ((put_slot n x s)\<lparr>dp_db := db w'\<rparr>)"
proof -
  let ?body = "completion_of (cl_worker_id body) (as_token own) result"
  let ?now = "Reporting body item result again"
  have claim: "claim_of x = claim_of (dp_slots s n) \<or> claim_of x = None"
    using x slot by (cases ans) (auto split: if_splits)
  have next_ok: "slot_ok env uuid_of d x" if "slot_ok env uuid_of d ?now" for d
    using that x rejection_no_output by (cases ans) (auto split: if_splits)
  show ?thesis
  proof (cases "Completion_accepted env ?body")
    case False
    with run have "db w' = dp_db s" using w by (simp add: finish_call_def Let_def)
    moreover have "slot_ok env uuid_of (dp_db s) x" using slot_ok_at [OF inv slot] by (rule next_ok)
    ultimately show ?thesis using inv by (intro deploy_move [OF inv claim]) (simp_all add: deploy_inv_def)
  next
    case True
    with run have "call (finish_route env c auth jid ?body cred) w = (ans, w')" by (simp add: finish_call_def Let_def)
    from call_transacts [OF this] obtain res where
      tx: "run_tx (transact env c (FinishReq auth jid ?body cred)) w = (res, w')" by auto
    have r: "accepted env (FinishReq auth jid ?body cred)" using True by simp
    note t = deploy_transaction [OF inv strict w r tx]
    have now: "slot_ok env uuid_of (db w') ?now" using t(6) slot by metis
    have new: "explained env (db w') jid out" if "co_output ?body = Some out" for out
    proof -
      from now obtain a j where "backed uuid_of body item (db w') a j" by (auto simp: held_def)
      with now completion_output [OF that] own show ?thesis
        by (auto simp: explained_def backed_def ownership_def intro!: bexI [of _ j] bexI [of _ a])
    qed
    have "outputs (db w') \<subseteq> outputs (dp_db s) \<union> {(jid, out) |out. co_output ?body = Some out}"
      using finish_route_outputs [of env c auth jid ?body cred w res w'] tx w(2) by simp
    with t(5) new have "\<forall>(i, out) \<in> outputs (db w'). explained env (db w') i out" by fast
    then show ?thesis using next_ok [OF now] by (intro deploy_move [OF inv claim t(1,2) _ t(6)])
  qed
qed

lemma deploy_step_inv:
  assumes "strict_models env" and "deploy_inv env c uuid_of s" and "deploy_step env loads c uuid_of s s'"
  shows "deploy_inv env c uuid_of s'"
  using assms(3)
proof cases
  case (draws n body)
  then show ?thesis using draws_inv assms(2) by simp
next
  case (claims n body w auth cred ans w' x)
  then show ?thesis using claims_inv [OF assms(2,1)] by blast
next
  case (starts n body item w jid own auth cred ans w' x)
  then show ?thesis using starts_inv [OF assms(2,1)] by blast
next
  case (executes n body item obs strategy result)
  then show ?thesis using executes_inv [OF assms(2,1)] by blast
next
  case (reports n body item result again w jid own auth cred ans w' x)
  then show ?thesis using reports_inv [OF assms(2,1)] by blast
next
  case (drops n)
  have "deploy_inv env c uuid_of ((put_slot n Free s)\<lparr>dp_db := dp_db s\<rparr>)"
    using assms(2) by (intro deploy_move) (simp_all add: deploy_inv_def)
  with drops show ?thesis by (simp add: put_slot_def)
next
  case (others r w res w')
  have "put_slot 0 (dp_slots s 0) s = s" by (simp add: put_slot_def)
  moreover have "slot_ok env uuid_of (db w') (dp_slots s 0)"
    using deploy_transaction(6) [OF assms(2,1) others(4,5,2,6)] by blast
  ultimately show ?thesis
    using deploy_silent_call [OF assms(2,1) others(4,5,2,6) silent_outputs [OF others(3)], of "dp_slots s 0" 0] others(1)
    by simp
qed

interpretation deployment_system: invariant_system "deploy_step env loads c uuid_of"
    "\<lambda>s. strict_models env \<and> deploy_inv env c uuid_of s" for env loads c uuid_of
  by unfold_locales (blast intro: deploy_step_inv)

lemma deploy_reachable_inv:
  assumes "strict_models env" and "deploy_reachable env loads c uuid_of s"
  shows "deploy_inv env c uuid_of s"
proof -
  have "deploy_inv env c uuid_of deploy_start"
    by (simp add: deploy_inv_def deploy_start_def reachable_def valid_jobs_def claims_ok_def outputs_def empty_db_def)
  then show ?thesis
    using deployment_system.run_inv [of env loads c uuid_of deploy_start s] assms by (simp add: deploy_reachable_def)
qed

section \<open>A run\<close>

definition demo_uuid_of :: "string \<Rightarrow> uuid" where
  "demo_uuid_of s = (if s = uuid_text 10 then 10 else 20)"

definition demo_computed :: json where
  "demo_computed = JObj [(''attempt'', JInt 1), (''recovered'', JBool True)]"

definition demo_delivered :: database where
  "demo_delivered = demo_running\<lparr>jobs := [demo_job SUCCEEDED 1 5003],
     attempts := [demo_attempt\<lparr>a_started_at := Some 4001, a_output := Some demo_computed,
       a_outcome := Some OutSucceeded, a_finished_at := Some 5002\<rparr>],
     results := [\<lparr>r_job_id = 10, r_output = Some demo_computed, r_error = None\<rparr>],
     events := events demo_running @ [demo_event 5 (Entered SUCCEEDED) 5000]\<rparr>"

abbreviation demo_deployed :: "database \<Rightarrow> slot_work \<Rightarrow> deployment" where
  "demo_deployed d x \<equiv> \<lparr>dp_db = d, dp_slots = (\<lambda>n. Free)(0 := x), dp_claims = {cl_claim_id demo_claim_body}\<rparr>"

abbreviation demo_reaches :: "deployment \<Rightarrow> bool" where
  "demo_reaches \<equiv> deploy_reachable demo_env (\<lambda>s. None) demo_settings demo_uuid_of"

lemma demo_extends:
  "demo_reaches s \<Longrightarrow> deploy_step demo_env (\<lambda>s. None) demo_settings demo_uuid_of s s' \<Longrightarrow> demo_reaches s'"
  unfolding deploy_reachable_def by (rule rtranclp.rtrancl_into_rtrancl)

lemma demo_other:
  assumes "demo_reaches s" and "accepted demo_env r" and "\<not> of_slots r"
    and "run_tx (transact demo_env demo_settings r) (demo_world (dp_db s) t u) = (res, w')"
  shows "demo_reaches (s\<lparr>dp_db := db w'\<rparr>)"
  by (rule demo_extends [OF assms(1)], rule deploy_step.others [OF assms(2,3) demo_scan _ assms(4)]) simp

lemma demo_asks: "demo_reaches (demo_deployed demo_queued (Asking demo_claim_body))"
proof -
  have start: "demo_reaches deploy_start" by (simp add: deploy_reachable_def)
  have "run_tx (transact demo_env demo_settings (RegisterReq demo_worker demo_registration))
      (demo_world (dp_db deploy_start) 1000 50) = (Inr (), (demo_world empty_db 1000 50)\<lparr>db := demo_registered\<rparr>)"
    by (simp add: run_tx_def effect_def tx_bind_def demo_register tx_return_def deploy_start_def)
  from demo_other [OF start _ _ this] have one: "demo_reaches (deploy_start\<lparr>dp_db := demo_registered\<rparr>)"
    by (simp add: demo_registration_ok)
  have "run_tx (transact demo_env demo_settings (SubmitReq demo_client demo_submission))
      (demo_world (dp_db (deploy_start\<lparr>dp_db := demo_registered\<rparr>)) 2000 10)
      = (Inr (), (tick (demo_world demo_registered 2000 10))\<lparr>uuids := (\<lambda>n. 10 + Suc n), db := demo_queued\<rparr>)"
    using demo_submit
    by (simp add: run_tx_def effect_def submit_route_def tx_bind_def demo_auth tx_get_def tx_return_def
        demo_settings_fields)
  from demo_other [OF one _ _ this] have two: "demo_reaches (deploy_start\<lparr>dp_db := demo_queued\<rparr>)"
    by (simp add: demo_submission_ok)
  have "Claim_accepted demo_claim_body" by (simp add: Claim_accepted_def demo_claim_body_def demo_identity_ok)
  with demo_extends [OF two deploy_step.draws, of 0 demo_claim_body] show ?thesis
    by (simp add: deploy_start_def put_slot_def)
qed

lemma demo_executes: "demo_reaches (demo_deployed demo_running (Executing demo_claim_body demo_assignment))"
proof -
  have apart: "uuid_text 10 \<noteq> uuid_text 20" by code_simp
  then have ids: "reads_ids demo_uuid_of demo_leased" by (simp add: reads_ids_def demo_uuid_of_def demo_dbs demo_rows)
  have "call (claim_route demo_env demo_settings demo_worker demo_claim_body (Some demo_session)) (demo_world demo_queued 3000 20)
      = (Inr (Some demo_assignment), (tick (tick (demo_world demo_queued 3000 20)))\<lparr>uuids := (\<lambda>n. 20 + Suc n), db := demo_leased\<rparr>)"
    by (rule call_Inr) (rule demo_claim_route)
  from demo_extends [OF demo_asks deploy_step.claims [OF _ demo_scan _ this, where n = 0 and x = "Given demo_claim_body demo_assignment"]]
  have given: "demo_reaches (demo_deployed demo_leased (Given demo_claim_body demo_assignment))"
    using ids by (simp add: put_slot_def)
  have id: "jo_id (out_job demo_assignment) = uuid_text 10" "out_token demo_assignment = uuid_text 20"
    by (simp_all add: demo_assignment_def serialize_def serialize_with_def demo_job_def)
  have own: "ownership demo_uuid_of demo_claim_body demo_assignment = (10, \<lparr>as_worker_id = ''w1'', as_token = 20\<rparr>)"
    using apart by (simp add: ownership_def id demo_uuid_of_def demo_claim_body_def)
  have "workers demo_leased = [demo_worker_row]" by (simp add: demo_dbs)
  then have "call (start_route demo_env demo_settings demo_worker 10 \<lparr>as_worker_id = ''w1'', as_token = 20\<rparr> (Some demo_session))
      (demo_world demo_leased 4000 30) = (Inr ''RUNNING'', (tick (tick (tick (demo_world demo_leased 4000 30))))\<lparr>db := demo_running\<rparr>)"
    using demo_start by (intro call_Inr) (simp add: start_route_def tx_bind_def demo_auth demo_identity tx_return_def)
  from demo_extends [OF given deploy_step.starts [OF _ demo_scan _ own this, where n = 0 and x = "Executing demo_claim_body demo_assignment"]]
  show ?thesis by (simp add: put_slot_def)
qed

lemma demo_delivers: "demo_reaches (demo_deployed demo_delivered Free)"
proof -
  let ?item = demo_assignment
  have "demo_reaches (put_slot 0 (Reporting demo_claim_body ?item (success demo_computed) False)
      (demo_deployed demo_running (Executing demo_claim_body ?item)))"
    by (rule demo_extends [OF demo_executes], rule deploy_step.executes [where obs = Returned and strategy = "''thread''"])
      (simp_all add: honest_def demo_execution demo_computed_def)
  then have reporting: "demo_reaches (demo_deployed demo_running (Reporting demo_claim_body ?item (success demo_computed) False))"
    by (simp add: put_slot_def)
  have "uuid_text 10 \<noteq> uuid_text 20" by code_simp
  then have own: "ownership demo_uuid_of demo_claim_body ?item = (10, \<lparr>as_worker_id = ''w1'', as_token = 20\<rparr>)"
    by (simp add: ownership_def demo_uuid_of_def demo_claim_body_def demo_assignment_def serialize_def serialize_with_def demo_job_def)
  have finish: "finish 10 ''w1'' 20 (Some demo_computed) None False (demo_world demo_running 5000 40)
      = Inr ((), (tick (tick (tick (tick (demo_world demo_running 5000 40)))))\<lparr>db := demo_delivered\<rparr>)"
    by (simp add: finish_def owned_def tx_eval transition_eval moved_def job_by_id_def attempt_by_id_def
        find_row_def set_job_def set_attempt_def set_row_def log_event_def insert_result_def Let_def demo_delivered_def
        demo_dbs demo_rows)
  have dict: "is_dict demo_computed" by (simp add: is_dict_def demo_computed_def)
  obtain e where "storable (float_repr demo_env) demo_computed OUTPUT_LIMIT ''Output'' = Inr e"
    using run_job_storable [OF demo_execution] by (auto simp: demo_computed_def)
  note body = completion_of_success [OF demo_identity_ok dict this, of 20]
  have "workers demo_running = [demo_worker_row]" by (simp add: demo_dbs)
  then have "finish_call demo_env demo_settings demo_worker (cl_worker_id demo_claim_body) (Some demo_session) 10
      (as_token \<lparr>as_worker_id = ''w1'', as_token = 20\<rparr>) (success demo_computed) (demo_world demo_running 5000 40)
      = (Inr ''RECORDED'', (tick (tick (tick (tick (demo_world demo_running 5000 40)))))\<lparr>db := demo_delivered\<rparr>)"
    using finish body
    by (simp add: finish_call_def Let_def demo_claim_body_def)
      (rule call_Inr, simp add: finish_route_def tx_bind_def demo_auth demo_identity tx_return_def)
  from demo_extends [OF reporting deploy_step.reports [OF _ demo_scan _ own this, where n = 0 and x = Free and again = False]]
  show ?thesis by (simp add: put_slot_def)
qed

section \<open>Properties\<close>

text \<open>
  C5: whatever the workers, the coordinators, the clock and the network do, the output stored for a job is what
  its task computes from its stored arguments, in one of the attempts the job was given: an output
  always comes from an execution, never from a stale slot of another job.
\<close>

theorem results_are_computed:
  assumes strict: "strict_models env" and run: "deploy_reachable env loads c uuid_of s"
    and stored: "r \<in> set (results (dp_db s))" "r_output r = Some out"
  shows "\<exists>j \<in> set (jobs (dp_db s)). j_id j = r_job_id r
    \<and> (\<exists>k slept. 1 \<le> k \<and> k \<le> j_attempt_count j \<and> execute env (j_task j) (j_args j) k = Inr (slept, out))"
proof -
  note inv = deploy_reachable_inv [OF strict run]
  have db: "db_inv (dp_db s)" using inv reachable_db_inv by (auto simp: deploy_inv_def)
  have "(r_job_id r, out) \<in> outputs (dp_db s)" using stored by (auto simp: outputs_def)
  then have "explained env (dp_db s) (r_job_id r) out" using inv by (auto simp: deploy_inv_def)
  then obtain j a where ja: "j \<in> set (jobs (dp_db s))" "a \<in> set (attempts (dp_db s))" "j_id j = r_job_id r"
    "a_job_id a = r_job_id r" "computes env (j_task j) (j_args j) (a_fence a) out" by (auto simp: explained_def)
  have "1 \<le> a_fence a \<and> a_fence a \<le> j_attempt_count j"
    using fence_bounds [of "dp_db s" j a] inv_parts(4) [OF db] ja by simp
  with ja show ?thesis by (auto simp: computes_def)
qed

theorem results_are_computed_witness:
  "\<exists>j \<in> set (jobs demo_delivered). j_id j = 10
    \<and> (\<exists>k slept. 1 \<le> k \<and> k \<le> j_attempt_count j \<and> execute demo_env (j_task j) (j_args j) k = Inr (slept, demo_computed))"
proof -
  have "\<lparr>r_job_id = 10, r_output = Some demo_computed, r_error = None\<rparr> \<in> set (results (dp_db (demo_deployed demo_delivered Free)))"
    by (simp add: demo_delivered_def)
  from results_are_computed [OF demo_env_strict demo_delivers this, of demo_computed] show ?thesis by simp
qed

fun assignment_of :: "slot_work \<Rightarrow> assignment_out option" where
  "assignment_of (Given body item) = Some item"
| "assignment_of (Executing body item) = Some item"
| "assignment_of (Reporting body item result again) = Some item"
| "assignment_of x = None"

definition live_for :: "(string \<Rightarrow> uuid) \<Rightarrow> deployment \<Rightarrow> uuid \<Rightarrow> nat \<Rightarrow> bool" where
  "live_for uuid_of s i n \<longleftrightarrow> (\<exists>item a. assignment_of (dp_slots s n) = Some item
     \<and> uuid_of (jo_id (out_job item)) = i \<and> attempt_by_id (uuid_of (out_token item)) (dp_db s) = Some a \<and> active a)"

lemma live_attempt:
  assumes inv: "deploy_inv env c uuid_of s" and live: "live_for uuid_of s i n"
  obtains a where "a \<in> set (attempts (dp_db s))" "active a" "a_job_id a = i" "claim_of (dp_slots s n) = Some (a_claim_id a)"
proof -
  have keys: "keys_ok (dp_db s)"
    using inv reachable_db_inv by (auto simp: deploy_inv_def db_inv_def)
  from live obtain item a where item: "assignment_of (dp_slots s n) = Some item" "uuid_of (jo_id (out_job item)) = i"
    "attempt_by_id (uuid_of (out_token item)) (dp_db s) = Some a" "active a" by (auto simp: live_for_def)
  then obtain body b j where b: "backed uuid_of body item (dp_db s) b j" "claim_of (dp_slots s n) = Some (cl_claim_id body)"
    using slot_ok_at [OF inv refl, of n] by (cases "dp_slots s n") (auto simp: held_def)
  have "a \<in> set (attempts (dp_db s))" "a_id a = a_id b" using attempt_by_id_Some [OF item(3)] b by (auto simp: backed_def)
  moreover from this b have "a = b" using keys by (auto simp: keys_ok_def backed_def distinct_map inj_on_def)
  ultimately show thesis using b item by (intro that [of a]) (auto simp: backed_def)
qed

text \<open>
  C6: a job never has two live executions. Of all the slots of all workers that hold an assignment of a
  job, at most one holds an attempt that is still open; the others have lost their lease and will be
  refused.
\<close>

theorem one_live_execution:
  assumes strict: "strict_models env" and run: "deploy_reachable env loads c uuid_of s"
    and live: "live_for uuid_of s i n" "live_for uuid_of s i m"
  shows "n = m"
proof -
  note inv = deploy_reachable_inv [OF strict run]
  obtain a where a: "a \<in> set (attempts (dp_db s))" "active a" "a_job_id a = i" "claim_of (dp_slots s n) = Some (a_claim_id a)"
    by (rule live_attempt [OF inv live(1)])
  obtain b where b: "b \<in> set (attempts (dp_db s))" "active b" "a_job_id b = i" "claim_of (dp_slots s m) = Some (a_claim_id b)"
    by (rule live_attempt [OF inv live(2)])
  have db: "db_inv (dp_db s)" using inv reachable_db_inv by (auto simp: deploy_inv_def)
  obtain j where j: "j \<in> set (jobs (dp_db s))" "j_id j = i"
    by (rule inv_attempt_job [OF db a(1)]) (simp add: that a(3))
  have fence: "a_fence a = a_fence b"
    using inv_lease [OF db j(1) a(1)] inv_lease [OF db j(1) b(1)] a(2,3) b(2,3) j(2) by (simp add: lease_ok_def)
  have "a = b"
    by (rule fence_unique [OF inv_parts(4) [OF db] j(1) a(1) b(1)]) (simp_all add: a(3) b(3) j(2) fence)
  then show ?thesis using inv a(4) b(4) by (simp add: deploy_inv_def claims_ok_def)
qed

theorem one_live_execution_witness:
  "live_for demo_uuid_of (demo_deployed demo_running (Executing demo_claim_body demo_assignment)) 10 0
   \<and> \<not> live_for demo_uuid_of (demo_deployed demo_running (Executing demo_claim_body demo_assignment)) 10 1"
proof -
  let ?s = "demo_deployed demo_running (Executing demo_claim_body demo_assignment)"
  have "uuid_text 10 \<noteq> uuid_text 20" by code_simp
  then have live: "live_for demo_uuid_of ?s 10 0"
    by (simp add: live_for_def demo_assignment_def serialize_def serialize_with_def demo_job_def demo_uuid_of_def
        attempt_by_id_def find_row_def demo_dbs demo_attempt_def)
  from one_live_execution [OF demo_env_strict demo_executes live, of 1] live show ?thesis by auto
qed

end
