(* ===== verification/Measurement.thy ===== *)
theory Measurement
  imports Cluster Guarantees Observability
begin

text \<open>
  The measurement of \<^verbatim>\<open>benchmarks/run.py\<close>: the samples the monitor takes of the process tree and of the
  tables, the loop that waits for the last job, and the report computed from the tables of the run. Means,
  percentiles and quotients are exact rationals where the program uses floats.
\<close>

section \<open>Samples\<close>

record sample =
  sm_cpu_percent :: rat
  sm_rss_bytes :: int
  sm_queue_depth :: nat
  sm_active_slots :: nat
  sm_terminal :: nat

text \<open>The trees of the living processes of the cluster, each process once, at its first place.\<close>

definition first_places :: "'a list \<Rightarrow> 'a list" where
  "first_places xs = rev (remdups (rev xs))"

definition sampled :: "cluster \<Rightarrow> nat list" where
  "sampled s = first_places (concat (map (\<lambda>p. if alive p s then p # descendants p (cu_os s) else []) (cu_processes s)))"

text \<open>
  What \<^verbatim>\<open>psutil\<close> reads of a process, unless it is gone by then; the memory is read only after the processor
  time was. And the three queries.
\<close>

definition take_sample :: "(nat \<Rightarrow> rat option) \<Rightarrow> (nat \<Rightarrow> int option) \<Rightarrow> cluster \<Rightarrow> database \<Rightarrow> sample" where
  "take_sample cpu_percent rss s d =
     (let procs = sampled s in
      \<lparr>sm_cpu_percent = sum_list (List.map_filter cpu_percent procs),
       sm_rss_bytes = sum_list (List.map_filter rss (filter (\<lambda>p. cpu_percent p \<noteq> None) procs)),
       sm_queue_depth = length (filter (\<lambda>j. j_status j \<in> {QUEUED, RETRY_WAIT}) (jobs d)),
       sm_active_slots = length (filter active (attempts d)),
       sm_terminal = length (filter (\<lambda>j. j_status j \<in> TERMINAL) (jobs d))\<rparr>)"

text \<open>The wait for the last job; \<open>seen n\<close> are the samples at the n-th look.\<close>

definition all_terminal :: "nat \<Rightarrow> sample list \<Rightarrow> bool" where
  "all_terminal count samples \<longleftrightarrow> samples \<noteq> [] \<and> count \<le> sm_terminal (last samples)"

definition await_jobs :: "(nat \<Rightarrow> rat) \<Rightarrow> (nat \<Rightarrow> sample list) \<Rightarrow> nat \<Rightarrow> (unit wait_error + unit) option" where
  "await_jobs clock seen count =
     poll_until clock (\<lambda>n. Inr (if all_terminal count (seen n) then Some () else None)) 1200"

text \<open>The monitor takes a sample at each look at \<^verbatim>\<open>finished\<close> that finds it not set.\<close>

fun monitor :: "(bool \<times> sample) list \<Rightarrow> sample list" where
  "monitor [] = []"
| "monitor ((over, m) # rest) = (if over then [] else m # monitor rest)"

section \<open>The report\<close>

definition mean :: "rat list \<Rightarrow> string + rat" where
  "mean xs = (if xs = [] then Inl ''StatisticsError'' else Inr (sum_list xs / of_nat (length xs)))"

definition greatest :: "'a :: linorder list \<Rightarrow> string + 'a" where
  "greatest xs = (if xs = [] then Inl ''ValueError'' else Inr (fold max (tl xs) (hd xs)))"

definition divided :: "rat \<Rightarrow> rat \<Rightarrow> string + rat" where
  "divided a b = (if b = 0 then Inl ''ZeroDivisionError'' else Inr (a / b))"

definition then_try :: "string + 'a \<Rightarrow> ('a \<Rightarrow> string + 'b) \<Rightarrow> string + 'b" where
  "then_try r f = (case r of Inl e \<Rightarrow> Inl e | Inr x \<Rightarrow> f x)"

record bench_report =
  br_jobs :: nat
  br_elapsed_seconds :: rat
  br_jobs_per_second :: rat
  br_average :: rat
  br_p50 :: rat
  br_p95 :: rat
  br_p99 :: rat
  br_average_queue_wait :: rat
  br_average_execution :: rat
  br_peak_queue_depth :: nat
  br_average_cpu_percent :: rat
  br_peak_rss_mb :: rat
  br_average_worker_utilization :: rat
  br_failures :: int
  br_retries :: int
  br_samples :: nat
  br_submission_retries :: nat

text \<open>\<^verbatim>\<open>extract(epoch FROM later - earlier)\<close> of two timestamps.\<close>

definition seconds_between :: "timestamp \<Rightarrow> timestamp \<Rightarrow> rat" where
  "seconds_between earlier later = of_int (later - earlier) / 1000000"

text \<open>The finished attempts joined with their jobs: the wait, and the duration of a started one.\<close>

definition attempt_rows :: "database \<Rightarrow> (rat \<times> rat option) list" where
  "attempt_rows d =
     concat (map (\<lambda>a. map (\<lambda>j. (seconds_between (j_created_at j) (a_created_at a),
         case (a_started_at a, a_finished_at a) of (Some s, Some f) \<Rightarrow> Some (seconds_between s f) | _ \<Rightarrow> None))
       (filter (\<lambda>j. j_id j = a_job_id a) (jobs d))) (filter (\<lambda>a. \<not> active a) (attempts d)))"

definition bench_measure ::
    "nat \<Rightarrow> database \<Rightarrow> sample list \<Rightarrow> rat \<Rightarrow> int \<Rightarrow> nat \<Rightarrow> string + bench_report" where
  "bench_measure count d samples elapsed capacity resent =
     (let latencies = map (\<lambda>j. seconds_between (j_created_at j) (j_updated_at j)) (jobs d);
          rows = attempt_rows d;
          waits = map fst rows;
          durations = List.map_filter snd rows;
          successes = length (filter (\<lambda>j. j_status j = SUCCEEDED) (jobs d)) in
      if successes \<noteq> count then Inl ''AssertionError''
      else
      then_try (divided (of_nat count) elapsed) (\<lambda>rate.
      then_try (mean latencies) (\<lambda>average.
      then_try (mean waits) (\<lambda>wait.
      then_try (mean durations) (\<lambda>execution.
      then_try (greatest (map sm_queue_depth samples)) (\<lambda>peak.
      then_try (mean (map sm_cpu_percent samples)) (\<lambda>cpu.
      then_try (greatest (map sm_rss_bytes samples)) (\<lambda>rss.
      then_try (mean (map (\<lambda>m. of_nat (sm_active_slots m)) samples)) (\<lambda>busy.
      then_try (divided busy (of_int (capacity * 3))) (\<lambda>utilization.
      Inr \<lparr>br_jobs = count, br_elapsed_seconds = elapsed, br_jobs_per_second = rate, br_average = average,
        br_p50 = percentile latencies (5 / 10), br_p95 = percentile latencies (95 / 100),
        br_p99 = percentile latencies (99 / 100), br_average_queue_wait = wait, br_average_execution = execution,
        br_peak_queue_depth = peak, br_average_cpu_percent = cpu, br_peak_rss_mb = of_int rss / 1024 ^ 2,
        br_average_worker_utilization = utilization, br_failures = int count - int successes,
        br_retries = int (length rows) - int count, br_samples = length samples,
        br_submission_retries = resent\<rparr>))))))))))"

text \<open>
  \<^verbatim>\<open>measure\<close>: the submissions as they end, of which the first failure is raised; the wait; and the report on
  the tables and samples of that moment. \<open>None\<close>: it does not return.
\<close>

fun submission_error :: "bench_end \<Rightarrow> string option" where
  "submission_error Submitted = None"
| "submission_error (Refused st) = Some ''HTTPStatusError''"
| "submission_error Unavailable = Some ''RuntimeError''"

definition measure_run :: "bench_end list \<Rightarrow> (nat \<Rightarrow> rat) \<Rightarrow> (nat \<Rightarrow> sample list) \<Rightarrow> nat
    \<Rightarrow> (string + bench_report) \<Rightarrow> (string + bench_report) option" where
  "measure_run ends clock seen count summary =
     (case List.map_filter submission_error ends of
        e # _ \<Rightarrow> Some (Inl e)
      | [] \<Rightarrow> (case await_jobs clock seen count of
          None \<Rightarrow> None
        | Some (Inl _) \<Rightarrow> Some (Inl ''TimeoutError'')
        | Some (Inr _) \<Rightarrow> Some summary))"

section \<open>Every living process is sampled once\<close>

lemma first_places_simps [simp]: "distinct (first_places xs)" "set (first_places xs) = set xs"
  by (simp_all add: first_places_def)

lemma tree_covers:
  assumes t: "tended s"
  shows "alive q s \<Longrightarrow> \<exists>p \<in> set (cu_processes s). alive p s \<and> (q = p \<or> q \<in> set (descendants p (cu_os s)))"
proof (induction q rule: less_induct)
  case (less q)
  then obtain x where x: "x \<in> set (cu_os s)" "op_pid x = q" "op_alive x" by (auto simp: alive_def)
  show ?case
  proof (cases "op_parent x")
    case None
    then have "q \<in> set (cu_processes s)" using t x by (force simp: tended_def attended_def)
    then show ?thesis using less.prems by blast
  next
    case (Some r)
    then have r: "r < q" "alive r s" using tended_parent [OF t x(1) Some] x by auto
    from less.IH [OF r] obtain p where p: "p \<in> set (cu_processes s)" "alive p s"
      "r = p \<or> r \<in> set (descendants p (cu_os s))" by blast
    have "op_pid x \<in> set (descendants p (cu_os s))"
      using descendants_closed [OF tended_sorted [OF t] _ x(1,3) Some p(3)] tended_parent [OF t] by blast
    then show ?thesis using p x(2) by blast
  qed
qed

lemma descendants_alive: "q \<in> set (descendants p (cu_os s)) \<Longrightarrow> alive q s"
proof -
  have "set (descendants p ps) \<subseteq> {op_pid x |x. x \<in> set ps \<and> op_alive x}" for ps
    by (induction ps rule: rev_induct) (auto simp: descendants_snoc Let_def)
  then show "q \<in> set (descendants p (cu_os s)) \<Longrightarrow> alive q s" by (auto simp: alive_def)
qed

lemma sampled_once:
  assumes "tended s"
  shows "distinct (sampled s) \<and> set (sampled s) = {p. alive p s}"
proof -
  have "set (sampled s) = {q. \<exists>p \<in> set (cu_processes s). alive p s \<and> (q = p \<or> q \<in> set (descendants p (cu_os s)))}"
    by (auto simp: sampled_def split: if_splits)
  also have "\<dots> = {p. alive p s}" using tree_covers [OF assms] descendants_alive by blast
  finally show ?thesis by (simp add: sampled_def)
qed

section \<open>The measurement returns\<close>

text \<open>While the clock advances by the quarter second that is slept, the wait ends after twenty minutes at the latest.\<close>

lemma measure_returns:
  assumes "sleeps (1 / 4) clock"
  shows "measure_run ends clock seen count summary \<noteq> None"
proof -
  have "clock 0 + of_nat (1 + 4800) * (1 / 4) \<le> clock (1 + 4800)" using sleeps_mono [OF assms, of 0 "1 + 4800"] by simp
  then have "clock 0 + 1200 < clock (1 + 4800)" by simp
  from poll_from_ends [of "clock 0 + 1200" clock 1 4800, OF this]
  have "await_jobs clock seen count \<noteq> None" by (auto simp: await_jobs_def poll_until_def)
  then show ?thesis by (auto simp: measure_run_def split: list.split option.split sum.split)
qed

lemma monitor_prefix: "monitor looks = map snd (takeWhile (\<lambda>l. \<not> fst l) looks)"
  by (induction looks rule: monitor.induct) auto

section \<open>Succeeded jobs were executed\<close>

definition served :: "database \<Rightarrow> bool" where
  "served d \<longleftrightarrow> (\<forall>j \<in> set (jobs d). j_status j = SUCCEEDED \<longrightarrow>
     (\<exists>a \<in> set (attempts d). a_job_id a = j_id j \<and> \<not> active a \<and> a_started_at a \<noteq> None))"

text \<open>A step that completes no job leaves the succeeded jobs as they were.\<close>

lemma served_kept:
  assumes "db_step d d'" and "db_inv d" and "served d"
    and "\<And>j'. j' \<in> set (jobs d') \<Longrightarrow> j_status j' = SUCCEEDED \<Longrightarrow> \<exists>j \<in> set (jobs d). j_id j = j_id j' \<and> j_status j = SUCCEEDED"
  shows "served d'"
  unfolding served_def
proof (intro ballI impI)
  fix j'
  assume "j' \<in> set (jobs d')" "j_status j' = SUCCEEDED"
  then obtain j where "j \<in> set (jobs d)" "j_id j = j_id j'" "j_status j = SUCCEEDED" using assms(4) by blast
  then obtain a where a: "a \<in> set (attempts d)" "a_job_id a = j_id j'" "\<not> active a" "a_started_at a \<noteq> None"
    using assms(3) by (auto simp: served_def)
  have "a \<in> set (attempts d')" by (rule step_keeps_finished [OF assms(1) inv_parts(1) [OF assms(2)] a(1,3)])
  with a show "\<exists>a \<in> set (attempts d'). a_job_id a = j_id j' \<and> \<not> active a \<and> a_started_at a \<noteq> None" by blast
qed

lemma succeeded_before:
  assumes "keys_ok d" and "i \<in> set (jobs d)" and "j_id i' = j_id i" and "j_status i' \<noteq> SUCCEEDED"
    and "jobs d' = set_row j_id (j_id i) (\<lambda>_. i') (jobs d)" and "j' \<in> set (jobs d')" "j_status j' = SUCCEEDED"
  shows "\<exists>j \<in> set (jobs d). j_id j = j_id j' \<and> j_status j = SUCCEEDED"
  using put_job_rows [OF assms(1-3)] assms(4-7) by auto

lemma step_served: "db_inv d \<Longrightarrow> db_step d d' \<Longrightarrow> served d \<Longrightarrow> served d'"
proof -
  assume inv: "db_inv d" and step: "db_step d d'" and old: "served d"
  note keys = inv_parts(1) [OF inv]
  note kept = served_kept [OF step inv old]
  note before = succeeded_before [OF keys]
  from step show "served d'"
  proof cases
    case (submitted j tn)
    then show ?thesis by (intro kept) (auto simp: admitted_def row_simps)
  next
    case (leased j j' t a tn)
    then show ?thesis by (intro kept before [of j j' d']) (auto simp: row_simps)
  next
    case (started a j a' s j' t tn)
    then show ?thesis by (intro kept before [of j j' d']) (auto simp: row_simps holds_def)
  next
    case (succeeded a j a' out f j' t tn)
    have same: "same_lease a a'" using succeeded by (simp add: same_lease_def)
    have rows: "set (jobs d') = insert j' (set (jobs d) - {j})" "set (attempts d') = insert a' (set (attempts d) - {a})"
      using succeeded put_job_rows [OF keys, of j j'] put_attempt_rows [OF keys _ same] by (simp_all add: row_simps holds_def)
    have "a_started_at a \<noteq> None"
      using inv_lease [OF inv, of j a] succeeded(2,3) by (auto simp: holds_def lease_ok_def)
    then have new: "a' \<in> set (attempts d')" "a_job_id a' = j_id j'" "\<not> active a'" "a_started_at a' \<noteq> None"
      using succeeded rows by (simp_all add: holds_def)
    show ?thesis unfolding served_def
    proof (intro ballI impI)
      fix i assume i: "i \<in> set (jobs d')" "j_status i = SUCCEEDED"
      show "\<exists>a \<in> set (attempts d'). a_job_id a = j_id i \<and> \<not> active a \<and> a_started_at a \<noteq> None"
      proof (cases "i = j'")
        case True
        with new show ?thesis by blast
      next
        case False
        then obtain b where b: "b \<in> set (attempts d)" "a_job_id b = j_id i" "\<not> active b" "a_started_at b \<noteq> None"
          using i old rows by (auto simp: served_def)
        have "b \<in> set (attempts d')" by (rule step_keeps_finished [OF step keys b(1,3)])
        with b show ?thesis by blast
      qed
    qed
  next
    case (retried a j oc a' f err j' av t tn)
    then show ?thesis by (intro kept before [of j j' d']) (auto simp: row_simps holds_def)
  next
    case (buried a j st oc a' f err j' t tn)
    then show ?thesis by (intro kept before [of j j' d']) (auto simp: row_simps holds_def)
  next
    case (cancelled j j' t tn)
    then show ?thesis by (intro kept before [of j j' d']) (auto simp: row_simps)
  qed (intro kept; auto simp: row_simps)+
qed

lemma reachable_served: "reachable env c d \<Longrightarrow> served d"
  using reachable_extend(3) [of env c empty_db d] lifecycle.run_keeps [of empty_db d served] step_served empty_db_inv
  by (auto simp: reachable_def served_def empty_db_def)

section \<open>The report\<close>

lemma one_job: "distinct (map j_id js) \<Longrightarrow> i \<in> j_id ` set js \<Longrightarrow> length (filter (\<lambda>j. j_id j = i) js) = 1"
proof (induction js)
  case (Cons j js)
  show ?case
  proof (cases "j_id j = i")
    case True
    with Cons.prems(1) have "j_id k \<noteq> i" if "k \<in> set js" for k using that by (auto intro: rev_image_eqI)
    then have "filter (\<lambda>j. j_id j = i) js = []" by (simp add: filter_empty_conv)
    with True show ?thesis by simp
  next
    case False
    with Cons show ?thesis by auto
  qed
qed simp

lemma attempt_rows_length:
  assumes "db_inv d"
  shows "length (attempt_rows d) = length (filter (\<lambda>a. \<not> active a) (attempts d))"
proof -
  have each: "length (filter (\<lambda>j. j_id j = a_job_id a) (jobs d)) = 1" if "a \<in> set (attempts d)" for a
  proof (rule one_job)
    show "distinct (map j_id (jobs d))" using inv_parts(1) [OF assms] by (simp add: keys_ok_def)
    show "a_job_id a \<in> j_id ` set (jobs d)" using inv_parts(2) [OF assms] that by (simp add: refs_ok_def)
  qed
  have "(\<Sum>a\<leftarrow>as. length (filter (\<lambda>j. j_id j = a_job_id a) (jobs d))) = length as" if "set as \<subseteq> set (attempts d)" for as
    using that by (induction as) (simp_all add: each)
  from this [of "filter (\<lambda>a. \<not> active a) (attempts d)"] show ?thesis
    by (auto simp: attempt_rows_def length_concat comp_def)
qed

lemma finished_of_job:
  assumes inv: "db_inv d" and j: "j \<in> set (jobs d)" "j_status j = SUCCEEDED"
  shows "int (length (filter (\<lambda>a. \<not> active a) (filter (\<lambda>a. a_job_id a = j_id j) (attempts d)))) = j_attempt_count j"
proof -
  have "\<not> active a" if "a \<in> set (attempts d)" "a_job_id a = j_id j" for a
    using inv_lease [OF inv j(1) that] j(2) by (auto simp: lease_ok_def)
  then have "filter (\<lambda>a. \<not> active a) (filter (\<lambda>a. a_job_id a = j_id j) (attempts d)) = filter (\<lambda>a. a_job_id a = j_id j) (attempts d)"
    by (intro filter_True) auto
  moreover have "length (filter (\<lambda>a. a_job_id a = j_id j) (attempts d)) = length (fences (j_id j) (attempts d))"
    by (simp add: fences_def)
  moreover have "fences (j_id j) (attempts d) = [1..j_attempt_count j]" "0 \<le> j_attempt_count j"
    using inv_parts(4) [OF inv] j(1) by (auto simp: fences_ok_def)
  ultimately show ?thesis by simp
qed

lemma attempts_per_job:
  assumes reach: "reachable env c d" and j: "j \<in> set (jobs d)" "j_status j = SUCCEEDED"
  shows "1 \<le> j_attempt_count j" and "j_attempt_count j \<le> j_max_retries j + 1"
proof -
  note inv = reachable_db_inv [OF reach]
  obtain a where "a \<in> set (attempts d)" "a_job_id a = j_id j"
    using reachable_served [OF reach] j by (auto simp: served_def)
  then show "1 \<le> j_attempt_count j" using fence_bounds [OF inv_parts(4) [OF inv] j(1)] by force
  show "j_attempt_count j \<le> j_max_retries j + 1" using inv_parts(8) [OF inv] j(1) by (simp add: budget_ok_def)
qed

lemma finished_bounds:
  assumes reach: "reachable env c d" and all: "\<forall>j \<in> set (jobs d). j_status j = SUCCEEDED \<and> j_max_retries j = 1"
  shows "length (jobs d) \<le> length (attempt_rows d)" and "length (attempt_rows d) \<le> 2 * length (jobs d)"
proof -
  note inv = reachable_db_inv [OF reach]
  let ?done = "\<lambda>i. length (filter (\<lambda>a. \<not> active a) (filter (\<lambda>a. a_job_id a = i) (attempts d)))"
  have per: "1 \<le> ?done (j_id j) \<and> ?done (j_id j) \<le> 2" if "j \<in> set (jobs d)" for j
    using finished_of_job [OF inv that] attempts_per_job [OF reach that] all that by force
  have "length (attempt_rows d) = (\<Sum>i\<leftarrow>map j_id (jobs d). ?done i)"
    unfolding attempt_rows_length [OF inv]
    using inv_parts(1,2) [OF inv] by (intro count_by_key) (auto simp: keys_ok_def refs_ok_def)
  moreover have "length js \<le> (\<Sum>i\<leftarrow>map j_id js. ?done i) \<and> (\<Sum>i\<leftarrow>map j_id js. ?done i) \<le> 2 * length js"
    if "set js \<subseteq> set (jobs d)" for js
    using that
  proof (induction js)
    case (Cons j js)
    then show ?case using per [of j] by force
  qed simp
  ultimately show "length (jobs d) \<le> length (attempt_rows d)" "length (attempt_rows d) \<le> 2 * length (jobs d)" by auto
qed

lemma some_duration:
  assumes reach: "reachable env c d" and j: "j \<in> set (jobs d)" "j_status j = SUCCEEDED"
  shows "List.map_filter snd (attempt_rows d) \<noteq> []"
proof -
  obtain a where a: "a \<in> set (attempts d)" "a_job_id a = j_id j" "\<not> active a" "a_started_at a \<noteq> None"
    using reachable_served [OF reach] j by (auto simp: served_def)
  then obtain s f where "a_started_at a = Some s" "a_finished_at a = Some f" by auto
  then have "(seconds_between (j_created_at j) (a_created_at a), Some (seconds_between s f)) \<in> set (attempt_rows d)"
    using a j unfolding attempt_rows_def set_concat set_map set_filter by force
  then show ?thesis by (force simp: map_filter_def filter_empty_conv)
qed

text \<open>
  C39: the benchmark's report. On the tables of a run in which \<open>count\<close> jobs were submitted with one retry
  allowed, and with at least one sample, the report is produced exactly when every job succeeded: no mean
  or quotient fails. It then shows no failures, between none and \<open>count\<close> retries, and
  percentiles in their order; otherwise the assertion fails.
\<close>

theorem benchmark_report_sound:
  assumes reach: "reachable env c d" and run: "length (jobs d) = count" "1 \<le> count" "\<forall>j \<in> set (jobs d). j_max_retries j = 1"
    and sampled: "samples \<noteq> []" "0 < elapsed" "1 \<le> capacity"
  shows "if \<forall>j \<in> set (jobs d). j_status j = SUCCEEDED
    then \<exists>rep. bench_measure count d samples elapsed capacity resent = Inr rep \<and> br_failures rep = 0
      \<and> 0 \<le> br_retries rep \<and> br_retries rep \<le> int count \<and> br_p50 rep \<le> br_p95 rep \<and> br_p95 rep \<le> br_p99 rep
    else bench_measure count d samples elapsed capacity resent = Inl ''AssertionError''"
proof (cases "\<forall>j \<in> set (jobs d). j_status j = SUCCEEDED")
  case True
  then have all: "length (filter (\<lambda>j. j_status j = SUCCEEDED) (jobs d)) = count" using run(1) by simp
  have some: "jobs d \<noteq> []" using run(1,2) by auto
  then obtain j where j: "j \<in> set (jobs d)" by (cases "jobs d") auto
  have rows: "count \<le> length (attempt_rows d)" "length (attempt_rows d) \<le> 2 * count"
    using finished_bounds [OF reach] True run by auto
  have "attempt_rows d \<noteq> []" "List.map_filter snd (attempt_rows d) \<noteq> []"
    using rows(1) run(2) some_duration [OF reach j] True j by auto
  moreover have "percentile (map f (jobs d)) (5 / 10) \<le> percentile (map f (jobs d)) (95 / 100)"
    "percentile (map f (jobs d)) (95 / 100) \<le> percentile (map f (jobs d)) (99 / 100)" for f
    using percentile_sound [of "map f (jobs d)"] some by auto
  ultimately show ?thesis
    using True all some sampled rows
    by (simp add: bench_measure_def Let_def then_try_def divided_def mean_def greatest_def)
next
  case False
  then obtain j where "j \<in> set (jobs d)" "j_status j \<noteq> SUCCEEDED" by blast
  from length_filter_less [of j "jobs d" "\<lambda>j. j_status j = SUCCEEDED", OF this]
  have "length (filter (\<lambda>j. j_status j = SUCCEEDED) (jobs d)) \<noteq> count" using run(1) by simp
  then have "bench_measure count d samples elapsed capacity resent = Inl ''AssertionError''"
    by (simp add: bench_measure_def Let_def)
  then show ?thesis unfolding if_not_P [OF False] .
qed

theorem benchmark_report_sound_witness:
  "\<exists>rep. bench_measure 1 demo_done [take_sample (\<lambda>p. None) (\<lambda>p. None) sample_cluster demo_done] 2 2 0 = Inr rep
     \<and> br_failures rep = 0 \<and> 0 \<le> br_retries rep \<and> br_retries rep \<le> 1"
proof -
  have jobs: "jobs demo_done = [demo_job SUCCEEDED 1 5003]" by (simp add: demo_dbs)
  have "\<forall>j \<in> set (jobs demo_done). j_status j = SUCCEEDED" "\<forall>j \<in> set (jobs demo_done). j_max_retries j = 1"
    by (simp_all add: jobs demo_job_def)
  with benchmark_report_sound [OF demo_done_reachable, of 1 "[take_sample (\<lambda>p. None) (\<lambda>p. None) sample_cluster demo_done]" 2 2 0]
  show ?thesis by (auto simp: jobs)
qed

end
