(* ===== verification/Benchmark.thy ===== *)
theory Benchmark
  imports Measurement "HOL-Library.AList"
begin

text \<open>
  \<^verbatim>\<open>main\<close> of \<^verbatim>\<open>benchmarks/run.py\<close> as a live script: one cluster for each case, three workers in it, the measurement
  (a call answered by the deployment; its report is the subject of \<open>Measurement\<close>), and the results file with the
  environment it was measured in. The format of the printed numbers, \<open>shown\<close>, is Python's.
\<close>

section \<open>The script\<close>

text \<open>\<^verbatim>\<open>d[k]\<close> and \<^verbatim>\<open>d.update(...)\<close> on a decoded object.\<close>

definition item :: "string \<Rightarrow> json \<Rightarrow> json live" where
  "item k j = (case j of
     JObj kvs \<Rightarrow> (case map_of kvs k of Some v \<Rightarrow> live_return v | None \<Rightarrow> live_fail ''KeyError'')
   | _ \<Rightarrow> live_fail ''TypeError'')"

definition with_items :: "(string \<times> json) list \<Rightarrow> json \<Rightarrow> json" where
  "with_items new j = (case j of JObj kvs \<Rightarrow> JObj (fold (\<lambda>(k, v). AList.update k v) new kvs) | _ \<Rightarrow> j)"

definition case_items :: "string \<Rightarrow> string \<Rightarrow> nat \<Rightarrow> (string \<times> json) list" where
  "case_items strategy kind concurrency = [(''strategy'', JStr strategy), (''workload'', JStr kind),
     (''workers'', JInt 3), (''concurrency'', JInt (int concurrency))]"

definition bench_case ::
    "answers \<Rightarrow> (json \<Rightarrow> json \<Rightarrow> string) \<Rightarrow> nat \<Rightarrow> nat \<Rightarrow> string \<times> string \<Rightarrow> json live" where
  "bench_case env shown n concurrency sk = (case sk of (strategy, kind) \<Rightarrow>
     with_cluster env (bench_overrides strategy concurrency) (
     live_then (live_each (\<lambda>i. act env (Start_worker (''benchmark-'' @ nat_text i) [])) [0, 1, 2]) (
     live_bind (reading the_doc (act env (Measure n kind))) (\<lambda>measured.
     let result = with_items (case_items strategy kind concurrency) measured in
     live_bind (item ''jobs_per_second'' result) (\<lambda>rate.
     live_bind (item ''latency_seconds'' result) (\<lambda>latency.
     live_bind (item ''p95'' latency) (\<lambda>p95.
     live_then (act env (Say (''PASS '' @ strategy @ ''/'' @ kind @ '': '' @ nat_text n @ '' jobs, '' @ shown rate p95))) (
     live_return result))))))))"

text \<open>The facts \<^verbatim>\<open>platform\<close> and \<^verbatim>\<open>psutil\<close> know of the machine, then what is true of every run.\<close>

definition SUBMISSION_CONCURRENCY :: int where "SUBMISSION_CONCURRENCY = 12"

definition environment_notes :: "(string \<times> json) list" where
  "environment_notes =
     [(''database'', JStr ''PostgreSQL 18 on loopback''), (''transport'', JStr ''HTTP loopback''),
      (''submission_concurrency'', JInt SUBMISSION_CONCURRENCY),
      (''resource_scope'', JStr ''Coordinator and worker process trees; excludes PostgreSQL, load generator and Docker''),
      (''cpu_unit'', JStr ''Sum of per-process CPU percentages; 100% is one logical core''),
      (''notes'', JStr ''Single local runs including cold task pools; exclude cluster startup; no cross-host or production claim'')]"

definition bench_name :: "nat \<Rightarrow> bool \<Rightarrow> string \<Rightarrow> string \<Rightarrow> string" where
  "bench_name n matrix strategy kind =
     ''benchmark-'' @ nat_text n @ ''-'' @ (if matrix then ''matrix'' else strategy @ ''-'' @ kind)"

definition bench_collect ::
    "answers \<Rightarrow> (json \<Rightarrow> json \<Rightarrow> string) \<Rightarrow> int \<Rightarrow> int \<Rightarrow> bool \<Rightarrow> string \<Rightarrow> string \<Rightarrow> (json list \<times> json) live" where
  "bench_collect env shown n concurrency matrix strategy kind =
     (if \<not> bench_args_ok n concurrency then live_fail ''SystemExit''
      else
     live_bind (live_each (bench_case env shown (nat n) (nat concurrency)) (bench_cases matrix strategy kind)) (\<lambda>results.
     live_bind (reading the_doc (act env Machine)) (\<lambda>machine.
     live_return (results, with_items environment_notes machine))))"

definition bench_main ::
    "answers \<Rightarrow> (json \<Rightarrow> json \<Rightarrow> string) \<Rightarrow> int \<Rightarrow> int \<Rightarrow> bool \<Rightarrow> string \<Rightarrow> string \<Rightarrow> answer live" where
  "bench_main env shown n concurrency matrix strategy kind =
     (let name = ''docs/results/'' @ bench_name (nat n) matrix strategy kind in
      live_bind (bench_collect env shown n concurrency matrix strategy kind) (\<lambda>found.
      live_then (act env (Write_results (name @ ''.json'')
          (JObj [(''environment'', snd found), (''results'', JArr (fst found))]))) (
      act env (Save_plot (name @ ''.png'') (JArr (fst found))))))"

section \<open>Lemmas\<close>

lemma tidy_item: "tidy (item k j)"
  by (auto simp: item_def tidy_return tidy_fail split: json.split option.split)

lemma tidy_case: "tidy (bench_case env shown n concurrency sk)"
  by (auto simp: bench_case_def Let_def intro!: tidy_cluster tidy_intros tidy_item split: prod.split)

lemma tidy_collect: "tidy (bench_collect env shown n concurrency matrix strategy kind)"
  unfolding bench_collect_def by (auto intro!: tidy_intros tidy_case)

lemma each_runs:
  assumes "live_each f xs h = (Inr ys, h')"
  shows "list_all2 (\<lambda>x y. \<exists>g g'. f x g = (Inr y, g')) xs ys"
  using assms by (induction xs arbitrary: h ys) (auto simp: live_simps)

lemma with_items_lookup:
  assumes "with_items new (JObj kvs) = JObj kvs'" and "distinct (map fst new)"
  shows "map_of kvs' = map_of kvs ++ map_of new"
proof -
  have "map_of (fold (\<lambda>(k, v). AList.update k v) new kvs) = map_of kvs ++ map_of new" using assms(2)
  proof (induction new arbitrary: kvs)
    case (Cons kv new)
    then have "map_of new (fst kv) = None" by (simp add: map_of_eq_None_iff)
    with Cons show ?case by (cases kv) (auto simp: fun_eq_iff AList.update_conv' map_add_def split: option.split)
  qed simp
  with assms(1) show ?thesis by (simp add: with_items_def)
qed

text \<open>The result of a case is the measurement of its workload, labelled with the case.\<close>

definition case_result :: "nat \<Rightarrow> string \<times> string \<Rightarrow> json \<Rightarrow> bool" where
  "case_result concurrency sk j \<longleftrightarrow> (\<exists>kvs. j = JObj kvs \<and> map_of kvs ''strategy'' = Some (JStr (fst sk))
     \<and> map_of kvs ''workload'' = Some (JStr (snd sk)) \<and> map_of kvs ''workers'' = Some (JInt 3)
     \<and> map_of kvs ''concurrency'' = Some (JInt (int concurrency)) \<and> map_of kvs ''jobs_per_second'' \<noteq> None)"

lemma case_run:
  assumes "bench_case env shown n concurrency sk h = (Inr j, h')"
  shows "case_result concurrency sk j"
proof -
  obtain strategy kind where sk: "sk = (strategy, kind)" by (cases sk)
  let ?new = "case_items strategy kind concurrency"
  from assms sk obtain measured rate g g' where j: "j = with_items ?new measured" and rate: "item ''jobs_per_second'' j g = (Inr rate, g')"
    by (auto simp: bench_case_def Let_def live_bind_Inr live_then_Inr live_return_iff elim!: cluster_run)
  from rate obtain kvs where kvs: "j = JObj kvs" "map_of kvs ''jobs_per_second'' \<noteq> None"
    by (auto simp: item_def live_simps split: json.splits option.splits)
  with j obtain kvs0 where "measured = JObj kvs0" by (auto simp: with_items_def split: json.splits)
  with j kvs have "map_of kvs = map_of kvs0 ++ map_of ?new"
    by (intro with_items_lookup) (simp_all add: case_items_def)
  with kvs sk show ?thesis by (auto simp: case_result_def case_items_def map_add_def)
qed

text \<open>
  However the deployment behaves, the benchmark closes every cluster it opened. It writes at most one results
  file, only for arguments in their ranges and only after every case was measured: then the file has one
  labelled result for each case, in their order.
\<close>

lemma benchmark_results_sound:
  assumes "bench_main env shown n concurrency matrix strategy kind [] = (r, h)"
  shows "opened h = closings h \<and> (written h \<noteq> [] \<longrightarrow> bench_args_ok n concurrency
    \<and> (\<exists>results machine. written h = [(''docs/results/'' @ bench_name (nat n) matrix strategy kind @ ''.json'',
          JObj [(''environment'', machine), (''results'', JArr results)])]
        \<and> list_all2 (case_result (nat concurrency)) (bench_cases matrix strategy kind) results))"
proof -
  let ?name = "''docs/results/'' @ bench_name (nat n) matrix strategy kind"
  have tail: "tidy (act env (Save_plot (?name @ ''.png'') (JArr (fst x))))" for x :: "json list \<times> json"
    by (intro tidy_act) simp
  note last = results_last [OF tidy_collect tail assms [unfolded bench_main_def Let_def]]
  have "bench_args_ok n concurrency \<and> list_all2 (case_result (nat concurrency)) (bench_cases matrix strategy kind) (fst x)"
    if "bench_collect env shown n concurrency matrix strategy kind [] = (Inr x, h0)" for x h0
  proof -
    from that obtain g where ok: "bench_args_ok n concurrency"
      and run: "live_each (bench_case env shown (nat n) (nat concurrency)) (bench_cases matrix strategy kind) [] = (Inr (fst x), g)"
      by (auto simp: bench_collect_def live_simps split: if_splits)
    have "list_all2 (case_result (nat concurrency)) (bench_cases matrix strategy kind) (fst x)"
      using each_runs [OF run] by (rule list_all2_mono) (auto dest: case_run)
    with ok show ?thesis by blast
  qed
  note sound = this
  show ?thesis
  proof (intro conjI impI last(1))
    assume "written h \<noteq> []"
    from last(3) [OF this] obtain x h0 where "bench_collect env shown n concurrency matrix strategy kind [] = (Inr x, h0)"
      and evidence: "written h = [(?name @ ''.json'', JObj [(''environment'', snd x), (''results'', JArr (fst x))])]" by blast
    from sound [OF this(1)] evidence show "bench_args_ok n concurrency" and "\<exists>results machine.
        written h = [(''docs/results/'' @ bench_name (nat n) matrix strategy kind @ ''.json'',
          JObj [(''environment'', machine), (''results'', JArr results)])]
        \<and> list_all2 (case_result (nat concurrency)) (bench_cases matrix strategy kind) results" by auto
  qed
qed

end
