(* ===== verification/Progress.thy ===== *)
theory Progress
  imports Composition
begin

text \<open>
  Progress of \<^verbatim>\<open>claim\<close> in \<^verbatim>\<open>service.py\<close>: a healthy worker that asks for a job on a free slot is refused only
  when there is nothing for it to do. None of the unique indexes and foreign keys of the tables can stand
  in the way of the lease.
\<close>

text \<open>A waiting job has no unfinished attempt, so its lease can be inserted.\<close>

lemma waiting_unleased:
  assumes inv: "db_inv d" and j: "j \<in> set (jobs d)" "j_status j \<in> {QUEUED, RETRY_WAIT}"
  shows "active_attempt (j_id j) d = None"
proof -
  have "\<not> active a" if "a \<in> set (attempts d)" "a_job_id a = j_id j" for a
    using inv_lease [OF inv j(1) that] j(2) by (auto simp: lease_ok_def)
  then show ?thesis by (auto simp: active_attempt_def find_None_iff)
qed

lemma lease_insertable:
  assumes inv: "db_inv d" and v: "v \<in> set (workers d)" and slot: "slot_attempt (w_id v) slot d = None"
    and j: "j \<in> set (jobs d)" "eligible v t d j"
    and fresh: "u \<notin> a_id ` set (attempts d)" "c \<notin> a_claim_id ` set (attempts d)"
  shows "insertable (new_attempt u (j\<lparr>j_attempt_count := n\<rparr>) (w_id v) slot c tn e) d"
  using waiting_unleased [OF inv j(1)] assms by (auto simp: insertable_def new_attempt_def eligible_def)

lemma lease_succeeds:
  assumes inv: "db_inv (db w)" and v: "v \<in> set (workers (db w))" "w_state v = HEALTHY"
    and policy: "scheduler policy = Inr query"
    and pick: "first_unlocked (locked_jobs w) (query v (clk w 0) (db w)) = Some j"
    and slot: "slot_attempt (w_id v) slot (db w) = None"
    and fresh: "uuids w 0 \<notin> a_id ` set (attempts (db w))" "c \<notin> a_claim_id ` set (attempts (db w))"
  shows "\<exists>r w'. lease_job v slot (Some c) policy lease w = Inr (Some r, w')"
proof -
  from scheduler_choice [OF policy pick] have j: "j \<in> set (jobs (db w))" "eligible v (clk w 0) (db w) j" by auto
  let ?job = "j\<lparr>j_attempt_count := j_attempt_count j + 1\<rparr>"
  let ?a = "new_attempt (uuids w 0) ?job (w_id v) slot c (tx_now w) (clk w 0 + timedelta lease)"
  have ins: "insertable ?a (db w)" by (rule lease_insertable [OF inv v(1) slot j fresh])
  have st: "LEASED \<in> TRANSITIONS (j_status ?job)" using j(2) by (auto simp: eligible_def)
  let ?d = "leased (tx_now w) (clk w (Suc 0)) ?job ?a (db w)"
  have "j_id j \<in> j_id ` set (jobs ?d)" using j(1) by (simp add: leased_def moved_def row_simps)
  then obtain row where row: "job_by_id (j_id j) ?d = Some row"
    by (metis job_by_id_def job_table.lookup_None_iff not_None_eq)
  show ?thesis
    using v(2) policy pick ins st row j(1)
    by (simp add: lease_job_def tx_eval insert_attempt_def transition_eval insertable_def Let_def
        new_attempt_def leased_def row_simps slot_attempt_def active_attempt_def tick_def)
qed

text \<open>Every policy picks a job whenever an unlocked one is eligible.\<close>

lemma scheduler_picks:
  assumes "scheduler policy = Inr query"
  shows "first_unlocked locked (query v t d) \<noteq> None
    \<longleftrightarrow> (\<exists>j \<in> set (jobs d). eligible v t d j \<and> j_id j \<notin> set locked)"
proof
  assume "first_unlocked locked (query v t d) \<noteq> None"
  then show "\<exists>j \<in> set (jobs d). eligible v t d j \<and> j_id j \<notin> set locked"
    using scheduler_choice [OF assms] by blast
next
  assume "\<exists>j \<in> set (jobs d). eligible v t d j \<and> j_id j \<notin> set locked"
  then show "first_unlocked locked (query v t d) \<noteq> None"
    using scheduler_cases [OF assms] fifo.no_head [of locked v t d] priority.no_head [of locked v t d] by blast
qed

lemma lease_held:
  assumes inv: "db_inv (db w)" and run: "lease_job v slot (Some c) policy lease w = Inr (Some (job, a), w')"
  shows "holds a job (db w') \<and> j_status job = LEASED \<and> a_worker_id a = w_id v \<and> a_slot a = slot
    \<and> a_claim_id a = c \<and> a_expires_at a = clk w 0 + timedelta lease"
  using run
proof (cases rule: lease_job_cases)
  case (leased query job0 job1 a1 row u c1)
  have j0: "job0 \<in> set (jobs (db w))" using scheduler_choice [OF leased(2,3)] by simp
  have a: "a = new_attempt u job1 (w_id v) slot c (tx_now w) (clk w 0 + timedelta lease)" and row: "row = job"
    using leased by auto
  have "distinct (map j_id (jobs (db w)))" using inv_parts(1) [OF inv] by (simp add: keys_ok_def)
  then have "job_by_id (j_id job0) (db w') = Some (job1\<lparr>j_status := LEASED, j_updated_at := clk w (Suc 0)\<rparr>)"
    using leased(4,9) job_table.update_same [of "jobs (db w)" job0, OF _ j0]
    by (simp add: job_by_id_def leased_def moved_def row_simps set_row_twice)
  then have job: "job = job1\<lparr>j_status := LEASED, j_updated_at := clk w (Suc 0)\<rparr>" using leased(4,12) row by simp
  have "job \<in> set (jobs (db w'))" using leased(12) row by (auto dest: job_by_id_Some)
  moreover have "a \<in> set (attempts (db w'))" using leased(5,9,13) by (simp add: leased_def moved_def row_simps)
  ultimately show ?thesis unfolding holds_def using a job by (simp add: new_attempt_def)
qed simp_all

lemma fresh_claim:
  assumes "worker_by_id wid (db w) = Some v" and "0 \<le> slot" and "slot < w_capacity v"
    and "slot_attempt wid slot (db w) = None" and "c \<notin> a_claim_id ` set (attempts (db w))"
  shows "claim wid slot (Some c) policy lease w = lease_job v slot (Some c) policy lease w"
proof -
  have "attempt_by_claim c (db w) = None"
    using assms(5) by (auto simp: attempt_by_claim_def find_row_def find_None_iff)
  with assms show ?thesis by (simp add: claim_def tx_get_bind)
qed

text \<open>
  C21: a claim on a free slot of a healthy worker, with a new claim id, never fails, whatever the policy. It
  returns an assignment exactly when some unlocked job is eligible for the worker: the job is then LEASED
  and held by that worker and slot until the end of the lease. Otherwise it returns nothing and changes
  nothing.
\<close>

theorem claim_serves:
  assumes inv: "db_inv (db w)" and policy: "policy \<in> {''fifo'', ''priority'', ''capacity''}"
    and worker: "worker_by_id wid (db w) = Some v" "w_state v = HEALTHY" "0 \<le> slot" "slot < w_capacity v"
    and slot: "slot_attempt wid slot (db w) = None"
    and fresh: "c \<notin> a_claim_id ` set (attempts (db w))" "uuids w 0 \<notin> a_id ` set (attempts (db w))"
  shows "if \<exists>j \<in> set (jobs (db w)). eligible v (clk w 0) (db w) j \<and> j_id j \<notin> set (locked_jobs w)
    then \<exists>job a w'. claim wid slot (Some c) policy lease w = Inr (Some (job, a), w') \<and> holds a job (db w')
      \<and> j_status job = LEASED \<and> a_worker_id a = wid \<and> a_slot a = slot \<and> a_claim_id a = c
      \<and> a_expires_at a = clk w 0 + timedelta lease
    else claim wid slot (Some c) policy lease w = Inr (None, tick w)"
proof -
  obtain query where query: "scheduler policy = Inr query" using policy by (auto simp: scheduler_def)
  from worker_by_id_Some [OF worker(1)] have v: "v \<in> set (workers (db w))" "w_id v = wid" by auto
  note claim = fresh_claim [OF worker(1,3,4) slot fresh(1), of policy lease]
  let ?pick = "first_unlocked (locked_jobs w) (query v (clk w 0) (db w))"
  note picks = scheduler_picks [OF query, of "locked_jobs w" v "clk w 0" "db w"]
  show ?thesis
  proof (cases ?pick)
    case None
    then have "lease_job v slot (Some c) policy lease w = Inr (None, tick w)"
      using worker(2) query by (simp add: lease_job_def tx_eval tick_def)
    with None picks claim show ?thesis by auto
  next
    case (Some j)
    obtain job a w' where run: "lease_job v slot (Some c) policy lease w = Inr (Some (job, a), w')"
      using lease_succeeds [OF inv v(1) worker(2) query Some _ fresh(2,1), of slot lease] slot v(2) by auto
    from Some picks claim run lease_held [OF inv run] v(2) show ?thesis by auto
  qed
qed

theorem claim_serves_witness:
  "\<exists>job a w'. claim ''w1'' 0 (Some 77) ''fifo'' 15 (demo_world demo_queued 3000 20) = Inr (Some (job, a), w')
     \<and> holds a job (db w') \<and> a_expires_at a = 3000 + timedelta 15"
proof -
  let ?w = "demo_world demo_queued 3000 20"
  have db: "workers demo_queued = [demo_worker_row]" "jobs demo_queued = [demo_job QUEUED 0 2000]" "attempts demo_queued = []"
    by (simp_all add: demo_dbs)
  have worker: "worker_by_id ''w1'' (db ?w) = Some demo_worker_row"
    by (simp add: db worker_by_id_def find_row_def demo_worker_row_def)
  have job: "\<exists>j \<in> set (jobs (db ?w)). eligible demo_worker_row (clk ?w 0) (db ?w) j \<and> j_id j \<notin> set (locked_jobs ?w)"
    by (simp add: db eligible_def demo_worker_row_def demo_job_def)
  show ?thesis
    using claim_serves [of ?w "''fifo''" "''w1''" demo_worker_row 0 77 15] demo_inv(1) worker job
    by (auto simp: db slot_attempt_def demo_worker_row_def)
qed

end
