(* ===== verification/Profile.thy ===== *)
theory Profile
  imports Composition Harness
begin

text \<open>
  The read profile of \<^verbatim>\<open>scripts/profile_reads.py\<close>: one transaction that submits, claims, starts and finishes
  a hundred jobs through the service, two ways of reading them back, and the assertions on the two. The
  worker is inserted directly, without a session, so these tables lie outside the runs of the coordinators.
\<close>

section \<open>The script\<close>

text \<open>\<^verbatim>\<open>Worker(id="profile")\<close> with the defaults of the table.\<close>

definition profile_worker :: "timestamp \<Rightarrow> worker_row" where
  "profile_worker now = \<lparr>w_id = ''profile'', w_state = HEALTHY, w_capacity = 1,
     w_capabilities = [''sleep'', ''calculate_pi'', ''hash_text'', ''flaky''], w_session_hash = None,
     w_drain_requested = False, w_registered_at = now, w_last_seen = now\<rparr>"

definition add_profile_worker :: "unit dbtx" where
  "add_profile_worker w =
     (if ''profile'' \<in> w_id ` set (workers (db w)) then Inl (IntegrityError ''workers_pkey'')
      else Inr ((), w\<lparr>db := (db w)\<lparr>workers := workers (db w) @ [profile_worker (tx_now w)]\<rparr>\<rparr>))"

text \<open>\<^verbatim>\<open>service.submit(db, "hash_text", {"text": "profile"})\<close> with the defaults of \<^verbatim>\<open>admit\<close>.\<close>

definition profile_submission :: submission where
  "profile_submission = \<lparr>sub_task = ''hash_text'', sub_args = JObj [(''text'', JStr ''profile'')],
     sub_priority = 0, sub_timeout = 15, sub_max_retries = 0, sub_retry_delay = 1, sub_retry_jitter = True,
     sub_idempotency_key = None, sub_metadata = None, sub_scheduled_at = None, sub_depends_on = None\<rparr>"

text \<open>Unpacking a claim that returned nothing would be a \<^verbatim>\<open>TypeError\<close>.\<close>

definition profile_round :: "env \<Rightarrow> unit dbtx" where
  "profile_round env =
     tx_bind (submit env profile_submission 10000 20000) (\<lambda>_.
     tx_bind (claim ''profile'' 0 None ''fifo'' 10) (\<lambda>got.
     case got of
        None \<Rightarrow> tx_raise (TypeError ''cannot unpack non-iterable NoneType object'')
      | Some (job, attempt) \<Rightarrow>
     tx_bind (start (j_id job) ''profile'' (a_id attempt)) (\<lambda>_.
     finish (j_id job) ''profile'' (a_id attempt) (Some (JObj [(''value'', JInt 1)])) None False)))"

primrec profile_rounds :: "env \<Rightarrow> nat \<Rightarrow> unit dbtx" where
  "profile_rounds env 0 = tx_return ()"
| "profile_rounds env (Suc n) = tx_bind (profile_rounds env n) (\<lambda>_. profile_round env)"

definition profile_fill :: "env \<Rightarrow> unit dbtx" where
  "profile_fill env = tx_bind add_profile_worker (\<lambda>_. profile_rounds env 100)"

definition profile_entry :: "nat \<Rightarrow> rat \<Rightarrow> json" where
  "profile_entry statements seconds = JObj [(''sql_statements'', JInt (int statements)), (''seconds'', JFloat seconds)]"

text \<open>\<open>elapsed\<close> are the readings of the timer around the two reads.\<close>

definition profile_main :: "env \<Rightarrow> (bool \<Rightarrow> rat) \<Rightarrow> world \<Rightarrow> string + json" where
  "profile_main env elapsed w =
     (case profile_fill env w of
        Inl e \<Rightarrow> Inl (exn_text e)
      | Inr (_, w') \<Rightarrow>
          let per_row = profile_read env False (db w'); batch = profile_read env True (db w') in
          if snd per_row \<noteq> snd batch then Inl ''AssertionError''
          else if \<not> (fst batch = 2 \<and> fst per_row = 101) then Inl ''AssertionError''
          else Inr (JObj [(''per_row'', profile_entry (fst per_row) (elapsed False)),
            (''batch'', profile_entry (fst batch) (elapsed True)),
            (''note'', JStr ''Same 100 results; local single-run query-count comparison, not an end-to-end throughput claim'')]))"

section \<open>A round on settled tables\<close>

text \<open>
  Tables in which all work is done, and a supply of clock readings and identifiers for the rest of the
  transaction: the clock does not run back and the transaction takes less than the ten seconds of a lease.
\<close>

definition settled :: "nat \<Rightarrow> database \<Rightarrow> bool" where
  "settled n d \<longleftrightarrow> (\<exists>t. workers d = [profile_worker t]) \<and> length (jobs d) = n \<and> distinct (map j_id (jobs d))
     \<and> (\<forall>j \<in> set (jobs d). j_status j = SUCCEEDED) \<and> (\<forall>a \<in> set (attempts d). \<not> active a)
     \<and> map r_job_id (results d) = map j_id (jobs d)"

definition supplied :: "world \<Rightarrow> bool" where
  "supplied w \<longleftrightarrow> (\<forall>m n. m \<le> n \<longrightarrow> clk w m \<le> clk w n \<and> clk w n < clk w m + timedelta 10) \<and> inj (uuids w)
     \<and> (\<forall>k. uuids w k \<notin> j_id ` set (jobs (db w)) \<and> uuids w k \<notin> a_id ` set (attempts (db w))
         \<and> uuids w k \<notin> a_claim_id ` set (attempts (db w)))
     \<and> locked_jobs w = []"

lemma set_row_last: "k \<notin> key ` set rs \<Longrightarrow> key r = k \<Longrightarrow> set_row key k f (rs @ [r]) = rs @ [f r]"
  by (induction rs) (auto simp: set_row_def)

lemma find_row_last: "k \<notin> key ` set rs \<Longrightarrow> key r = k \<Longrightarrow> find_row key k (rs @ [r]) = Some r"
  by (induction rs) (auto simp: find_row_def)

lemma settled_submit:
  assumes strict: "strict_models env" and d: "settled n (db w)" "n < 10000" and sup: "supplied w"
  obtains job w' where "submit env profile_submission 10000 20000 w = Inr (job, w')" "job \<in> set (jobs (db w'))"
    "jobs (db w') = jobs (db w) @ [job]" "j_id job = uuids w 0" "j_status job = QUEUED" "j_available_at job = clk w 0"
    "j_task job = ''hash_text''" "j_depends_on job = None" "attempts (db w') = attempts (db w)"
    "results (db w') = results (db w)" "workers (db w') = workers (db w)" "clk w' = (\<lambda>n. clk w (Suc n))"
    "uuids w' = (\<lambda>n. uuids w (Suc n))" "locked_jobs w' = []"
proof -
  let ?s = profile_submission and ?args = "JObj [(''text'', JStr ''profile'')]"
  have "conforms HashArgs ?args" by (simp add: args_defs conforms_single)
  then have args: "admit_args env (sub_task ?s) (sub_args ?s) = Inr ?args"
    using strict by (simp add: admit_args_def validate_def REGISTRY_def strict_models_def profile_submission_def)
  obtain digest where digest: "request_digest env ?s ?args = Some digest"
    by (simp add: request_digest_def request_definition_def profile_submission_def metadata_or_empty_def)
  define job where "job = new_job ?s ?args digest (uuids w 0) (clk w 0)"
  have new: "uuids w 0 \<notin> j_id ` set (jobs (db w))" using sup by (simp add: supplied_def)
  have "filter (\<lambda>j. j_status j \<in> ACTIVE) (jobs (db w)) = []"
    using d(1) by (auto simp: settled_def filter_empty_conv ACTIVE_def)
  then have limit: "admitted_active (db w) < 10000" by (simp add: admitted_active_def)
  have "length (filter P (jobs (db w))) \<le> n" for P
    using d(1) length_filter_le [of P "jobs (db w)"] by (simp add: settled_def)
  then have rate: "recent_submissions (clk w 0) (db w) < 20000"
    using d(2) by (simp add: recent_submissions_def order.strict_trans1 [where b = n])
  let ?w = "(tick w)\<lparr>uuids := (\<lambda>n. uuids w (Suc n)), db := admitted (tx_now w) job (db w)\<rparr>"
  have fields: "j_id job = uuids w 0" "j_status job = QUEUED" "j_available_at job = clk w 0" "j_task job = ''hash_text''"
    "j_depends_on job = None" "j_idempotency_key job = None"
    by (simp_all add: job_def new_job_def profile_submission_def)
  have "insert_job job (tick w) = Inr ((), (tick w)\<lparr>db := (db w)\<lparr>jobs := jobs (db w) @ [job]\<rparr>\<rparr>)"
    using new fields by (simp add: insert_job_def Let_def tick_def)
  then have "admit env ?s 10000 20000 w = Inr ((job, True), ?w)"
    using args digest limit rate unfolding admit_iff
    by (auto simp: job_def profile_submission_def job_for_key_def check_parent_def tx_return_def)
  then have "submit env ?s 10000 20000 w = Inr (job, ?w)" by (simp add: submit_def tx_bind_def tx_return_def)
  then show thesis by (rule that) (use fields sup in \<open>simp_all add: admitted_def row_simps tick_def supplied_def\<close>)
qed

lemma settled_claim:
  assumes jobs: "jobs (db w) = js @ [job]" "\<forall>j \<in> set js. j_status j = SUCCEEDED" "j_id job \<notin> j_id ` set js"
    and job: "j_status job = QUEUED" "j_available_at job \<le> clk w 0" "j_task job = ''hash_text''" "j_depends_on job = None"
    and rest: "\<forall>a \<in> set (attempts (db w)). \<not> active a" "workers (db w) = [profile_worker t]" "locked_jobs w = []"
    and fresh: "uuids w 0 \<notin> a_claim_id ` set (attempts (db w))" "uuids w (Suc 0) \<notin> a_id ` set (attempts (db w))"
  obtains row a w' where "claim ''profile'' 0 None ''fifo'' 10 w = Inr (Some (row, a), w')"
    "jobs (db w') = js @ [row]" "j_id row = j_id job" "j_status row = LEASED" "attempts (db w') = attempts (db w) @ [a]"
    "a_job_id a = j_id job" "a_worker_id a = ''profile''" "a_id a = uuids w (Suc 0)" "a_claim_id a = uuids w 0" "active a"
    "a_fence a = j_attempt_count row" "a_expires_at a = clk w 0 + timedelta 10" "results (db w') = results (db w)"
    "workers (db w') = workers (db w)" "clk w' = (\<lambda>n. clk w (Suc (Suc n)))" "uuids w' = (\<lambda>n. uuids w (Suc (Suc n)))"
    "locked_jobs w' = []"
proof -
  let ?v = "profile_worker t"
  have "filter (eligible ?v (clk w 0) (db w)) (jobs (db w)) = [job]"
    using jobs job by (auto simp: eligible_def profile_worker_def filter_empty_conv)
  then have pick: "first_unlocked [] (FIFOScheduler_query ?v (clk w 0) (db w)) = Some job"
    by (simp add: FIFOScheduler_query_def first_unlocked_def)
  have v: "worker_by_id ''profile'' (db w) = Some ?v"
    using rest(2) by (simp add: worker_by_id_def find_row_def profile_worker_def)
  have slot: "slot_attempt ''profile'' 0 (db w) = None" and idle: "active_attempt (j_id job) (db w) = None"
    using rest(1) by (auto simp: slot_attempt_def active_attempt_def find_None_iff)
  define a where "a = new_attempt (uuids w (Suc 0)) (job\<lparr>j_attempt_count := j_attempt_count job + 1\<rparr>) ''profile'' 0 (uuids w 0)
    (tx_now w) (clk w 0 + timedelta 10)"
  define row where "row = job\<lparr>j_attempt_count := j_attempt_count job + 1, j_status := LEASED, j_updated_at := clk w (Suc 0)\<rparr>"
  define w' where "w' = (tick (tick w))\<lparr>uuids := (\<lambda>n. uuids w (Suc (Suc n))),
     db := leased (tx_now w) (clk w (Suc 0)) (job\<lparr>j_attempt_count := j_attempt_count job + 1\<rparr>) a (db w)\<rparr>"
  have rows: "jobs (db w') = js @ [row]"
    using jobs by (simp add: w'_def leased_def moved_def row_simps set_row_last row_def)
  then have look: "job_by_id (j_id job) (db w') = Some row"
    using jobs(3) by (simp add: job_by_id_def find_row_last row_def)
  have "lease_job ?v 0 None ''fifo'' 10 w = Inr (Some (row, a), w')"
    using pick rest jobs(1) fresh slot idle job(1) look
    by (simp add: lease_job_def tx_eval scheduler_def insert_attempt_def transition_eval Let_def a_def w'_def
        new_attempt_def leased_def row_simps slot_attempt_def active_attempt_def tick_def profile_worker_def)
  then have "claim ''profile'' 0 None ''fifo'' 10 w = Inr (Some (row, a), w')"
    using v slot by (simp add: claim_def tx_get_bind profile_worker_def)
  then show thesis using rows
    by (rule that) (simp_all add: row_def a_def w'_def job new_attempt_def rest leased_def moved_def row_simps tick_def)
qed

lemma settled_run:
  assumes jobs: "jobs (db w) = js @ [row]" "j_id row \<notin> j_id ` set js" "j_status row = LEASED"
    and attempts: "attempts (db w) = as @ [a]" "a_id a \<notin> a_id ` set as" "a_job_id a = j_id row" "a_worker_id a = ''profile''"
      "active a" "a_fence a = j_attempt_count row" "\<And>k. clk w k < a_expires_at a"
    and results: "j_id row \<notin> r_job_id ` set (results (db w))"
  obtains row' a' w' where "tx_bind (start (j_id row) ''profile'' (a_id a))
      (\<lambda>_. finish (j_id row) ''profile'' (a_id a) (Some out) None False) w = Inr ((), w')"
    "jobs (db w') = js @ [row']" "j_id row' = j_id row" "j_status row' = SUCCEEDED" "attempts (db w') = as @ [a']"
    "a_id a' = a_id a" "a_claim_id a' = a_claim_id a" "\<not> active a'"
    "results (db w') = results (db w) @ [\<lparr>r_job_id = j_id row, r_output = Some out, r_error = None\<rparr>]"
    "workers (db w') = workers (db w)" "\<forall>n. clk w' n = clk w (n + 7)" "uuids w' = uuids w" "locked_jobs w' = locked_jobs w"
proof -
  define row1 where "row1 = row\<lparr>j_status := RUNNING, j_updated_at := clk w (Suc (Suc 0))\<rparr>"
  define a1 where "a1 = a\<lparr>a_started_at := Some (clk w (Suc 0))\<rparr>"
  define w1 where "w1 = (tick (tick (tick w)))\<lparr>db := moved (tx_now w) (clk w (Suc (Suc 0))) (j_id row) RUNNING
     (set_attempt (a_id a) (\<lambda>a. a\<lparr>a_started_at := Some (clk w (Suc 0))\<rparr>) (db w))\<rparr>"
  have own: "owned (j_id row) ''profile'' (a_id a) False w = Inr ((row, a), tick w)"
    using jobs attempts by (simp add: owned_iff job_by_id_def attempt_by_id_def find_row_last)
  then have start: "start (j_id row) ''profile'' (a_id a) w = Inr ((), w1)" using jobs(3) by (auto simp: start_iff w1_def)
  have rows1: "jobs (db w1) = js @ [row1]" "attempts (db w1) = as @ [a1]" "results (db w1) = results (db w)"
    "workers (db w1) = workers (db w)" "clk w1 = (\<lambda>n. clk w (Suc (Suc (Suc n))))"
    using jobs attempts by (simp_all add: w1_def moved_def row_simps set_row_last row1_def a1_def tick_def)
  define w2 where "w2 = (tick (tick (tick (tick w1))))\<lparr>db := moved (tx_now w1) (clk w1 (Suc (Suc (Suc 0)))) (j_id row1) SUCCEEDED
     (with_result (j_id row1) (Some out) None (set_attempt (a_id a1) (\<lambda>a. a\<lparr>a_output := Some out,
        a_outcome := Some OutSucceeded, a_finished_at := Some (clk w1 (Suc (Suc 0)))\<rparr>) (db w1)))\<rparr>"
  have own1: "owned (j_id row) ''profile'' (a_id a) True w1 = Inr ((row1, a1), tick w1)"
    using jobs attempts rows1
    by (simp add: owned_iff job_by_id_def attempt_by_id_def find_row_last row1_def a1_def)
  then have "finish (j_id row) ''profile'' (a_id a) (Some out) None False w1 = Inr ((), w2)"
    unfolding finish_iff using attempts results rows1 by (auto simp: row1_def a1_def w2_def)
  with start have run: "tx_bind (start (j_id row) ''profile'' (a_id a))
      (\<lambda>_. finish (j_id row) ''profile'' (a_id a) (Some out) None False) w = Inr ((), w2)" by (simp add: tx_bind_def)
  have rows: "jobs (db w2) = js @ [row1\<lparr>j_status := SUCCEEDED, j_updated_at := clk w1 (Suc (Suc (Suc 0)))\<rparr>]"
    "attempts (db w2) = as @ [a1\<lparr>a_output := Some out, a_outcome := Some OutSucceeded, a_finished_at := Some (clk w1 (Suc (Suc 0)))\<rparr>]"
    "results (db w2) = results (db w) @ [\<lparr>r_job_id = j_id row, r_output = Some out, r_error = None\<rparr>]"
    using rows1 jobs attempts by (simp_all add: w2_def row_simps set_row_last row1_def a1_def with_result_def)
  show thesis
    by (rule that [OF run rows(1) _ _ rows(2)]) (simp_all add: rows row1_def a1_def w2_def w1_def row_simps tick_def numeral_eq_Suc)
qed

lemma round_settles:
  assumes strict: "strict_models env" and d: "settled n (db w)" "n < 10000" and sup: "supplied w"
  shows "\<exists>w'. profile_round env w = Inr ((), w') \<and> settled (Suc n) (db w') \<and> supplied w'"
proof -
  obtain job w1 where one: "submit env profile_submission 10000 20000 w = Inr (job, w1)"
    "jobs (db w1) = jobs (db w) @ [job]" "j_id job = uuids w 0" "j_status job = QUEUED" "j_available_at job = clk w 0"
    "j_task job = ''hash_text''" "j_depends_on job = None" "attempts (db w1) = attempts (db w)"
    "results (db w1) = results (db w)" "workers (db w1) = workers (db w)" "clk w1 = (\<lambda>n. clk w (Suc n))"
    "uuids w1 = (\<lambda>n. uuids w (Suc n))" "locked_jobs w1 = []"
    by (rule settled_submit [OF strict d sup])
  obtain t where t: "workers (db w) = [profile_worker t]" using d(1) by (auto simp: settled_def)
  have ids: "uuids w k \<notin> j_id ` set (jobs (db w))" "uuids w k \<notin> a_id ` set (attempts (db w))"
    "uuids w k \<notin> a_claim_id ` set (attempts (db w))" for k
    using sup by (simp_all add: supplied_def)
  have mono: "m \<le> n \<Longrightarrow> clk w m \<le> clk w n" "m \<le> n \<Longrightarrow> clk w n < clk w m + timedelta 10" for m n
    using sup by (simp_all add: supplied_def)
  have idle: "\<forall>j \<in> set (jobs (db w)). j_status j = SUCCEEDED" "\<forall>a \<in> set (attempts (db w)). \<not> active a"
    using d(1) by (simp_all add: settled_def)
  obtain row a w2 where two: "claim ''profile'' 0 None ''fifo'' 10 w1 = Inr (Some (row, a), w2)"
    "jobs (db w2) = jobs (db w) @ [row]" "j_id row = j_id job" "j_status row = LEASED" "attempts (db w2) = attempts (db w) @ [a]"
    "a_job_id a = j_id job" "a_worker_id a = ''profile''" "a_id a = uuids w 2" "a_claim_id a = uuids w 1" "active a"
    "a_fence a = j_attempt_count row" "a_expires_at a = clk w 1 + timedelta 10" "results (db w2) = results (db w)"
    "workers (db w2) = workers (db w)" "clk w2 = (\<lambda>n. clk w (Suc (Suc (Suc n))))" "uuids w2 = (\<lambda>n. uuids w (Suc (Suc (Suc n))))"
    "locked_jobs w2 = []"
    by (rule settled_claim [of w1 "jobs (db w)" job t])
      (use one idle t ids mono(1) [of 0 1] in \<open>simp_all add: numeral_2_eq_2\<close>)
  have time: "clk w2 k < a_expires_at a" for k using mono(2) [of 1 "Suc (Suc (Suc k))"] two(12,15) by simp
  have new: "j_id row \<notin> j_id ` set (jobs (db w))" "a_id a \<notin> a_id ` set (attempts (db w))" "a_job_id a = j_id row"
    using two(3,6,8) one(3) ids(1,2) by simp_all
  have unresolved: "j_id row \<notin> r_job_id ` set (results (db w2))"
    using d(1) ids(1) [of 0] one(3) two(3,13) by (metis list.set_map settled_def)
  obtain row' a' w3 where three: "tx_bind (start (j_id row) ''profile'' (a_id a))
      (\<lambda>_. finish (j_id row) ''profile'' (a_id a) (Some (JObj [(''value'', JInt 1)])) None False) w2 = Inr ((), w3)"
    "jobs (db w3) = jobs (db w) @ [row']" "j_id row' = j_id row" "j_status row' = SUCCEEDED"
    "attempts (db w3) = attempts (db w) @ [a']" "a_id a' = a_id a" "a_claim_id a' = a_claim_id a" "\<not> active a'"
    "results (db w3) = results (db w2) @ [\<lparr>r_job_id = j_id row, r_output = Some (JObj [(''value'', JInt 1)]), r_error = None\<rparr>]"
    "workers (db w3) = workers (db w2)" "\<forall>n. clk w3 n = clk w2 (n + 7)" "uuids w3 = uuids w2" "locked_jobs w3 = locked_jobs w2"
    by (rule settled_run [where out = "JObj [(''value'', JInt 1)]", OF two(2) new(1) two(4,5) new(2,3) two(7,10,11) time unresolved])
  have "profile_round env w = Inr ((), w3)"
    using one(1) two(1) three(1) by (simp add: profile_round_def tx_bind_def)
  moreover have "settled (Suc n) (db w3)"
    using d(1) t idle one two three ids(1) [of 0] by (auto simp: settled_def)
  moreover have "supplied w3"
  proof -
    have same: "uuids w m = uuids w n \<longleftrightarrow> m = n" for m n using sup by (simp add: supplied_def inj_eq)
    have "uuids w3 = (\<lambda>n. uuids w (Suc (Suc (Suc n))))" "locked_jobs w3 = []" "clk w3 n = clk w (n + 10)" for n
      using two(15,16,17) three(11,12,13) by (simp_all add: numeral_eq_Suc)
    moreover have "j_id row' = uuids w 0" "a_id a' = uuids w 2" "a_claim_id a' = uuids w 1"
      using one(3) two(3,8,9) three(3,6,7) by simp_all
    ultimately show ?thesis
      unfolding supplied_def using ids mono by (simp add: three(2,5) same inj_on_def)
  qed
  ultimately show ?thesis by blast
qed

lemma rounds_settle:
  assumes "strict_models env" and "settled 0 (db w)" and "supplied w"
  shows "n \<le> 10000 \<Longrightarrow> \<exists>w'. profile_rounds env n w = Inr ((), w') \<and> settled n (db w') \<and> supplied w'"
proof (induction n)
  case 0
  with assms show ?case by (simp add: tx_return_def)
next
  case (Suc n)
  then obtain w1 where "profile_rounds env n w = Inr ((), w1)" "settled n (db w1)" "supplied w1" by auto
  with round_settles [OF assms(1), of n w1] Suc.prems show ?case by (auto simp: tx_bind_def)
qed

section \<open>The assertions\<close>

text \<open>
  The read profile. On a new schema, in a transaction during which the clock does not run back or run
  through a whole lease, the hundred rounds all succeed, and the script's assertions hold: both reads give
  the same hundred jobs, with 101 statements row by row and 2 in a batch.
\<close>

lemma profile_assertions_hold:
  assumes strict: "strict_models env" and start: "db w = empty_db" "locked_jobs w = []" and ids: "inj (uuids w)"
    and clock: "\<And>m n. m \<le> n \<Longrightarrow> clk w m \<le> clk w n \<and> clk w n < clk w m + timedelta 10"
  shows "\<exists>w' report. profile_fill env w = Inr ((), w') \<and> length (jobs (db w')) = 100
    \<and> (\<forall>j \<in> set (jobs (db w')). j_status j = SUCCEEDED)
    \<and> fst (profile_read env False (db w')) = 101 \<and> fst (profile_read env True (db w')) = 2
    \<and> profile_main env elapsed w = Inr report"
proof -
  let ?w = "w\<lparr>db := (db w)\<lparr>workers := [profile_worker (tx_now w)]\<rparr>\<rparr>"
  have add: "add_profile_worker w = Inr ((), ?w)" using start by (simp add: add_profile_worker_def empty_db_def)
  have "settled 0 (db ?w)" "supplied ?w" using start ids clock by (auto simp: settled_def supplied_def empty_db_def)
  from rounds_settle [OF strict this, of 100] obtain w' where
    fill: "profile_rounds env 100 ?w = Inr ((), w')" and settled: "settled 100 (db w')" by auto
  have run: "profile_fill env w = Inr ((), w')" using add fill by (simp add: profile_fill_def tx_bind_def)
  have jobs: "length (jobs (db w')) = 100" using settled by (simp add: settled_def)
  then have counts: "fst (profile_read env False (db w')) = 101" "fst (profile_read env True (db w')) = 2"
    by (simp_all add: profile_read_def Let_def)
  have "\<exists>report. profile_main env elapsed w = Inr report"
    using run counts profile_outputs_equal [of env "db w'"] by (simp add: profile_main_def)
  with run jobs counts settled show ?thesis by (auto simp: settled_def)
qed

end
