(* ===== verification/Answers.thy ===== *)
theory Answers
  imports Routes Progress
begin

text \<open>
  The error responses of the coordinator against the table \<^verbatim>\<open>ERRORS\<close> that \<^verbatim>\<open>create_app\<close> publishes in the OpenAPI
  document. No request makes a route raise an exception that has no handler: on the tables the
  coordinators keep, none of the constraints of the database can be violated by an accepted request.
\<close>

section \<open>The documented errors\<close>

definition ERRORS :: "(nat \<times> string) list" where
  "ERRORS =
     [(401, ''Missing or invalid credentials''), (404, ''Unknown job or worker''),
      (409, ''Conflicting state (fenced, owned, not waiting)''), (413, ''Request body over 128 KiB''),
      (429, ''Admission limit; retry after Retry-After seconds''), (503, ''Database temporarily unavailable'')]"

text \<open>FastAPI documents 422 for every route with a body or parameters.\<close>

definition documented :: "nat \<Rightarrow> bool" where
  "documented st \<longleftrightarrow> st = 422 \<or> st \<in> fst ` set ERRORS"

section \<open>Transactions that raise only what is handled\<close>

definition handled :: "exn \<Rightarrow> bool" where
  "handled e \<longleftrightarrow> documented (fst (http_error e))"

definition raises_only :: "(exn \<Rightarrow> bool) \<Rightarrow> 'a dbtx \<Rightarrow> world \<Rightarrow> bool" where
  "raises_only P m w \<longleftrightarrow> (\<forall>e. m w = Inl e \<longrightarrow> P e)"

abbreviation answered :: "'a dbtx \<Rightarrow> world \<Rightarrow> bool" where
  "answered \<equiv> raises_only handled"

named_theorems raises_intros \<open>composition of transactions whose exceptions satisfy a predicate\<close>

lemma raises_steps [raises_intros]:
  "raises_only P (tx_return x) w" "raises_only P (tx_get f) w" "raises_only P (tx_modify g) w"
  "raises_only P database_time w" "raises_only P next_uuid w" "raises_only P next_random w"
  "raises_only P (update_job i fj) w" "raises_only P (update_attempt i fa) w" "raises_only P (update_worker n fw) w"
  "raises_only P (add_system_event kind wid det) w" "raises_only P (insert_worker v) w" "raises_only P jitter_factor w"
  by (simp_all add: raises_only_def tx_eval insert_worker_def jitter_factor_def)

lemma raises_raise [raises_intros]: "P e \<Longrightarrow> raises_only P (tx_raise e) w"
  by (simp add: raises_only_def tx_raise_def)

lemma raises_bind [raises_intros]:
  assumes "raises_only P m w" and "\<And>x w'. m w = Inr (x, w') \<Longrightarrow> raises_only P (k x) w'"
  shows "raises_only P (tx_bind m k) w"
  using assms by (auto simp: raises_only_def tx_bind_Inl)

lemma raises_cases [raises_intros]:
  "(b \<Longrightarrow> raises_only P m w) \<Longrightarrow> (\<not> b \<Longrightarrow> raises_only P n w) \<Longrightarrow> raises_only P (if b then m else n) w"
  "(y = None \<Longrightarrow> raises_only P m w) \<Longrightarrow> (\<And>x. y = Some x \<Longrightarrow> raises_only P (k x) w)
     \<Longrightarrow> raises_only P (case y of None \<Rightarrow> m | Some x \<Rightarrow> k x) w"
  "(\<And>e. z = Inl e \<Longrightarrow> raises_only P (h e) w) \<Longrightarrow> (\<And>x. z = Inr x \<Longrightarrow> raises_only P (k'' x) w)
     \<Longrightarrow> raises_only P (case z of Inl e \<Rightarrow> h e | Inr x \<Rightarrow> k'' x) w"
  "(\<And>x y. p = (x, y) \<Longrightarrow> raises_only P (l x y) w) \<Longrightarrow> raises_only P (case p of (x, y) \<Rightarrow> l x y) w"
  "raises_only P (k' v) w \<Longrightarrow> raises_only P (let x = v in k' x) w"
  by (simp_all split: option.split prod.split sum.split)

lemma raises_weaken: "raises_only P m w \<Longrightarrow> (\<And>e. P e \<Longrightarrow> Q e) \<Longrightarrow> raises_only Q m w"
  by (auto simp: raises_only_def)

lemma documented_statuses [simp]:
  "documented 401" "documented 404" "documented 409" "documented 422" "documented 429" "documented 503" "\<not> documented 500"
  by (simp_all add: documented_def ERRORS_def)

lemma handled_errors [simp]:
  "handled (Conflict m)" "handled (Missing m)" "handled (Saturated m)" "handled (HTTPException st det) \<longleftrightarrow> documented st"
  by (simp_all add: handled_def)

lemma answered_credentials [raises_intros]:
  "answered (client c auth) w" "answered (worker c auth) w" "answered (identity env n cred) w"
  unfolding client_def worker_def authorize_def identity_def Let_def
  by (intro raises_intros; simp)+

lemma answered_lookups [raises_intros]: "answered (get_job i) w" "answered (owned i n tok fin) w"
  unfolding get_job_def owned_def by (intro raises_intros; simp)+

lemma raises_transition:
  "j_id job \<in> j_id ` set (jobs (db w)) \<Longrightarrow> (\<And>m. P (Conflict m)) \<Longrightarrow> raises_only P (transition job st) w"
  by (simp add: raises_only_def transition_eval)

lemma raises_event: "i \<in> j_id ` set (jobs (db w)) \<Longrightarrow> raises_only P (add_event i st) w"
  by (simp add: raises_only_def add_event_def)

section \<open>The operations of the service\<close>

lemma owned_present:
  assumes "owned i n tok fin w = Inr ((job, att), w1)"
  shows "db w1 = db w \<and> j_id job \<in> j_id ` set (jobs (db w))"
  using assms owned_rows [OF assms] by (auto simp: owned_iff split: if_splits)

lemma answered_start: "answered (start i n tok) w"
  unfolding start_def
  by (intro raises_intros raises_transition; clarsimp simp: tx_simps row_simps dest!: owned_present)

lemma answered_renew: "answered (renew i n tok lease) w"
  unfolding renew_def Let_def by (intro raises_intros; simp)

lemma answered_cancel: "answered (cancel i) w"
  unfolding cancel_def
  by (intro raises_intros raises_transition; auto simp: tx_simps dest!: job_by_id_Some)

lemma answered_fail:
  assumes "j_id job \<in> j_id ` set (jobs (db w))" and "j_id job \<notin> r_job_id ` set (results (db w))"
  shows "answered (fail_attempt job att msg retryable oc) w"
  unfolding fail_attempt_def
  using assms
  by (intro raises_intros raises_transition)
    (auto simp: tx_simps row_simps raises_only_def insert_result_def Let_def jitter_factor_def split: if_splits)

lemma answered_finish:
  assumes inv: "db_inv (db w)"
  shows "answered (finish i n tok out err retryable) w"
proof -
  have none: "j_id job \<notin> r_job_id ` set (results (db w))"
    if "owned i n tok True w = Inr ((job, att), w1)" "j_status job = RUNNING" for job att w1
    using inv_parts(7) [OF inv] owned_rows(1) [OF that(1)] that(2) by (auto simp: results_ok_def)
  show ?thesis
    unfolding finish_def
  proof (rule raises_bind [OF answered_lookups(2)], goal_cases)
    case own: (1 x w1)
    obtain job att where x: "x = (job, att)" by (cases x)
    note here = owned_present [OF own [unfolded x]] and none = none [OF own [unfolded x]]
    have insert: "answered (insert_result \<lparr>r_job_id = j_id job, r_output = out, r_error = None\<rparr>) w2"
      if "j_status job = RUNNING" "jobs (db w2) = jobs (db w)" "results (db w2) = results (db w)" for w2
      using here none that by (simp add: raises_only_def insert_result_def Let_def)
    show ?case
      unfolding x prod.case
      by (intro raises_intros raises_transition insert answered_fail; clarsimp simp: tx_simps row_simps here none)
  qed
qed

lemma lease_returns:
  assumes inv: "db_inv (db w)" and v: "v \<in> set (workers (db w))" and slot: "slot_attempt (w_id v) slot (db w) = None"
    and policy: "scheduler policy = Inr query"
    and fresh: "uuids w 0 \<notin> a_id ` set (attempts (db w))" "c \<notin> a_claim_id ` set (attempts (db w))"
  shows "lease_job v slot (Some c) policy lease w \<noteq> Inl e"
proof (cases "w_state v = HEALTHY")
  case True
  show ?thesis
  proof (cases "first_unlocked (locked_jobs w) (query v (clk w 0) (db w))")
    case None
    with True policy show ?thesis by (simp add: lease_job_def tx_eval)
  next
    case (Some j)
    from lease_succeeds [OF inv v True policy Some slot fresh, of lease] show ?thesis by auto
  qed
qed (simp add: lease_job_def tx_eval)

text \<open>\<^verbatim>\<open>claim\<close> and \<^verbatim>\<open>admit\<close> raise value errors besides, which their routes turn into a 422.\<close>

abbreviation rejected_or_answered :: "'a dbtx \<Rightarrow> world \<Rightarrow> bool" where
  "rejected_or_answered \<equiv> raises_only (\<lambda>e. is_value_error e \<or> handled e)"

lemma raises_claim:
  assumes inv: "db_inv (db w)" and policy: "scheduler policy = Inr query"
    and fresh: "uuids w 0 \<notin> a_id ` set (attempts (db w))"
  shows "raises_only (\<lambda>e. (\<exists>m f. e = Invalid m f) \<or> handled e) (claim wid slot (Some c) policy lease) w"
proof -
  have lease: "raises_only P (lease_job v slot (Some c) policy lease) w"
    if "worker_by_id wid (db w) = Some v" "slot_attempt wid slot (db w) = None" "attempt_by_claim c (db w) = None" for v P
  proof -
    have "c \<notin> a_claim_id ` set (attempts (db w))" using that(3) by (auto simp: attempt_by_claim_def find_row_def find_None_iff)
    with lease_returns [OF inv _ _ policy fresh] worker_by_id_Some [OF that(1)] that(2)
    show ?thesis by (simp add: raises_only_def)
  qed
  note look = raises_weaken [OF answered_lookups(1)]
  show ?thesis
    unfolding claim_def by (intro raises_intros look; simp add: tx_get_def lease)
qed

lemma raises_check_parent: "rejected_or_answered (check_parent dep) w"
  by (cases dep) (auto simp: raises_only_def check_parent_def tx_eval split: option.splits)

lemma raises_admit:
  assumes strict: "strict_models env" and body: "Submit_accepted env s"
    and fresh: "uuids w 0 \<notin> j_id ` set (jobs (db w))"
  shows "rejected_or_answered (admit env s limit rate) w"
proof -
  have args: "is_value_error e" if "admit_args env (sub_task s) (sub_args s) = Inl e" for e
  proof -
    have "\<exists>t es. e' = ValidationError t es" if "model_validate env spec a = Inl e'" for spec a e'
      using strict that by (simp add: strict_models_def)
    with that show ?thesis
      by (fastforce simp: admit_args_def validate_def split: sum.splits exn.splits option.splits if_splits)
  qed
  have key: "sub_idempotency_key s = None \<or> sub_idempotency_key s \<notin> j_idempotency_key ` set (jobs (db w))"
    if "job_for_key (sub_idempotency_key s) (db w) = None"
    using that body by (auto simp: Submit_accepted_def Submit_fields_def job_for_key_def find_None_iff split: option.splits if_splits)
  have id: "j_id (new_job s args digest u t) = u" for args digest u t by (simp add: new_job_def)
  have insert: "raises_only P (insert_job (new_job s args digest (uuids w 0) t)) w1"
    if "job_for_key (sub_idempotency_key s) (db w) = None" "db w1 = db w" "check_parent (sub_depends_on s) w2 = Inr ((), w2)"
      "db w2 = db w" for P args digest t w1 w2
    using key [OF that(1)] fresh that(2,3,4)
    by (auto simp: raises_only_def insert_job_def Let_def new_job_def check_parent_iff split: option.splits dest!: job_by_id_Some)
  show ?thesis
    unfolding admit_def
    by (intro raises_intros raises_check_parent raises_event; auto simp: tx_simps args row_simps id intro!: insert)
qed

section \<open>The routes\<close>

text \<open>\<^verbatim>\<open>except\<close> clauses of the routes: an exception is passed on or replaced by a 422.\<close>

lemma answered_wrapped:
  assumes "\<And>e. m w = Inl e \<Longrightarrow> handled (h e)"
  shows "answered (\<lambda>w. case m w of Inl e \<Rightarrow> Inl (h e) | Inr r \<Rightarrow> Inr r) w"
  using assms by (auto simp: raises_only_def split: sum.splits)

lemma answered_submit:
  assumes "strict_models env" and "Submit_accepted env body" and "uuids w 0 \<notin> j_id ` set (jobs (db w))"
  shows "answered (submit_route env c auth body) w"
  unfolding submit_route_def
proof (intro raises_intros, goal_cases)
  case (1 x w')
  then have "w' = w" by (auto simp: client_def authorize_def tx_return_def tx_raise_def split: if_splits)
  with raises_admit [OF assms, of "cfg_queue_limit c" "cfg_submissions_per_minute c"]
  show ?case by (auto simp: raises_only_def split: sum.splits if_splits)
qed

lemma answered_claim_route:
  assumes "db_inv (db w)" and "scheduler (cfg_scheduler c) = Inr query" and "uuids w 0 \<notin> a_id ` set (attempts (db w))"
  shows "answered (claim_route env c auth body cred) w"
  unfolding claim_route_def
proof (intro raises_intros, goal_cases)
  case (1 x w1 v w2)
  then have "w2 = w" by (auto simp: worker_def authorize_def tx_return_def tx_raise_def identity_iff split: if_splits)
  with raises_claim [OF assms, of "cl_worker_id body" "cl_slot body" "cl_claim_id body" "cfg_lease_seconds c"]
  show ?case by (auto simp: raises_only_def split: sum.splits exn.splits)
qed

lemma answered_register: "answered (register_route env c auth body) w"
  unfolding register_route_def Let_def
  by (intro raises_intros; auto simp: tx_simps insert_worker_def new_worker_def worker_by_id_def
      worker_table.lookup_None_iff eq_commute [of None] split: if_splits)

lemma answered_routes:
  "answered (cancel_route c auth i) w" "answered (drain_route c auth n) w" "answered (heartbeat_route env c auth n cred) w"
  "answered (start_route env c auth i own cred) w" "answered (renew_route env c auth i own cred) w"
  unfolding cancel_route_def drain_route_def heartbeat_route_def start_route_def renew_route_def
  by (intro raises_intros answered_cancel answered_start answered_renew; simp)+

lemma answered_finish_route: "db_inv (db w) \<Longrightarrow> answered (finish_route env c auth i body cred) w"
  unfolding finish_route_def
  by (intro raises_intros answered_finish)
    (auto simp: worker_def authorize_def tx_return_def tx_raise_def identity_iff split: if_splits)

section \<open>Every error is documented\<close>

fun from_network :: "request \<Rightarrow> bool" where
  "from_network RecoverTx = False"
| "from_network DetectTx = False"
| "from_network r = True"

lemma answered_transact:
  assumes "strict_models env" and "Settings_fields c" and "db_inv (db w)" and "accepted env r" and "from_network r"
    and "uuids w 0 \<notin> j_id ` set (jobs (db w))" "uuids w 0 \<notin> a_id ` set (attempts (db w))"
  shows "answered (transact env c r) w"
proof -
  obtain query where "scheduler (cfg_scheduler c) = Inr query" using assms(2) by (rule scheduler_accepted)
  with assms show ?thesis
    by (cases r) (auto simp: effect_def intro!: raises_intros answered_submit answered_claim_route answered_register
        answered_routes answered_finish_route)
qed



end
