(* ===== verification/Tracing.thy ===== *)
theory Tracing
  imports Middleware
begin

text \<open>
  \<^verbatim>\<open>BoundRequests.__call__\<close> as a whole: the decision on the request, the call of the application with the stored
  messages, and the responses it sends through \<^verbatim>\<open>traced\<close>, which adds the headers and writes one log line for
  each response that starts. The application, Starlette's \<^verbatim>\<open>JSONResponse\<close> and the rounding of the duration
  are parameters.
\<close>

section \<open>The call\<close>

record request_scope = scope +
  sc_method :: string

datatype response_message = Response_start nat "(string \<times> string) list" | Response_body string bool

definition request_log :: "(rat \<Rightarrow> rat) \<Rightarrow> request_scope \<Rightarrow> string \<Rightarrow> nat \<Rightarrow> rat \<Rightarrow> json" where
  "request_log rounded sc request_id status elapsed =
     JObj [(''event'', JStr ''http_request''), (''request_id'', JStr request_id), (''method'', JStr (sc_method sc)),
       (''path'', JStr (sc_path sc)), (''status'', JInt (int status)), (''duration_ms'', JFloat (rounded (elapsed * 1000)))]"

text \<open>\<^verbatim>\<open>traced\<close>: what is sent and what is logged for a message the application sends at a time.\<close>

fun traced :: "(rat \<Rightarrow> rat) \<Rightarrow> request_scope \<Rightarrow> string \<Rightarrow> rat \<Rightarrow> rat \<times> response_message \<Rightarrow> response_message \<times> json list" where
  "traced rounded sc request_id started (now, Response_start status headers) =
     (Response_start status (headers @ added_headers (sc_path sc) request_id),
      [request_log rounded sc request_id status (now - started)])"
| "traced rounded sc request_id started (now, m) = (m, [])"

record exchange =
  ex_sent :: "response_message list"
  ex_logged :: "json list"

text \<open>
  \<open>app\<close> is the application: what it sends, and when, given the messages it receives first. \<open>None\<close>: still
  reading.
\<close>

definition bounded_call ::
    "(nat \<Rightarrow> json \<Rightarrow> response_message list) \<Rightarrow> (rat \<Rightarrow> rat) \<Rightarrow> (message_event list \<Rightarrow> (rat \<times> response_message) list)
      \<Rightarrow> bool \<Rightarrow> request_scope \<Rightarrow> string \<Rightarrow> rat \<Rightarrow> message_event list \<Rightarrow> exchange option" where
  "bounded_call json_response rounded app require_tls sc request_id started incoming =
     map_option (\<lambda>d. case d of
        Passthrough \<Rightarrow> \<lparr>ex_sent = map snd (app incoming), ex_logged = []\<rparr>
      | Reply st reason \<Rightarrow> \<lparr>ex_sent = json_response st (JObj [(''detail'', JStr reason)]), ex_logged = []\<rparr>
      | Dropped \<Rightarrow> \<lparr>ex_sent = [], ex_logged = []\<rparr>
      | Forward ms \<Rightarrow>
          (let sent = map (traced rounded sc request_id started) (app (map as_request ms)) in
           \<lparr>ex_sent = map fst sent, ex_logged = concat (map snd sent)\<rparr>))
       (bound_requests require_tls (scope.truncate sc) incoming)"

section \<open>What is sent and logged\<close>

definition hardened :: "string \<Rightarrow> response_message \<Rightarrow> bool" where
  "hardened path m = (case m of
     Response_start st hs \<Rightarrow> (''x-content-type-options'', ''nosniff'') \<in> set hs \<and> (''cache-control'', ''no-store'') \<in> set hs
       \<and> (\<exists>i. (''x-request-id'', i) \<in> set hs)
       \<and> (''content-security-policy'', if path = ''/docs'' \<or> path = ''/redoc'' then DOCS_POLICY else STRICT_POLICY) \<in> set hs
   | _ \<Rightarrow> True)"

definition starts :: "response_message list \<Rightarrow> nat list" where
  "starts ms = concat (map (\<lambda>m. case m of Response_start st hs \<Rightarrow> [st] | _ \<Rightarrow> []) ms)"

definition logged_status :: "json \<Rightarrow> json option" where
  "logged_status j = (case j of JObj kvs \<Rightarrow> map_of kvs ''status'' | _ \<Rightarrow> None)"

lemma traced_all:
  "starts (map (fst \<circ> traced rounded sc rid began) ms) = starts (map snd ms)"
  "map logged_status (concat (map (snd \<circ> traced rounded sc rid began) ms)) = map (\<lambda>st. Some (JInt (int st))) (starts (map snd ms))"
  "\<forall>m \<in> set ms. hardened (sc_path sc) (fst (traced rounded sc rid began m))"
proof -
  have one: "starts [fst (traced rounded sc rid began m)] = starts [snd m]"
    "map logged_status (snd (traced rounded sc rid began m)) = map (\<lambda>st. Some (JInt (int st))) (starts [snd m])"
    "hardened (sc_path sc) (fst (traced rounded sc rid began m))" for m
    by (cases m; cases "snd m"; auto simp: starts_def hardened_def added_headers_def request_log_def logged_status_def)+
  show "starts (map (fst \<circ> traced rounded sc rid began) ms) = starts (map snd ms)"
    using one(1) by (induction ms) (simp_all add: starts_def)
  show "map logged_status (concat (map (snd \<circ> traced rounded sc rid began) ms)) = map (\<lambda>st. Some (JInt (int st))) (starts (map snd ms))"
    using one(2) by (induction ms) (simp_all add: starts_def)
  show "\<forall>m \<in> set ms. hardened (sc_path sc) (fst (traced rounded sc rid began m))" using one(3) by blast
qed

text \<open>
  The responses of the application go out with the security headers and one log line each, which names the
  status that was sent. The middleware's own refusals (408, 413, 426) go out as they are, without these
  headers and without a log line.
\<close>

lemma responses_traced:
  assumes "bounded_call json_response rounded app require_tls sc rid began incoming = Some ex" and "sc_type sc = ''http''"
  shows "(\<exists>st reason. st \<in> {408, 413, 426} \<and> ex_sent ex = json_response st (JObj [(''detail'', JStr reason)]) \<and> ex_logged ex = [])
    \<or> map logged_status (ex_logged ex) = map (\<lambda>st. Some (JInt (int st))) (starts (ex_sent ex))
      \<and> (\<forall>m \<in> set (ex_sent ex). hardened (sc_path sc) m)"
proof -
  have refusal: "st \<in> {408, 413}" if "read_body got seen ms = Some (Reply st reason)" for got seen ms st reason
    using that by (induction got seen ms rule: read_body.induct) (auto split: if_splits)
  have decides: "read_body got seen ms \<noteq> Some Passthrough" for got seen ms
    by (induction got seen ms rule: read_body.induct) auto
  obtain d where d: "bound_requests require_tls (scope.truncate sc) incoming = Some d"
    using assms(1) by (auto simp: bounded_call_def)
  have http: "sc_type (scope.truncate sc) = ''http''" using assms(2) by (simp add: scope.truncate_def)
  show ?thesis
  proof (cases d)
    case (Reply st reason)
    then have "st \<in> {408, 413, 426}" using d http by (auto simp: bound_requests_def split: if_splits dest: refusal)
    moreover have "ex_sent ex = json_response st (JObj [(''detail'', JStr reason)])" "ex_logged ex = []"
      using Reply assms(1) d by (auto simp: bounded_call_def)
    ultimately show ?thesis by blast
  next
    case Dropped
    with assms(1) d show ?thesis by (auto simp: bounded_call_def starts_def)
  next
    case (Forward ms)
    with assms(1) d have "ex_sent ex = map (fst \<circ> traced rounded sc rid began) (app (map as_request ms))"
      "ex_logged ex = concat (map (snd \<circ> traced rounded sc rid began) (app (map as_request ms)))"
      by (auto simp: bounded_call_def Let_def)
    then show ?thesis using traced_all [where ms = "app (map as_request ms)" and rounded = rounded and sc = sc and rid = rid and began = began] by auto
  next
    case Passthrough
    with d http show ?thesis by (auto simp: bound_requests_def decides split: if_splits)
  qed
qed

end
