(* ===== verification/Startup.thy ===== *)
theory Startup
  imports Maintenance Supervision Setup Cluster Migrations
begin

text \<open>
  How the processes begin and end: the engine of \<^verbatim>\<open>db.py\<close>, the lifespan of the coordinator in \<^verbatim>\<open>api.py\<close>, \<^verbatim>\<open>run\<close>
  and \<^verbatim>\<open>main\<close> of \<^verbatim>\<open>worker.py\<close>, and the migration run of \<^verbatim>\<open>migrations/env.py\<close>.
\<close>

section \<open>Engines\<close>

text \<open>\<^verbatim>\<open>make_url\<close> is SQLAlchemy's; \<open>query_options\<close> are the \<^verbatim>\<open>options\<close> of the URL it returns.\<close>

record engine_config =
  ec_url :: string
  ec_options :: string
  ec_pool_pre_ping :: bool
  ec_pool_size :: nat
  ec_max_overflow :: nat
  ec_pool_timeout :: seconds
  ec_connect_timeout :: seconds
  ec_hide_parameters :: bool
  ec_expire_on_commit :: bool

definition make_sessions ::
    "(string \<Rightarrow> url_options option) \<Rightarrow> string option \<Rightarrow> settings option \<Rightarrow> engine_config option" where
  "make_sessions query_options url loaded =
     (let chosen = (if url = None \<or> url = Some [] then map_option cfg_database_url loaded else url) in
      map_option (\<lambda>u. \<lparr>ec_url = u, ec_options = session_options (query_options u), ec_pool_pre_ping = True,
        ec_pool_size = 10, ec_max_overflow = 10, ec_pool_timeout = 5, ec_connect_timeout = 3,
        ec_hide_parameters = True, ec_expire_on_commit = False\<rparr>) chosen)"

section \<open>The coordinator\<close>

text \<open>
  \<^verbatim>\<open>lifespan\<close>: the maintenance task runs while the application serves; at the end \<^verbatim>\<open>stop\<close> is set, the task is
  awaited, and the engine is disposed of unless awaiting raised the task's exception.
\<close>

datatype app_end = Serving | Disposed | Undisposed exn

definition lifespan :: "settings \<Rightarrow> sweep list \<Rightarrow> world \<Rightarrow> app_end \<times> world" where
  "lifespan c ss w =
     (case maintain c ss w of
        (Sweeping, ls, w') \<Rightarrow> (Serving, w')
      | (Stopped, ls, w') \<Rightarrow> (Disposed, w')
      | (Died e, ls, w') \<Rightarrow> (Undisposed e, w'))"

section \<open>The worker\<close>

definition client_headers :: "worker_settings \<Rightarrow> string \<Rightarrow> (string \<times> string) list" where
  "client_headers config credential =
     [(''Authorization'', ''Bearer '' @ ws_worker_token config), (''X-Worker-Session'', credential)]"

text \<open>
  \<^verbatim>\<open>run\<close>: the registration, then the executor, then the supervised tasks, which end as \<open>process_end\<close> says.
  With the result: whether an executor was created, and whether it was closed.
\<close>

datatype run_error = Registration_refused nat | No_such_key string | Task_error worker_error

definition worker_run :: "post_outcome \<Rightarrow> (worker_error + unit) \<times> bool \<Rightarrow> (run_error + unit) \<times> bool \<times> bool" where
  "worker_run registration ending =
     (case registration of
        StatusError st \<Rightarrow> (Inl (Registration_refused st), False, False)
      | Answer body \<Rightarrow>
          if \<not> has_key ''lease_seconds'' body then (Inl (No_such_key ''lease_seconds''), False, False)
          else if \<not> has_key ''heartbeat_interval'' body then (Inl (No_such_key ''heartbeat_interval''), False, False)
          else (case ending of
             (Inl e, shut) \<Rightarrow> (Inl (Task_error e), True, shut)
           | (Inr _, shut) \<Rightarrow> (Inr (), True, shut)))"

text \<open>\<^verbatim>\<open>main\<close>: a keyboard interrupt ends the program quietly; any other exception leaves it.\<close>

definition worker_main :: "bool \<Rightarrow> run_error + unit \<Rightarrow> run_error + unit" where
  "worker_main interrupted result = (if interrupted then Inr () else result)"

section \<open>Migrations\<close>

definition migration_url :: "environ \<Rightarrow> settings option \<Rightarrow> string option" where
  "migration_url env loaded =
     (case env ''DATABASE_URL'' of
        Some url \<Rightarrow> if url \<noteq> [] then Some url else map_option cfg_database_url loaded
      | None \<Rightarrow> map_option cfg_database_url loaded)"

text \<open>
  The connection: the statement that bounds the waits for locks, its commit, and the transaction in which
  all pending revisions run.
\<close>

record migration_run =
  mr_lock_timeout :: "string option"
  mr_catalog :: catalog
  mr_disposed :: bool

definition run_pending :: "mig list \<Rightarrow> catalog \<Rightarrow> (mig_error + unit) \<times> migration_run" where
  "run_pending pending cat =
     (case run_ops pending cat of
        Inl e \<Rightarrow> (Inl e, \<lparr>mr_lock_timeout = Some ''10s'', mr_catalog = cat, mr_disposed = False\<rparr>)
      | Inr cat' \<Rightarrow> (Inr (), \<lparr>mr_lock_timeout = Some ''10s'', mr_catalog = cat', mr_disposed = True\<rparr>))"

section \<open>Lemmas\<close>

text \<open>Whatever the URL says, the engine hides parameters and bounds its waits; options of the URL come last.\<close>

lemma engine_bounds:
  assumes "make_sessions query_options url loaded = Some ec"
  shows "ec_hide_parameters ec \<and> ec_pool_size ec + ec_max_overflow ec = 20
    \<and> ec_options ec = strip (TIMEOUTS @ [CHR '' ''] @ existing_options (query_options (ec_url ec)))
    \<and> (url \<noteq> None \<and> url \<noteq> Some [] \<longrightarrow> url = Some (ec_url ec))"
  using assms by (auto simp: make_sessions_def Let_def session_options_def split: if_splits)

text \<open>On reachable databases the coordinator always disposes of its engine once it is asked to stop.\<close>

lemma maintain_survives:
  assumes "\<forall>s \<in> set ss. sweep_ok env c s" and "reachable env c (db w)"
  shows "fst (maintain c ss w) = (if \<exists>s \<in> set ss. sw_stop s then Stopped else Sweeping)"
  using assms
proof (induction ss arbitrary: w)
  case (Cons s ss)
  show ?case
  proof (cases "sw_stop s")
    case False
    have "sweep_ok env c s" "world_ok env c (sw_begin s w)" using Cons.prems by (auto simp: sweep_ok_def)
    then show ?thesis
    proof (cases rule: tick_sweep_cases)
      case (up w1)
      with Cons.IH [of w1] Cons.prems False show ?thesis by simp
    next
      case (down e w1)
      with Cons.IH [of w1] Cons.prems False show ?thesis by (cases "maintain c ss w1") auto
    qed
  qed simp
qed simp

lemma shutdown_disposes:
  assumes "\<forall>s \<in> set ss. sweep_ok env c s" and "reachable env c (db w)" and "\<exists>s \<in> set ss. sw_stop s"
  shows "fst (lifespan c ss w) = Disposed"
  using maintain_survives [OF assms(1,2)] assms(3) by (cases "maintain c ss w") (auto simp: lifespan_def)

text \<open>The credentials a worker sends are the ones the coordinator of the same installation asks for.\<close>

lemma headers_accepted:
  assumes "ws_worker_token config = ws_worker_token c"
  shows "worker c (map_of (client_headers config credential) ''Authorization'') w = Inr ((), w)"
  using assms by (simp add: client_headers_def worker_def authorize_def tx_return_def)

text \<open>A worker that could not register leaves no executor behind; one that ran normally has closed it.\<close>

lemma worker_run_executor:
  assumes "worker_run registration (supervise beat slots) = (result, created, shut)"
  shows "(result = Inr () \<longrightarrow> created \<and> shut) \<and> (\<not> created \<longrightarrow> (\<forall>e. result \<noteq> Inl (Task_error e)) \<and> \<not> shut)"
  using assms
  by (auto simp: worker_run_def supervise_def Let_def split: post_outcome.splits if_splits sum.splits prod.splits option.splits)

text \<open>A migration run is all or nothing, over all revisions together.\<close>

lemma run_pending_atomic:
  "run_pending pending cat = (Inl e, s) \<Longrightarrow> mr_catalog s = cat"
  "run_pending pending cat = (Inr (), s) \<Longrightarrow> run_ops pending cat = Inr (mr_catalog s) \<and> mr_disposed s"
  by (auto simp: run_pending_def split: sum.splits)

end
