(* ===== verification/Responses.thy ===== *)
theory Responses
  imports Startup Draining Composition Observability
begin

text \<open>
  The response models of \<^verbatim>\<open>protocol.py\<close> as the JSON objects that travel, and what the worker reads of them:
  \<^verbatim>\<open>consume\<close>, \<^verbatim>\<open>heartbeat\<close> and \<^verbatim>\<open>run\<close> of \<^verbatim>\<open>worker.py\<close> and \<^verbatim>\<open>invoke\<close> of \<^verbatim>\<open>executors.py\<close> find in them exactly what the
  coordinator put there. The text of a timestamp, \<open>stamp\<close>, is pydantic's.
\<close>

section \<open>The models\<close>

definition or_null :: "('a \<Rightarrow> json) \<Rightarrow> 'a option \<Rightarrow> json" where
  "or_null f x = (case x of None \<Rightarrow> JNull | Some y \<Rightarrow> f y)"

definition JobOut :: "job_out \<Rightarrow> json" where
  "JobOut j = JObj
     [(''id'', JStr (jo_id j)), (''task'', JStr (jo_task j)), (''args'', jo_args j), (''status'', JStr (jo_status j)),
      (''priority'', JInt (jo_priority j)), (''timeout'', JFloat (jo_timeout j)), (''max_retries'', JInt (jo_max_retries j)),
      (''attempt_count'', JInt (jo_attempt_count j)), (''metadata'', jo_metadata j),
      (''available_at'', JStr (jo_available_at j)), (''depends_on'', or_null JStr (jo_depends_on j)),
      (''created_at'', JStr (jo_created_at j)), (''updated_at'', JStr (jo_updated_at j)),
      (''result'', or_null id (jo_result j)), (''error'', or_null JStr (jo_error j))]"

fun outcome_name :: "attempt_outcome \<Rightarrow> string" where
  "outcome_name OutSucceeded = ''SUCCEEDED''"
| "outcome_name OutFailed = ''FAILED''"
| "outcome_name OutLeaseExpired = ''LEASE_EXPIRED''"

definition AttemptOut :: "(timestamp \<Rightarrow> string) \<Rightarrow> attempt_out \<Rightarrow> json" where
  "AttemptOut stamp a = JObj
     [(''id'', JStr (ao_id a)), (''worker_id'', JStr (ao_worker_id a)), (''fence'', JInt (ao_fence a)),
      (''outcome'', or_null (JStr \<circ> outcome_name) (ao_outcome a)), (''error'', or_null JStr (ao_error a)),
      (''output'', or_null id (ao_output a)), (''created_at'', JStr (stamp (ao_created_at a))),
      (''started_at'', or_null (JStr \<circ> stamp) (ao_started_at a)), (''finished_at'', or_null (JStr \<circ> stamp) (ao_finished_at a)),
      (''expires_at'', JStr (stamp (ao_expires_at a)))]"

text \<open>A float field turns the integer 0 of \<^verbatim>\<open>max(0, ...)\<close> into 0.0.\<close>

definition as_float :: "json \<Rightarrow> json" where
  "as_float j = (case j of JInt i \<Rightarrow> JFloat (of_int i) | _ \<Rightarrow> j)"

definition WorkerOut :: "worker_out \<Rightarrow> json" where
  "WorkerOut v = JObj
     [(''id'', JStr (wo_id v)), (''state'', JStr (worker_state_name (wo_state v))), (''capacity'', JInt (wo_capacity v)),
      (''running'', JInt (int (wo_running v))), (''capabilities'', JArr (map JStr (wo_capabilities v))),
      (''last_seen'', JStr (wo_last_seen v)), (''heartbeat_age_seconds'', as_float (wo_heartbeat_age_seconds v))]"

definition AssignmentOut :: "(timestamp \<Rightarrow> string) \<Rightarrow> assignment_out option \<Rightarrow> json" where
  "AssignmentOut stamp asg = or_null (\<lambda>a. JObj
     [(''job'', JobOut (out_job a)), (''token'', JStr (out_token a)), (''fence'', JInt (out_fence a)),
      (''expires_at'', JStr (stamp (out_expires_at a)))]) asg"

definition RegisteredOut :: "registered_out \<Rightarrow> json" where
  "RegisteredOut r = JObj
     [(''worker_id'', JStr (ro_worker_id r)), (''lease_seconds'', JFloat (ro_lease_seconds r)),
      (''heartbeat_interval'', JFloat (ro_heartbeat_interval r))]"

definition RenewedOut :: "(timestamp \<Rightarrow> string) \<Rightarrow> timestamp \<Rightarrow> json" where
  "RenewedOut stamp t = JObj [(''expires_at'', JStr (stamp t))]"

definition StateOut :: "worker_state \<Rightarrow> json" where
  "StateOut s = JObj [(''state'', JStr (worker_state_name s))]"

definition StatusOut :: "string \<Rightarrow> json" where
  "StatusOut s = JObj [(''status'', JStr s)]"

definition ErrorOut :: "string \<Rightarrow> json" where
  "ErrorOut msg = JObj [(''detail'', JStr msg)]"

section \<open>What the worker reads\<close>

text \<open>\<^verbatim>\<open>job["task"]\<close>, \<^verbatim>\<open>job["args"]\<close>, \<^verbatim>\<open>job.get("attempt_count", 1)\<close>, \<^verbatim>\<open>job["timeout"]\<close>; \<open>None\<close>: a key is missing or has another type.\<close>

definition read_exec_job :: "json \<Rightarrow> exec_job option" where
  "read_exec_job j = (case j of
     JObj kvs \<Rightarrow>
       (case (map_of kvs ''task'', map_of kvs ''args'', map_of kvs ''timeout'') of
          (Some (JStr task), Some args, Some (JFloat timeout)) \<Rightarrow>
            (case map_of kvs ''attempt_count'' of
               None \<Rightarrow> Some \<lparr>ej_task = task, ej_args = args, ej_attempt_count = None, ej_timeout = timeout\<rparr>
             | Some (JInt n) \<Rightarrow> Some \<lparr>ej_task = task, ej_args = args, ej_attempt_count = Some n, ej_timeout = timeout\<rparr>
             | _ \<Rightarrow> None)
        | _ \<Rightarrow> None)
   | _ \<Rightarrow> None)"

text \<open>
  \<^verbatim>\<open>consume\<close>: nothing assigned, or the job to execute with the job id of the paths, the token of the ownership
  and the fence of the log lines.
\<close>

definition read_assignment :: "json \<Rightarrow> (json \<times> string \<times> string \<times> int) option option" where
  "read_assignment j = (case j of
     JNull \<Rightarrow> Some None
   | JObj kvs \<Rightarrow>
       (case (map_of kvs ''job'', map_of kvs ''token'', map_of kvs ''fence'') of
          (Some (JObj job), Some (JStr token), Some (JInt fence)) \<Rightarrow>
            (case map_of job ''id'' of Some (JStr i) \<Rightarrow> Some (Some (JObj job, i, token, fence)) | _ \<Rightarrow> None)
        | _ \<Rightarrow> None)
   | _ \<Rightarrow> None)"

section \<open>Nothing is lost on the way\<close>

lemma exec_job_roundtrip: "read_exec_job (JobOut j) = Some (exec_of j)"
  by (simp add: read_exec_job_def JobOut_def exec_of_def)

lemma assignment_roundtrip:
  "read_assignment (AssignmentOut stamp asg)
     = Some (map_option (\<lambda>a. (JobOut (out_job a), jo_id (out_job a), out_token a, out_fence a)) asg)"
  by (cases asg) (simp_all add: read_assignment_def AssignmentOut_def or_null_def JobOut_def)

text \<open>
  From the claim to the executor: what the worker executes, under which job and token, is what the coordinator
  leased to it.
\<close>

lemma claimed_is_executed:
  assumes inv: "db_inv (db w)" and run: "claim_route env c auth body cred w = Inr (Some asg, w1)"
  shows "\<exists>job a fence out. holds a job (db w1) \<and> a_worker_id a = cl_worker_id body
    \<and> read_assignment (AssignmentOut stamp (Some asg)) = Some (Some (out, uuid_text (j_id job), uuid_text (a_id a), fence))
    \<and> read_exec_job out = Some \<lparr>ej_task = j_task job, ej_args = j_args job,
        ej_attempt_count = Some (j_attempt_count job), ej_timeout = j_timeout job\<rparr>"
proof -
  obtain job a v where held: "holds a job (db w1)" "db_inv (db w1)" "a_worker_id a = cl_worker_id body"
    and asg: "out_job asg = serialize env (db w1) None job" "out_token asg = uuid_text (a_id a)"
    by (rule claim_route_holds [OF inv run])
  have "read_exec_job (JobOut (out_job asg)) = Some \<lparr>ej_task = j_task job, ej_args = j_args job,
      ej_attempt_count = Some (j_attempt_count job), ej_timeout = j_timeout job\<rparr>"
    by (simp add: exec_job_roundtrip exec_of_def asg serialize_def serialize_with_def)
  moreover have "jo_id (out_job asg) = uuid_text (j_id job)" by (simp add: asg serialize_def serialize_with_def)
  ultimately show ?thesis using held asg(2) by (auto simp: assignment_roundtrip)
qed

text \<open>A registration that is answered never stops the worker for a missing key, and a heartbeat reads the state it was sent.\<close>

lemma registration_read: "worker_run (Answer (RegisteredOut r)) ending \<noteq> (Inl (No_such_key k), created, shut)"
  by (auto simp: worker_run_def RegisteredOut_def has_key_def split: prod.splits sum.splits)

lemma heartbeat_read: "Answer (StateOut s) = heartbeat_reply s"
  by (simp add: StateOut_def heartbeat_reply_def)

end
