(* ===== verification/Spec2Isabelle.thy ===== *)
theory Spec2Isabelle
  imports Guarantees Contracts Fleet Observability Executors Middleware Worker Migrations
    Queue_Spec Maintenance Routes Pools Composition Supervision Draining Client Setup Harness Bench Sink
    Locking Dashboard_Check Cluster Delivery Benchmark
    Progress Profile Answers Tracing Responses
begin

text \<open>
  GreyQueue is a durable job queue: clients submit jobs to coordinators over HTTP, the coordinators
  keep everything in PostgreSQL, and worker processes claim jobs under time-limited, fenced leases,
  execute them and report the results. This library models the program under \<^verbatim>\<open>src/greyqueue\<close>,
  \<^verbatim>\<open>src/migrations\<close> and the logic of \<^verbatim>\<open>src/scripts\<close> and \<^verbatim>\<open>src/benchmarks\<close>, and proves what makes it correct.

  \<^bold>\<open>Parts and their theories.\<close>

  \<^item> \<open>Prelude\<close>: exceptions as data, transactions as fallible state transformers
    (\<open>tx\<close>: an exception abandons the state), the keyed tables (\<open>keyed_rows\<close>) and the interface of
    systems with an invariant (\<open>invariant_system\<close>). \<open>Json\<close>: JSON values, Python's encoder, and
    \<^verbatim>\<open>protocol.storable\<close>.
  \<^item> \<open>Tasks\<close> (\<^verbatim>\<open>tasks.py\<close>), \<open>Protocol\<close> (\<^verbatim>\<open>protocol.py\<close>, \<^verbatim>\<open>config.py\<close>): the task registry and the bounds
    the request models and the settings put on what enters the system.
  \<^item> \<open>Models\<close> (\<^verbatim>\<open>models.py\<close>): one record per table, the database as their lists, inserts and
    updates with the key, unique-index and foreign-key violations PostgreSQL answers. \<open>Scheduler\<close>
    (\<^verbatim>\<open>scheduler.py\<close>, \<^verbatim>\<open>sql.py\<close>): the three policies as ordered queries behind the interface
    \<open>scheduling_policy\<close>.
  \<^item> \<open>Service\<close> (\<^verbatim>\<open>service.py\<close>): \<^verbatim>\<open>admit\<close>, \<^verbatim>\<open>claim\<close>, \<^verbatim>\<open>start\<close>, \<^verbatim>\<open>renew\<close>, \<^verbatim>\<open>finish\<close>, \<^verbatim>\<open>fail_attempt\<close>, \<^verbatim>\<open>cancel\<close>,
    \<^verbatim>\<open>serialize\<close> and their helpers, branch by branch. \<open>Recovery\<close> (\<^verbatim>\<open>recovery.py\<close>): the maintenance
    sweep; \<open>Maintenance\<close>: the loop \<^verbatim>\<open>maintain\<close> that repeats it through outages. \<open>Api\<close> (\<^verbatim>\<open>api.py\<close>):
    credentials, worker sessions, the job and worker routes, the exception handlers; \<open>Routes\<close>: the
    read-only routes, driver errors, static files and the OpenAPI document. \<open>Observability\<close>
    (\<^verbatim>\<open>observability.py\<close>): metrics.
  \<^item> \<open>Lifecycle\<close>: the abstract contract of the tables, a step relation \<open>db_step\<close> with the
    invariant \<open>db_inv\<close>. \<open>Refinement\<close>, and the refinement lemmas of \<open>Recovery\<close>, \<open>Api\<close> and
    \<open>System\<close>, show that each operation of the program runs along these steps.
    \<open>System\<close>: all requests and maintenance transactions as one relation \<open>coordinator_step\<close>
    and the databases \<open>reachable\<close> by it. \<open>Queue_Spec\<close>: the queue a client sees, statuses that move
    along \<open>job_move\<close>, implemented by the tables and by the coordinators (interface
    \<open>simulation\<close>). \<open>Scenario\<close>: a concrete run, evaluated.
  \<^item> \<open>Executors\<close> (\<^verbatim>\<open>executors.py\<close>), \<open>Worker\<close> (\<^verbatim>\<open>worker.py\<close>), \<open>Middleware\<close> (\<^verbatim>\<open>middleware.py\<close>): the
    worker process and the request filter, as functions of what the event loop, the operating
    system and the network deliver. \<open>Pools\<close>: the warm-up of the process pool and the environments of task
    processes. \<open>Supervision\<close>: the tasks of the worker process interleaved, as a
    step relation \<open>proc_step\<close>, and how the process ends; \<open>Draining\<close>: a drain request from the client's
    call to the end of the process. \<open>Composition\<close>: a round of the worker run
    against the coordinator's routes on the tables. \<open>Delivery\<close>: any number of slots of any number of workers, and the
    coordinators, as one transition system \<open>deploy_step\<close> with lost answers, dropped slots and expiring leases.
    \<open>Tracing\<close>: the whole call of the middleware, with its headers and log lines. \<open>Progress\<close>: when a claim is served.
    \<open>Answers\<close>: the table of documented errors and the exceptions of the routes. \<open>Startup\<close>: the engine (\<^verbatim>\<open>db.py\<close>), the
    lifespan of the coordinator, the beginning and end of a worker, and the migration run (\<^verbatim>\<open>migrations/env.py\<close>).
    \<open>Responses\<close>: the response models of \<^verbatim>\<open>protocol.py\<close> as JSON and what the worker reads of them.
  \<^item> \<open>Frames\<close>: the operations keep what is true of the rows they do not touch (\<open>preserves\<close>), as the interfaces
    \<open>job_frame\<close>, \<open>admission_frame\<close>, \<open>completion_frame\<close> and \<open>fleet_frame\<close>, which \<open>Draining\<close> and \<open>Delivery\<close> interpret.
  \<^item> \<open>Client\<close> (\<^verbatim>\<open>cli.py\<close>), \<open>Setup\<close> (\<^verbatim>\<open>scripts/configure.py\<close>, \<^verbatim>\<open>scripts/local_db.py\<close>, \<^verbatim>\<open>db.py\<close>), \<open>Harness\<close>
    (polling and assertions of \<^verbatim>\<open>scripts/harness.py\<close>, \<^verbatim>\<open>check_compose.py\<close>, \<^verbatim>\<open>experiments.py\<close>,
    \<^verbatim>\<open>profile_reads.py\<close>), \<open>Bench\<close> (\<^verbatim>\<open>benchmarks/run.py\<close>), \<open>Sink\<close> (\<^verbatim>\<open>scripts/side_effects.py\<close>): the
    programs around the system. \<open>Live\<close>: scripts that drive a deployment, as programs that act and are
    answered, the deployment being an arbitrary function of the exchange so far; \<open>Experiments\<close>
    (\<^verbatim>\<open>scripts/experiments.py\<close>) and \<open>Checks\<close> (\<^verbatim>\<open>scripts/check_compose.py\<close>, the rounds of
    \<^verbatim>\<open>scripts/side_effects.py\<close>) and \<open>Dashboard_Check\<close> (\<^verbatim>\<open>scripts/check_dashboard.py\<close>) are such programs. \<open>Cluster\<close>: settings read from an environment
    (\<^verbatim>\<open>config.py\<close>) and the \<^verbatim>\<open>Cluster\<close> of \<^verbatim>\<open>scripts/harness.py\<close> with its process tree. \<open>Measurement\<close>: the samples,
    the wait and the report of \<^verbatim>\<open>benchmarks/run.py\<close>; \<open>Benchmark\<close>: its \<^verbatim>\<open>main\<close>. \<open>Profile\<close>: the transaction and the reads
    of \<^verbatim>\<open>scripts/profile_reads.py\<close>.
  \<^item> \<open>Snapshots\<close>, \<open>Skipping\<close>, \<open>Locking\<close>: transactions under row locks. \<open>Snapshots\<close>: the requests on one job
    depend on and change only the rows of that job and its worker, so what they write can be computed on
    the rows read under the locks (\<open>local_tx\<close>) and published at the commit (\<open>publish\<close>). \<open>Skipping\<close>: claims,
    sweeps, admission and the worker routes leave alone the rows others have locked (\<open>spares\<close>). \<open>Locking\<close>: the
    step relation \<open>lock_step\<close> that interleaves opening, locking, committing, failing and losing
    transactions.
  \<^item> \<open>Migrations\<close> (\<^verbatim>\<open>migrations/versions\<close>): the four schema revisions, upgrades and downgrades, as
    programs over a catalogue and its rows.

  \<^bold>\<open>What is shown.\<close> \<open>Guarantees\<close>: of every reachable database and every run (the invariant,
  finality of terminal jobs, a single success and a single owner per job, the event log, the retry
  budget, dependencies). \<open>Contracts\<close>: of the operations (fencing, renewal, backoff, replay of
  completions and claims, scheduling order, admission). \<open>Fleet\<close>: recovery returns, clears expired
  leases and cancels blocked jobs; failure detection; credentials and sessions; the metrics
  and job pages agree with the tables. \<open>Tasks\<close>, \<open>Executors\<close>, \<open>Worker\<close>, \<open>Middleware\<close>: validation,
  reports, retries and bounds outside the database. \<open>Migrations\<close>: the revisions build
  the schema of the models and are undone by their downgrades. \<open>Queue_Spec\<close>: refinement of the
  abstract queue and a bound on the moves of a job. \<open>Maintenance\<close>: the loop survives outages and
  never dies of a sweep. \<open>Routes\<close>: the documented credentials are the enforced ones; reads write
  nothing. \<open>Composition\<close>: claim, start, execution and finish together end in the stored result.
  \<open>Delivery\<close>: with many workers, every stored output was computed by the task of its job, and no job has two
  live executions. \<open>Progress\<close>: a claim of a healthy worker is served exactly when a job is eligible. \<open>Answers\<close>: every
  error response is a documented one, never a 500. \<open>Tracing\<close>: responses carry the headers and are logged once.
  \<open>Startup\<close>: shutdown disposes of the engine; a refused registration leaves no executor; migrations are all or nothing.
  \<open>Responses\<close>: what the worker executes is what the coordinator leased.
  \<open>Pools\<close>: the warm-up ends with every process running. \<open>Supervision\<close>, \<open>Draining\<close>: a drained worker stops, and a process ends normally exactly when nothing
  failed.
  \<open>Client\<close>: re-running a submission is safe. \<open>Setup\<close>: configuration only adds, once; options of the URL
  win. \<open>Locking\<close>: interleaved transactions commit and answer as serial ones, and never deadlock.
  \<open>Experiments\<close>: evidence is written only after every assertion held. \<open>Cluster\<close>: the environments of the scripts
  are accepted settings, and a cluster leaves nothing behind. \<open>Measurement\<close>: the benchmark reports exactly when
  every job succeeded. \<open>Benchmark\<close>: results only after every case was measured. \<open>Profile\<close>: the assertions of the read
  profile hold. \<open>Harness\<close>: waiting ends, and what was seen completed stays completed. \<open>Bench\<close>: percentiles lie
  between the samples. \<open>Sink\<close>: effects once with receipts, once per execution without.

  \<^bold>\<open>How state is modelled.\<close> A transaction runs on a \<open>world\<close>: the tables, and what the outside
  supplies, namely the successive readings of the database clock, fresh UUIDs, random numbers,
  the rows other transactions have locked (which \<^verbatim>\<open>SKIP LOCKED\<close> leaves out), whether the advisory
  lock of recovery is taken, and the order in which PostgreSQL returns unordered rows. The theorems
  hold for every such supply. A run is a
  sequence of whole transactions in any order. \<open>Locking\<close> justifies this: starts, renewals, completions
  and cancellations are interleaved there lock by lock, and what they commit and answer is what some
  such sequence commits and answers. Claims, admissions, sweeps and the routes of workers stay single
  steps there, which find the locked rows locked; an exception rolls back to the
  state before. Times are microseconds since the epoch, and durations rationals of seconds. Floating-point
  arithmetic is over rationals with rounding as a parameter where it is observable (\<open>float_of\<close>,
  \<open>float_sum\<close>). Characters are code points below 256.

  \<^bold>\<open>Parameters\<close> stand for code outside the repository: SHA-256, the text of floats and timestamps,
  pydantic's validation of declared fields, the JSON decoder, PostgreSQL's aggregates, constraint
  names and defaults. Loops are structural recursions over what is delivered (messages, replies,
  sweeps, rows), so no fuel is needed; where nothing decisive has been delivered yet the result is
  \<open>None\<close>. The polling loops of \<open>Harness\<close> are partial functions proved to return when the clock advances
  by the time they sleep.

  \<^bold>\<open>Not modelled.\<close> The pool's tasks after the warm-up, the operating system's processes and signals beyond the stop event
  they set, the handlers of the logging module; the interleaving of single statements of claims, admissions and
  sweeps; the dashboard's JavaScript in the browser (its check is a program over what the browser answers); wiring the
  routes and middleware into the FastAPI application, the check of the Host header by Starlette, creating the
  SQLAlchemy engine, Alembic's choice of pending revisions, argument parsing by argparse; the
  readings of \<^verbatim>\<open>psutil\<close> and the drawing of plots.
\<close>

end
